(* ===== verification/Prelude.thy ===== *)
theory Prelude
  imports Main "HOL-Library.Word"
begin

text \<open>
  What every component of the development shares.

  \<^item> Rust's \<open>String\<close> and \<open>&str\<close> are lists of Unicode scalar values
    (\<open>ustring\<close>, the value of \<open>ch as u32\<close>); \<open>lit\<close> reads a string literal of the source.
    HOL's \<open>char\<close> is one byte and could not hold the bidi controls U+2066 and following.
  \<^item> \<open>Vec<u8>\<close>, \<open>&[u8]\<close> and \<open>[u8; n]\<close> are lists of 8-bit words.
  \<^item> \<open>Result<A, E>\<close> is the sum \<open>'e + 'a\<close>, with \<open>Inl\<close> for \<open>Err\<close>; the \<open>?\<close> operator is
    \<open>result_bind\<close>.
  \<^item> A method with a side effect is an action: it takes the world and returns its result
    together with the new world; \<open>?\<close> after such a call is \<open>act_bind\<close>, which stops at the
    first \<open>Err\<close> and keeps the effects done so far.
\<close>

section \<open>Collections of facts\<close>

named_theorems action_simps \<open>evaluation rules of results and actions\<close>
named_theorems action_elims \<open>inversion of a finished action\<close>

section \<open>Strings and bytes\<close>

type_synonym byte = "8 word"
type_synonym bytes = "byte list"
type_synonym ustring = "nat list"

definition lit :: "string \<Rightarrow> ustring" where
  "lit s = map of_char s"

lemma lit_Nil [simp]: "lit [] = []"
  by (simp add: lit_def)

lemma lit_append: "lit (s @ t) = lit s @ lit t"
  by (simp add: lit_def)

lemma length_lit [simp]: "length (lit s) = length s"
  by (simp add: lit_def)

lemma lit_inject [simp]: "lit s = lit t \<longleftrightarrow> s = t"
  by (simp add: lit_def inj_map_eq_map inj_def)

section \<open>Results\<close>

definition result_bind :: "'e + 'a \<Rightarrow> ('a \<Rightarrow> 'e + 'b) \<Rightarrow> 'e + 'b" where
  "result_bind r f = (case r of Inl e \<Rightarrow> Inl e | Inr a \<Rightarrow> f a)"

definition map_err :: "('e \<Rightarrow> 'f) \<Rightarrow> 'e + 'a \<Rightarrow> 'f + 'a" where
  "map_err g r = (case r of Inl e \<Rightarrow> Inl (g e) | Inr a \<Rightarrow> Inr a)"

definition ok_or :: "'e \<Rightarrow> 'a option \<Rightarrow> 'e + 'a" where
  "ok_or e x = (case x of None \<Rightarrow> Inl e | Some a \<Rightarrow> Inr a)"

definition is_ok :: "'e + 'a \<Rightarrow> bool" where
  "is_ok r = (case r of Inl _ \<Rightarrow> False | Inr _ \<Rightarrow> True)"

lemma result_bind_simps [simp, action_simps]:
  "result_bind (Inl e) f = Inl e"
  "result_bind (Inr a) f = f a"
  by (simp_all add: result_bind_def)

lemma map_err_simps [simp, action_simps]:
  "map_err g (Inl e) = Inl (g e)"
  "map_err g (Inr a) = Inr a"
  by (simp_all add: map_err_def)

lemma ok_or_simps [simp, action_simps]:
  "ok_or e None = Inl e"
  "ok_or e (Some a) = Inr a"
  by (simp_all add: ok_or_def)

lemma is_ok_simps [simp, action_simps]:
  "\<not> is_ok (Inl e)"
  "is_ok (Inr a)"
  by (simp_all add: is_ok_def)

lemma result_bind_Inr:
  "result_bind r f = Inr b \<longleftrightarrow> (\<exists>a. r = Inr a \<and> f a = Inr b)"
  by (cases r) simp_all

lemma result_bind_Inl:
  "result_bind r f = Inl e \<longleftrightarrow> r = Inl e \<or> (\<exists>a. r = Inr a \<and> f a = Inl e)"
  by (cases r) simp_all

lemma map_err_Inr: "map_err g r = Inr a \<longleftrightarrow> r = Inr a"
  by (cases r) simp_all

lemma map_err_Inl: "map_err g r = Inl e \<longleftrightarrow> (\<exists>e'. r = Inl e' \<and> e = g e')"
  by (cases r) auto

lemma ok_or_Inr: "ok_or e x = Inr a \<longleftrightarrow> x = Some a"
  by (cases x) simp_all

lemmas result_inv = result_bind_Inr result_bind_Inl map_err_Inr map_err_Inl ok_or_Inr

section \<open>Actions: world-passing computations that may fail\<close>

type_synonym ('w, 'e, 'a) action = "'w \<Rightarrow> ('e + 'a) \<times> 'w"

definition act_return :: "'a \<Rightarrow> ('w, 'e, 'a) action" where
  "act_return a w = (Inr a, w)"

definition act_fail :: "'e \<Rightarrow> ('w, 'e, 'a) action" where
  "act_fail e w = (Inl e, w)"

definition act_lift :: "'e + 'a \<Rightarrow> ('w, 'e, 'a) action" where
  "act_lift r w = (r, w)"

definition act_bind ::
  "('w, 'e, 'a) action \<Rightarrow> ('a \<Rightarrow> ('w, 'e, 'b) action) \<Rightarrow> ('w, 'e, 'b) action" where
  "act_bind m f w = (case m w of (Inl e, w') \<Rightarrow> (Inl e, w') | (Inr a, w') \<Rightarrow> f a w')"

definition act_map_err :: "('e \<Rightarrow> 'f) \<Rightarrow> ('w, 'e, 'a) action \<Rightarrow> ('w, 'f, 'a) action" where
  "act_map_err g m w = (case m w of (r, w') \<Rightarrow> (map_err g r, w'))"

lemma act_simps [simp, action_simps]:
  "act_return a w = (Inr a, w)"
  "act_fail e w = (Inl e, w)"
  "act_lift r w = (r, w)"
  by (simp_all add: act_return_def act_fail_def act_lift_def)

lemma act_bind_Inr [action_elims]:
  "act_bind m f w = (Inr b, w') \<longleftrightarrow> (\<exists>a w1. m w = (Inr a, w1) \<and> f a w1 = (Inr b, w'))"
  by (auto simp: act_bind_def split: prod.splits sum.splits)

lemma act_bind_Inl [action_elims]:
  "act_bind m f w = (Inl e, w') \<longleftrightarrow>
     m w = (Inl e, w') \<or> (\<exists>a w1. m w = (Inr a, w1) \<and> f a w1 = (Inl e, w'))"
  by (auto simp: act_bind_def split: prod.splits sum.splits)

lemma act_map_err_Inr [action_elims]:
  "act_map_err g m w = (Inr a, w') \<longleftrightarrow> m w = (Inr a, w')"
  by (auto simp: act_map_err_def map_err_Inr split: prod.splits)

lemma act_map_err_Inl [action_elims]:
  "act_map_err g m w = (Inl e, w') \<longleftrightarrow> (\<exists>e'. m w = (Inl e', w') \<and> e = g e')"
  by (auto simp: act_map_err_def map_err_Inl split: prod.splits)

text \<open>
  A relation between the world before and after that every step keeps is kept by the
  sequence, whether it ends in \<open>Ok\<close> or in \<open>Err\<close>.
\<close>

lemma act_bind_rel:
  assumes "act_bind m f w = (r, w')"
    and "\<And>q w1. m w = (q, w1) \<Longrightarrow> R w w1"
    and "\<And>a w1. m w = (Inr a, w1) \<Longrightarrow> f a w1 = (r, w') \<Longrightarrow> R w1 w'"
    and "\<And>x y z. R x y \<Longrightarrow> R y z \<Longrightarrow> R x z"
  shows "R w w'"
  using assms(1) by (auto simp: act_bind_def split: prod.splits sum.splits intro: assms(2-4))

section \<open>Options and maps\<close>

lemma map_option_fst_Some:
  "map_option fst x = Some a \<longleftrightarrow> (\<exists>b. x = Some (a, b))"
  by (cases x) auto

lemma fold_fun_upd_other:
  "k \<notin> fst ` set ops \<Longrightarrow> fold (\<lambda>(k', f) m. m(k' := f (m k'))) ops m k = m k"
  by (induction ops arbitrary: m) (auto split: prod.splits)

end
