(* ===== verification/Core_Api.thy ===== *)
theory Core_Api
  imports Prelude
begin

text \<open>
  The interface of the crates the client is built on (\<open>entangled-core\<close>, and the
  \<open>ImageRef\<close> of \<open>entangled-engine\<close>), as far as the client sees it. Their sources are not
  part of this repository, so nothing here defines what they compute:

  \<^item> their opaque types are type variables: \<open>'pk\<close> for \<open>PublisherPubkey\<close>, \<open>'rk\<close> for
    \<open>RuntimePubkey\<close>, \<open>'ts\<close> for \<open>EntangledTimestamp\<close>, \<open>'on\<close> for \<open>OnionAddress\<close>, \<open>'m\<close> for
    \<open>Manifest\<close>, \<open>'ci\<close> for \<open>ContentIndex\<close>, \<open>'cd\<close> for \<open>ContentDocument\<close>, \<open>'st\<close> for the values
    of the manifest type-state chain;
  \<^item> their functions are the fields of a record of parameters, which the definitions of
    the client take as an argument;
  \<^item> enumerations that the client matches exhaustively are datatypes with the variants of
    those matches;
  \<^item> what the client's comments document about the core's checks is stated as predicates
    on the parameters (\<open>core_checks_ok\<close>), and used as a named hypothesis only.
\<close>

section \<open>Enumerations and plain data of the core\<close>

text \<open>\<open>CanaryState\<close>: the five variants matched by \<open>canary_badge\<close> of the shell.\<close>

datatype CanaryState = Fresh | NearExpiration | Expired | Invalid | Unavailable

text \<open>\<open>ImageMediaType\<close>: the three variants matched by \<open>media_type_str\<close>.\<close>

datatype ImageMediaType = Png | Jpeg | Webp

text \<open>
  \<open>DiagnosticCode\<close>: the codes the client names, in its sources or its tests. Every other
  code of the core is \<open>OtherCode\<close>.
\<close>

datatype DiagnosticCode =
    WImageFetchFailed | WImageContentType | WImageOversize | WImageHashMismatch
  | WImageDecodeFailed | WImageDimensions | WImageBudget
  | ETrustMismatch | ETrustUserRejected
  | ITrustFirstContact | ITrustTofuPinned | ITrustVerified
  | ECanaryDowngrade | ECanaryConflict | ECanaryRuntimeReuse
  | OtherCode nat

text \<open>
  \<open>Diagnostic\<close>: the client reads its code and prints it with \<open>{:?}\<close>; nothing else of it
  is observed.
\<close>

record Diagnostic =
  diag_code :: DiagnosticCode
  diag_debug :: ustring

text \<open>
  \<open>RetainedManifestRecord\<close>: the struct literal of \<open>record_for\<close> names its three fields.
\<close>

record ('ts, 'rk) RetainedManifestRecord =
  issued_at :: 'ts
  runtime_pubkey :: 'rk
  manifest_payload_hash :: bytes

section \<open>The functions of the core the client calls\<close>

text \<open>
  The manifest accessors and the history checks used by \<open>history.rs\<close>.
  \<open>canary_issued_at\<close> is \<open>manifest.canary.issued_at.validate().ok()\<close>.
\<close>

record ('m, 'pk, 'rk, 'ts) core_manifest =
  manifest_publisher_pubkey :: "'m \<Rightarrow> 'pk"
  canary_runtime_pubkey :: "'m \<Rightarrow> 'rk"
  canary_issued_at :: "'m \<Rightarrow> 'ts option"
  canonical_payload_hash :: "'m \<Rightarrow> bytes"
  check_anti_downgrade :: "'ts \<Rightarrow> 'ts option \<Rightarrow> Diagnostic + unit"
  check_canary_conflict ::
    "'ts \<Rightarrow> 'rk \<Rightarrow> bytes \<Rightarrow> ('ts, 'rk) RetainedManifestRecord option \<Rightarrow> Diagnostic + unit"
  check_runtime_pubkey_rotation ::
    "'rk \<Rightarrow> 'ts \<Rightarrow> ('ts, 'rk) RetainedManifestRecord option \<Rightarrow>
     ('ts, 'rk) RetainedManifestRecord list \<Rightarrow> Diagnostic + unit"

text \<open>
  The verification chain used by \<open>pipeline.rs\<close>, and the PIP derivation used by the
  chrome. \<open>into_parts\<close> takes the last value of the chain apart.
\<close>

record ('m, 'pk, 'rk, 'ts, 'on, 'ci, 'cd, 'st) core =
  "('m, 'pk, 'rk, 'ts) core_manifest" +
  parse_and_verify_manifest :: "bytes \<Rightarrow> 'ts \<Rightarrow> Diagnostic + 'st"
  verify_canary :: "'st \<Rightarrow> 'ts \<Rightarrow> Diagnostic + 'st"
  verify_origin :: "'st \<Rightarrow> 'on \<Rightarrow> 'ts \<Rightarrow> Diagnostic + 'st"
  verify_content_index :: "'st \<Rightarrow> bytes option \<Rightarrow> Diagnostic + 'st"
  into_parts :: "'st \<Rightarrow> 'm \<times> CanaryState \<times> 'ci option"
  parse_and_verify_content :: "bytes \<Rightarrow> 'rk \<Rightarrow> Diagnostic + 'cd"
  derive_pip :: "'pk \<Rightarrow> ustring"

section \<open>What the client documents about the history checks\<close>

text \<open>
  The module comment of \<open>history.rs\<close>: a manifest whose \<open>issued_at\<close> regresses is rejected
  (strict \<open><\<close>) with \<open>E_CANARY_DOWNGRADE\<close>; one with an equal \<open>issued_at\<close> that differs from
  the newest retained record is a conflict, \<open>E_CANARY_CONFLICT\<close>, with a carve-out for an
  equal payload hash; one that reuses the immediately preceding runtime key is
  \<open>E_CANARY_RUNTIME_REUSE\<close>. What the rotation check does with the older records is a
  SHOULD the client does not describe, so nothing is said about it, except that a key no
  retained record has is accepted.
\<close>

definition anti_downgrade_ok ::
  "('m, 'pk, 'rk, 'ts::linorder, 'z) core_manifest_scheme \<Rightarrow> bool" where
  "anti_downgrade_ok C \<longleftrightarrow>
     (\<forall>t prev. case check_anti_downgrade C t prev of
        Inl d \<Rightarrow> diag_code d = ECanaryDowngrade \<and> (\<exists>p. prev = Some p \<and> t < p)
      | Inr _ \<Rightarrow> \<not> (\<exists>p. prev = Some p \<and> t < p))"

definition canary_conflict_ok ::
  "('m, 'pk, 'rk, 'ts, 'z) core_manifest_scheme \<Rightarrow> bool" where
  "canary_conflict_ok C \<longleftrightarrow>
     (\<forall>t k h newest. case check_canary_conflict C t k h newest of
        Inl d \<Rightarrow> diag_code d = ECanaryConflict \<and>
          (\<exists>r. newest = Some r \<and> issued_at r = t \<and> manifest_payload_hash r \<noteq> h)
      | Inr _ \<Rightarrow>
          \<not> (\<exists>r. newest = Some r \<and> issued_at r = t \<and> manifest_payload_hash r \<noteq> h))"

definition rotation_ok ::
  "('m, 'pk, 'rk, 'ts, 'z) core_manifest_scheme \<Rightarrow> bool" where
  "rotation_ok C \<longleftrightarrow>
     (\<forall>k t newest older. case check_runtime_pubkey_rotation C k t newest older of
        Inl d \<Rightarrow> diag_code d = ECanaryRuntimeReuse \<and>
          (\<exists>r \<in> set_option newest \<union> set older. runtime_pubkey r = k)
      | Inr _ \<Rightarrow> \<not> (\<exists>r. newest = Some r \<and> runtime_pubkey r = k))"

definition core_checks_ok ::
  "('m, 'pk, 'rk, 'ts::linorder, 'z) core_manifest_scheme \<Rightarrow> bool" where
  "core_checks_ok C \<longleftrightarrow> anti_downgrade_ok C \<and> canary_conflict_ok C \<and> rotation_ok C"

lemma anti_downgrade_Err:
  "anti_downgrade_ok C \<Longrightarrow> check_anti_downgrade C t prev = Inl d \<Longrightarrow>
   diag_code d = ECanaryDowngrade \<and> (\<exists>p. prev = Some p \<and> t < p)"
  unfolding anti_downgrade_ok_def by (drule spec [of _ t], drule spec [of _ prev]) simp

lemma anti_downgrade_Ok:
  "anti_downgrade_ok C \<Longrightarrow> check_anti_downgrade C t (Some p) = Inr u \<Longrightarrow> p \<le> t"
  unfolding anti_downgrade_ok_def
  by (drule spec [of _ t], drule spec [of _ "Some p"]) (simp add: not_less)

lemma canary_conflict_Err:
  "canary_conflict_ok C \<Longrightarrow> check_canary_conflict C t k h newest = Inl d \<Longrightarrow>
   diag_code d = ECanaryConflict \<and>
   (\<exists>r. newest = Some r \<and> issued_at r = t \<and> manifest_payload_hash r \<noteq> h)"
  unfolding canary_conflict_ok_def
  by (drule spec [of _ t], drule spec [of _ k], drule spec [of _ h], drule spec [of _ newest]) simp

lemma canary_conflict_Ok:
  "canary_conflict_ok C \<Longrightarrow> check_canary_conflict C t k h (Some r) = Inr u \<Longrightarrow>
   issued_at r = t \<Longrightarrow> manifest_payload_hash r = h"
  unfolding canary_conflict_ok_def
  by (drule spec [of _ t], drule spec [of _ k], drule spec [of _ h], drule spec [of _ "Some r"])
    simp

lemma rotation_Err:
  "rotation_ok C \<Longrightarrow> check_runtime_pubkey_rotation C k t newest older = Inl d \<Longrightarrow>
   diag_code d = ECanaryRuntimeReuse \<and>
   (\<exists>r \<in> set_option newest \<union> set older. runtime_pubkey r = k)"
  unfolding rotation_ok_def
  by (drule spec [of _ k], drule spec [of _ t], drule spec [of _ newest], drule spec [of _ older])
    simp

lemma rotation_Ok:
  "rotation_ok C \<Longrightarrow> check_runtime_pubkey_rotation C k t (Some r) older = Inr u \<Longrightarrow>
   runtime_pubkey r \<noteq> k"
  unfolding rotation_ok_def
  by (drule spec [of _ k], drule spec [of _ t], drule spec [of _ "Some r"], drule spec [of _ older])
    simp

lemma core_checks_okD:
  "core_checks_ok C \<Longrightarrow> anti_downgrade_ok C"
  "core_checks_ok C \<Longrightarrow> canary_conflict_ok C"
  "core_checks_ok C \<Longrightarrow> rotation_ok C"
  by (simp_all add: core_checks_ok_def)

end
