(* ===== verification/Trust.thy ===== *)
theory Trust
  imports Core_Api
begin

text \<open>
  The Stage 7 trust-state machine, \<open>crates/entangled-client/src/trust.rs\<close>: its six data
  types, \<open>resolve\<close> with its three branches \<open>first_contact\<close>, \<open>matched\<close> and \<open>mismatch\<close>, and
  \<open>trust_diagnostic\<close>. Publisher keys are a type variable: the machine only compares and
  copies them. A variant named \<open>None\<close> gets the suffix of its type, and
  \<open>RetainedProvenance::ExternallyVerified\<close> the suffix \<open>_prov\<close>, because HOL and
  \<open>TrustState\<close> use the names already.
\<close>

section \<open>Data\<close>

datatype TrustState = FirstContact | TofuPinned | ExternallyVerified | ChangedMismatch

datatype RetainedProvenance = Observed | Pinned | ExternallyVerified_prov

record 'pk RetainedIdentity =
  pubkey :: 'pk
  provenance :: RetainedProvenance

datatype UserDecision =
  None_decision | PinFirstContact | ConfirmPip | ConfirmNewIdentity | RejectNewIdentity

datatype RequiredAction = None_action | PinPrompt | MismatchWarning

datatype 'pk PersistenceIntent =
    None_intent
  | RecordObservation 'pk
  | PinIdentity 'pk
  | MarkExternallyVerified 'pk
  | ReplaceIdentity (new_pubkey: 'pk) (replaced: 'pk) (externally_verified: bool)

record 'pk Resolution =
  res_state :: TrustState
  res_action :: RequiredAction
  res_intent :: "'pk PersistenceIntent"

section \<open>Operations\<close>

fun first_contact :: "'pk \<Rightarrow> UserDecision \<Rightarrow> 'pk Resolution" where
  "first_contact presented ConfirmPip =
     \<lparr>res_state = ExternallyVerified, res_action = None_action,
      res_intent = MarkExternallyVerified presented\<rparr>"
| "first_contact presented PinFirstContact =
     \<lparr>res_state = TofuPinned, res_action = None_action, res_intent = PinIdentity presented\<rparr>"
| "first_contact presented _ =
     \<lparr>res_state = FirstContact, res_action = PinPrompt,
      res_intent = RecordObservation presented\<rparr>"

definition matched :: "'pk \<Rightarrow> 'pk RetainedIdentity \<Rightarrow> UserDecision \<Rightarrow> 'pk Resolution" where
  "matched presented retained decision =
     (if decision = ConfirmPip \<and> provenance retained \<noteq> ExternallyVerified_prov then
        \<lparr>res_state = ExternallyVerified, res_action = None_action,
         res_intent = MarkExternallyVerified presented\<rparr>
      else if decision = PinFirstContact \<and> provenance retained = Observed then
        \<lparr>res_state = TofuPinned, res_action = None_action, res_intent = PinIdentity presented\<rparr>
      else case provenance retained of
        Observed \<Rightarrow>
          \<lparr>res_state = FirstContact, res_action = PinPrompt, res_intent = None_intent\<rparr>
      | Pinned \<Rightarrow>
          \<lparr>res_state = TofuPinned, res_action = None_action, res_intent = None_intent\<rparr>
      | ExternallyVerified_prov \<Rightarrow>
          \<lparr>res_state = ExternallyVerified, res_action = None_action,
           res_intent = None_intent\<rparr>)"

fun mismatch :: "'pk \<Rightarrow> 'pk RetainedIdentity \<Rightarrow> UserDecision \<Rightarrow> 'pk Resolution" where
  "mismatch presented retained ConfirmNewIdentity =
     \<lparr>res_state = FirstContact, res_action = None_action,
      res_intent = ReplaceIdentity presented (pubkey retained) False\<rparr>"
| "mismatch presented retained ConfirmPip =
     \<lparr>res_state = ExternallyVerified, res_action = None_action,
      res_intent = ReplaceIdentity presented (pubkey retained) True\<rparr>"
| "mismatch presented retained RejectNewIdentity =
     \<lparr>res_state = ChangedMismatch, res_action = None_action, res_intent = None_intent\<rparr>"
| "mismatch presented retained _ =
     \<lparr>res_state = ChangedMismatch, res_action = MismatchWarning, res_intent = None_intent\<rparr>"

definition resolve ::
  "'pk \<Rightarrow> 'pk RetainedIdentity option \<Rightarrow> UserDecision \<Rightarrow> 'pk Resolution" where
  "resolve presented retained decision =
     (case retained of
        None \<Rightarrow> first_contact presented decision
      | Some r \<Rightarrow>
          if pubkey r = presented then matched presented r decision
          else mismatch presented r decision)"

definition trust_diagnostic :: "'pk Resolution \<Rightarrow> UserDecision \<Rightarrow> DiagnosticCode option" where
  "trust_diagnostic resolution decision =
     (case res_state resolution of
        ChangedMismatch \<Rightarrow>
          Some (if decision = RejectNewIdentity then ETrustUserRejected else ETrustMismatch)
      | FirstContact \<Rightarrow>
          (case res_intent resolution of
             RecordObservation _ \<Rightarrow> Some ITrustFirstContact
           | ReplaceIdentity _ _ _ \<Rightarrow> Some ITrustFirstContact
           | _ \<Rightarrow> None)
      | TofuPinned \<Rightarrow>
          (case res_intent resolution of
             PinIdentity _ \<Rightarrow> Some ITrustTofuPinned
           | _ \<Rightarrow> None)
      | ExternallyVerified \<Rightarrow>
          (case res_intent resolution of
             MarkExternallyVerified _ \<Rightarrow> Some ITrustVerified
           | ReplaceIdentity _ _ True \<Rightarrow> Some ITrustVerified
           | _ \<Rightarrow> None))"

end
