(* ===== verification/Trust_Ledger.thy ===== *)
theory Trust_Ledger
  imports Trust "HOL-Library.Sublist"
begin

text \<open>
  What the trust machine and the persistence intents promise together, independently of a
  store. A site's record is the retained identity with the keys it replaced, newest first;
  \<open>intent_effect\<close> is the effect the contract of \<open>IdentityStore::apply\<close> gives each intent, and
  \<open>visit_effect\<close> one visit: resolve the presented key against the record with the user's
  decision, then persist the intent. The stores are shown to implement this ledger in
  their own theories.
\<close>

section \<open>Provenances are ordered by the trust they carry\<close>

fun provenance_rank :: "RetainedProvenance \<Rightarrow> nat" where
  "provenance_rank Observed = 0"
| "provenance_rank Pinned = 1"
| "provenance_rank ExternallyVerified_prov = 2"

instantiation RetainedProvenance :: linorder
begin

definition less_eq_RetainedProvenance :: "RetainedProvenance \<Rightarrow> RetainedProvenance \<Rightarrow> bool" where
  "less_eq_RetainedProvenance p q \<longleftrightarrow> provenance_rank p \<le> provenance_rank q"

definition less_RetainedProvenance :: "RetainedProvenance \<Rightarrow> RetainedProvenance \<Rightarrow> bool" where
  "less_RetainedProvenance p q \<longleftrightarrow> provenance_rank p < provenance_rank q"

instance
proof
  fix p q :: RetainedProvenance
  assume "p \<le> q" "q \<le> p"
  then show "p = q"
    by (cases p; cases q) (simp_all add: less_eq_RetainedProvenance_def)
qed (auto simp: less_eq_RetainedProvenance_def less_RetainedProvenance_def)

end

lemma provenance_le_simps [simp]:
  "Observed \<le> p"
  "p \<le> ExternallyVerified_prov"
  "Pinned \<le> p \<longleftrightarrow> p \<noteq> Observed"
  "p \<le> Pinned \<longleftrightarrow> p \<noteq> ExternallyVerified_prov"
  "ExternallyVerified_prov \<le> p \<longleftrightarrow> p = ExternallyVerified_prov"
  "p \<le> Observed \<longleftrightarrow> p = Observed"
  by (cases p; simp add: less_eq_RetainedProvenance_def)+

section \<open>Records and the effect of an intent\<close>

type_synonym 'pk site_record = "('pk RetainedIdentity \<times> 'pk list) option"

definition replaced_of :: "'pk site_record \<Rightarrow> 'pk list" where
  "replaced_of rec = (case rec of None \<Rightarrow> [] | Some (_, ks) \<Rightarrow> ks)"

fun intent_effect :: "'pk PersistenceIntent \<Rightarrow> 'pk site_record \<Rightarrow> 'pk site_record" where
  "intent_effect None_intent rec = rec"
| "intent_effect (RecordObservation k) rec =
     (case rec of
        None \<Rightarrow> Some (\<lparr>pubkey = k, provenance = Observed\<rparr>, [])
      | Some x \<Rightarrow> Some x)"
| "intent_effect (PinIdentity k) rec =
     (case rec of
        None \<Rightarrow> Some (\<lparr>pubkey = k, provenance = Pinned\<rparr>, [])
      | Some (r, ks) \<Rightarrow>
          if provenance r = Observed then Some (\<lparr>pubkey = k, provenance = Pinned\<rparr>, ks)
          else Some (r, ks))"
| "intent_effect (MarkExternallyVerified k) rec =
     Some (\<lparr>pubkey = k, provenance = ExternallyVerified_prov\<rparr>, replaced_of rec)"
| "intent_effect (ReplaceIdentity n old v) rec =
     Some (\<lparr>pubkey = n, provenance = if v then ExternallyVerified_prov else Pinned\<rparr>,
           old # replaced_of rec)"

definition visit_effect :: "'pk \<Rightarrow> UserDecision \<Rightarrow> 'pk site_record \<Rightarrow> 'pk site_record" where
  "visit_effect k d rec = intent_effect (res_intent (resolve k (map_option fst rec) d)) rec"

fun ledger_run :: "('pk \<times> UserDecision) list \<Rightarrow> 'pk site_record \<Rightarrow> 'pk site_record" where
  "ledger_run [] rec = rec"
| "ledger_run ((k, d) # vs) rec = ledger_run vs (visit_effect k d rec)"

lemma ledger_run_append: "ledger_run (us @ vs) rec = ledger_run vs (ledger_run us rec)"
  by (induction us rec rule: ledger_run.induct) simp_all

lemma replaced_of_simps [simp]:
  "replaced_of None = []"
  "replaced_of (Some (r, ks)) = ks"
  by (simp_all add: replaced_of_def)

section \<open>One visit\<close>

text \<open>
  The visit on every branch of \<open>resolve\<close>: nothing retained, the retained key presented
  again, another key presented.
\<close>

lemma visit_effect_None:
  "visit_effect k d None = Some (\<lparr>pubkey = k, provenance =
     (case d of ConfirmPip \<Rightarrow> ExternallyVerified_prov | PinFirstContact \<Rightarrow> Pinned
      | _ \<Rightarrow> Observed)\<rparr>, [])"
  by (cases d) (simp_all add: visit_effect_def resolve_def)

lemma visit_effect_same:
  assumes "pubkey r = k"
  shows "visit_effect k d (Some (r, ks)) = Some (\<lparr>pubkey = k, provenance =
     (case d of ConfirmPip \<Rightarrow> ExternallyVerified_prov
      | PinFirstContact \<Rightarrow> max Pinned (provenance r)
      | _ \<Rightarrow> provenance r)\<rparr>, ks)"
  using assms
  by (cases r; cases "provenance r"; cases d)
    (simp_all add: visit_effect_def resolve_def matched_def max_def)

lemma visit_effect_other:
  assumes "pubkey r \<noteq> k"
  shows "visit_effect k d (Some (r, ks)) =
    (case d of
       ConfirmNewIdentity \<Rightarrow> Some (\<lparr>pubkey = k, provenance = Pinned\<rparr>, pubkey r # ks)
     | ConfirmPip \<Rightarrow> Some (\<lparr>pubkey = k, provenance = ExternallyVerified_prov\<rparr>, pubkey r # ks)
     | _ \<Rightarrow> Some (r, ks))"
  using assms by (cases d) (simp_all add: visit_effect_def resolve_def)

lemmas visit_effects = visit_effect_None visit_effect_same visit_effect_other

lemma visit_effect_Some: "\<exists>x. visit_effect k d rec = Some x"
  by (cases rec; cases "pubkey (fst (the rec)) = k"; cases d)
    (auto simp: visit_effects)

section \<open>Runs of visits\<close>

lemma subseq_set: "subseq xs ys \<Longrightarrow> x \<in> set xs \<Longrightarrow> x \<in> set ys"
  by (induction rule: list_emb.induct) auto

text \<open>The decisions that accept another key as the site's identity.\<close>

definition accepts_new :: "UserDecision \<Rightarrow> bool" where
  "accepts_new d \<longleftrightarrow> d = ConfirmNewIdentity \<or> d = ConfirmPip"

lemma accepts_new_simps [simp]:
  "\<not> accepts_new None_decision" "\<not> accepts_new PinFirstContact"
  "\<not> accepts_new RejectNewIdentity" "accepts_new ConfirmNewIdentity" "accepts_new ConfirmPip"
  by (simp_all add: accepts_new_def)

text \<open>
  Without an accepting decision for another key, the retained key and the replaced keys
  stay, and the provenance never goes down.
\<close>

lemma visit_effect_keeps:
  assumes "pubkey r \<noteq> k \<Longrightarrow> \<not> accepts_new d"
  shows "\<exists>r'. visit_effect k d (Some (r, ks)) = Some (r', ks) \<and> pubkey r' = pubkey r \<and>
    provenance r \<le> provenance r'"
  using assms by (cases "pubkey r = k"; cases d) (auto simp: visit_effects)

lemma ledger_run_keeps:
  assumes "\<forall>(k, d) \<in> set vs. k \<noteq> pubkey r \<longrightarrow> \<not> accepts_new d"
  shows "\<exists>r'. ledger_run vs (Some (r, ks)) = Some (r', ks) \<and> pubkey r' = pubkey r \<and>
    provenance r \<le> provenance r'"
  using assms
proof (induction vs arbitrary: r)
  case Nil
  then show ?case by simp
next
  case (Cons v vs)
  obtain k d where v: "v = (k, d)" by (cases v)
  with Cons.prems obtain r1 where r1: "visit_effect k d (Some (r, ks)) = Some (r1, ks)"
    "pubkey r1 = pubkey r" "provenance r \<le> provenance r1"
    using visit_effect_keeps [of r k d ks] by auto
  with Cons.prems Cons.IH [of r1] v show ?case by (auto intro: order_trans)
qed

text \<open>Only an affirmative decision pins or verifies (no passive pin).\<close>

definition affirmative :: "UserDecision \<Rightarrow> bool" where
  "affirmative d \<longleftrightarrow> d = PinFirstContact \<or> accepts_new d"

lemma visit_effect_passive:
  assumes "\<not> affirmative d"
  shows "visit_effect k d rec =
    (case rec of None \<Rightarrow> Some (\<lparr>pubkey = k, provenance = Observed\<rparr>, []) | Some x \<Rightarrow> Some x)"
  using assms
  by (cases rec; cases "pubkey (fst (the rec)) = k"; cases d)
    (auto simp: visit_effects affirmative_def)

lemma ledger_run_passive:
  "\<forall>(k, d) \<in> set vs. \<not> affirmative d \<Longrightarrow> ledger_run vs (Some x) = Some x"
  by (induction vs) (auto simp: visit_effect_passive)

text \<open>Every identity the site ever had, newest first: the list only grows at its head.\<close>

definition identity_log :: "'pk site_record \<Rightarrow> 'pk list" where
  "identity_log rec = (case rec of None \<Rightarrow> [] | Some (r, ks) \<Rightarrow> pubkey r # ks)"

lemma visit_effect_log: "suffix (identity_log rec) (identity_log (visit_effect k d rec))"
proof (cases rec)
  case None
  then show ?thesis by (simp add: identity_log_def)
next
  case (Some x)
  obtain r ks where "rec = Some (r, ks)" using Some by (cases x) auto
  then show ?thesis
    by (cases "pubkey r = k"; cases d) (auto simp: visit_effects identity_log_def suffix_Cons)
qed

lemma ledger_run_log: "suffix (identity_log rec) (identity_log (ledger_run vs rec))"
proof (induction vs rec rule: ledger_run.induct)
  case (2 k d vs rec)
  then show ?case using visit_effect_log [of rec k d] by (auto intro: suffix_order.trans)
qed simp

text \<open>What is new on the list was presented.\<close>

lemma visit_effect_log_keys:
  "\<exists>new. identity_log (visit_effect k d rec) = new @ identity_log rec \<and> set new \<subseteq> {k}"
proof (cases rec)
  case None
  then show ?thesis by (simp add: visit_effects identity_log_def)
next
  case (Some x)
  obtain r ks where rec: "rec = Some (r, ks)" using Some by (cases x) auto
  show ?thesis
  proof (cases "pubkey r = k")
    case True
    with rec show ?thesis by (cases d) (auto simp: visit_effects identity_log_def)
  next
    case False
    with rec show ?thesis
      by (cases "accepts_new d"; cases d) (simp_all add: visit_effects identity_log_def)
  qed
qed

lemma ledger_run_log_keys:
  "\<exists>new. identity_log (ledger_run vs rec) = new @ identity_log rec \<and> set new \<subseteq> fst ` set vs"
proof (induction vs rec rule: ledger_run.induct)
  case (2 k d vs rec)
  then obtain new where "identity_log (ledger_run vs (visit_effect k d rec)) =
      new @ identity_log (visit_effect k d rec)" "set new \<subseteq> fst ` set vs" by blast
  moreover obtain new' where "identity_log (visit_effect k d rec) = new' @ identity_log rec"
    "set new' \<subseteq> {k}" using visit_effect_log_keys [of k d rec] by blast
  ultimately have "identity_log (ledger_run ((k, d) # vs) rec) = (new @ new') @ identity_log rec"
    "set (new @ new') \<subseteq> fst ` set ((k, d) # vs)" by auto
  then show ?case by blast
qed simp

text \<open>What a provenance is evidence of: which decisions can have produced it.\<close>

fun evidence :: "RetainedProvenance \<Rightarrow> UserDecision \<Rightarrow> bool" where
  "evidence Observed d = True"
| "evidence Pinned d = (d = PinFirstContact \<or> d = ConfirmNewIdentity)"
| "evidence ExternallyVerified_prov d = (d = ConfirmPip)"

lemma visit_effect_evidence:
  assumes "visit_effect k d rec = Some (r', ks')"
  shows "(pubkey r' = k \<and> evidence (provenance r') d) \<or>
    (\<exists>r ks. rec = Some (r, ks) \<and> pubkey r' = pubkey r \<and> provenance r' = provenance r)"
proof (cases rec)
  case None
  with assms show ?thesis by (cases d) (auto simp: visit_effects)
next
  case (Some x)
  obtain r ks where rec: "rec = Some (r, ks)" using Some by (cases x) auto
  show ?thesis
  proof (cases "pubkey r = k")
    case True
    with assms rec show ?thesis
      by (cases "provenance r"; cases d) (auto simp: visit_effects max_def)
  next
    case False
    with assms rec show ?thesis by (cases d) (auto simp: visit_effects)
  qed
qed

lemma ledger_run_evidence:
  "ledger_run vs rec = Some (r', ks') \<Longrightarrow>
     (\<exists>d. (pubkey r', d) \<in> set vs \<and> evidence (provenance r') d) \<or>
     (\<exists>r ks. rec = Some (r, ks) \<and> pubkey r' = pubkey r \<and> provenance r' = provenance r)"
proof (induction vs rec rule: ledger_run.induct)
  case (1 rec)
  then show ?case by auto
next
  case (2 k d vs rec)
  from 2 have "(\<exists>d. (pubkey r', d) \<in> set vs \<and> evidence (provenance r') d) \<or>
     (\<exists>r ks. visit_effect k d rec = Some (r, ks) \<and> pubkey r' = pubkey r \<and>
        provenance r' = provenance r)" by simp
  then show ?case
  proof (elim disjE exE conjE)
    fix d' assume "(pubkey r', d') \<in> set vs" "evidence (provenance r') d'"
    then show ?thesis by auto
  next
    fix r ks assume "visit_effect k d rec = Some (r, ks)" "pubkey r' = pubkey r"
      "provenance r' = provenance r"
    with visit_effect_evidence [of k d rec r ks] show ?thesis by auto
  qed
qed

section \<open>The next session\<close>

text \<open>
  The state a decision showed is the state the persisted record resolves to when the same
  key is presented again with no decision. The one exception is a confirmed replacement
  without PIP: it is shown as First contact and reloads as the TOFU pin it was persisted as.
\<close>

lemma next_session_state:
  "res_state (resolve k (map_option fst (visit_effect k d rec)) None_decision) =
     (if d = ConfirmNewIdentity \<and> (\<exists>r ks. rec = Some (r, ks) \<and> pubkey r \<noteq> k) then TofuPinned
      else res_state (resolve k (map_option fst rec) d))"
proof (cases rec)
  case None
  then show ?thesis by (cases d) (simp_all add: visit_effects resolve_def matched_def)
next
  case (Some x)
  obtain r ks where rec: "rec = Some (r, ks)" using Some by (cases x) auto
  show ?thesis
  proof (cases "pubkey r = k")
    case True
    with rec show ?thesis
      by (cases d; cases "provenance r") (simp_all add: visit_effects resolve_def matched_def max_def)
  next
    case False
    with rec show ?thesis
      by (cases d) (simp_all add: visit_effects resolve_def matched_def)
  qed
qed

end
