(* ===== verification/History.thy ===== *)
theory History
  imports Core_Api
begin

text \<open>
  Publisher history, \<open>crates/entangled-client/src/history.rs\<close>: the accepted manifest records
  of one publisher, newest first, the record a verified manifest leaves, and
  \<open>check_against_history\<close>, which runs the anti-downgrade, conflict and runtime-rotation
  checks of the core in that order and skips the last one for a re-fetch of the newest
  payload. The three checks are parameters (record \<open>core_manifest\<close>); the theorems use their
  documented behaviour \<open>core_checks_ok\<close>.
\<close>

section \<open>The history of one publisher\<close>

record ('ts, 'rk) PublisherHistory =
  ph_records :: "('ts, 'rk) RetainedManifestRecord list"

definition ph_new :: "('ts, 'rk) PublisherHistory" where
  "ph_new = \<lparr>ph_records = []\<rparr>"

definition from_records_newest_first ::
  "('ts, 'rk) RetainedManifestRecord list \<Rightarrow> ('ts, 'rk) PublisherHistory" where
  "from_records_newest_first rs = \<lparr>ph_records = rs\<rparr>"

definition records :: "('ts, 'rk) PublisherHistory \<Rightarrow> ('ts, 'rk) RetainedManifestRecord list" where
  "records h = ph_records h"

definition is_empty :: "('ts, 'rk) PublisherHistory \<Rightarrow> bool" where
  "is_empty h \<longleftrightarrow> ph_records h = []"

definition newest ::
  "('ts, 'rk) PublisherHistory \<Rightarrow> ('ts, 'rk) RetainedManifestRecord option" where
  "newest h = (case ph_records h of [] \<Rightarrow> None | r # _ \<Rightarrow> Some r)"

definition push ::
  "('ts, 'rk) PublisherHistory \<Rightarrow> ('ts, 'rk) RetainedManifestRecord \<Rightarrow>
   ('ts, 'rk) PublisherHistory" where
  "push h r = h\<lparr>ph_records := r # ph_records h\<rparr>"

text \<open>\<open>self.records.get(1..).unwrap_or(&[])\<close>: \<open>get\<close> fails on an empty vector only.\<close>

definition extended ::
  "('ts, 'rk) PublisherHistory \<Rightarrow> ('ts, 'rk) RetainedManifestRecord list" where
  "extended h = (if 1 \<le> length (ph_records h) then drop 1 (ph_records h) else [])"

section \<open>Records and checks of a verified manifest\<close>

definition record_for ::
  "('m, 'pk, 'rk, 'ts, 'z) core_manifest_scheme \<Rightarrow> 'm \<Rightarrow>
   ('ts, 'rk) RetainedManifestRecord option" where
  "record_for C m =
     (case canary_issued_at C m of
        None \<Rightarrow> None
      | Some t \<Rightarrow> Some \<lparr>issued_at = t, runtime_pubkey = canary_runtime_pubkey C m,
                       manifest_payload_hash = canonical_payload_hash C m\<rparr>)"

definition check_against_history ::
  "('m, 'pk, 'rk, 'ts, 'z) core_manifest_scheme \<Rightarrow> 'm \<Rightarrow> ('ts, 'rk) PublisherHistory \<Rightarrow>
   Diagnostic + unit" where
  "check_against_history C m history =
     (case record_for C m of
        None \<Rightarrow> Inr ()
      | Some r \<Rightarrow>
          result_bind (check_anti_downgrade C (issued_at r) (map_option issued_at (newest history)))
          (\<lambda>_. result_bind
            (check_canary_conflict C (issued_at r) (runtime_pubkey r) (manifest_payload_hash r)
               (newest history))
          (\<lambda>_. let is_same_payload_refetch =
                   (case newest history of
                      None \<Rightarrow> False
                    | Some n \<Rightarrow> manifest_payload_hash n = manifest_payload_hash r)
               in if \<not> is_same_payload_refetch
                  then check_runtime_pubkey_rotation C (runtime_pubkey r) (issued_at r)
                         (newest history) (extended history)
                  else Inr ())))"

section \<open>Facts about the history as a list\<close>

lemma newest_simps [simp]:
  "newest \<lparr>ph_records = []\<rparr> = None"
  "newest \<lparr>ph_records = r # rs\<rparr> = Some r"
  "newest ph_new = None"
  "newest (push h r) = Some r"
  by (simp_all add: newest_def ph_new_def push_def)

lemma records_simps [simp]:
  "records (push h r) = r # records h"
  "records (from_records_newest_first rs) = rs"
  "records ph_new = []"
  by (simp_all add: records_def push_def from_records_newest_first_def ph_new_def)

lemma extended_push [simp]: "extended (push h r) = records h"
  by (simp add: extended_def push_def records_def)

lemma extended_empty [simp]: "extended ph_new = []"
  by (simp add: extended_def ph_new_def)

lemma is_empty_iff_newest: "is_empty h \<longleftrightarrow> newest h = None"
  by (auto simp: is_empty_def newest_def split: list.splits)

lemma records_newest_extended:
  "records h = (case newest h of None \<Rightarrow> [] | Some r \<Rightarrow> r # extended h)"
  by (auto simp: records_def newest_def extended_def split: list.splits)

lemma set_newest_extended: "set_option (newest h) \<union> set (extended h) = set (records h)"
  by (cases "ph_records h") (simp_all add: records_def newest_def extended_def)

section \<open>What an accepted manifest is\<close>

text \<open>
  The specification of the checks: a record fits a history when it does not regress behind
  the newest record, does not contradict it, and either is the newest payload again or has
  another runtime key.
\<close>

definition fits :: "('ts::linorder, 'rk) RetainedManifestRecord \<Rightarrow>
    ('ts, 'rk) RetainedManifestRecord \<Rightarrow> bool" where
  "fits n r \<longleftrightarrow>
     issued_at n \<le> issued_at r \<and>
     (issued_at n = issued_at r \<longrightarrow> manifest_payload_hash n = manifest_payload_hash r) \<and>
     (runtime_pubkey n = runtime_pubkey r \<longrightarrow> manifest_payload_hash n = manifest_payload_hash r)"

lemma check_against_history_Ok:
  assumes core: "core_checks_ok C"
    and acc: "check_against_history C m h = Inr u"
    and r: "record_for C m = Some r" and n: "newest h = Some n"
  shows "fits n r"
proof -
  from acc r n have ad: "check_anti_downgrade C (issued_at r) (Some (issued_at n)) = Inr ()"
    and cc: "check_canary_conflict C (issued_at r) (runtime_pubkey r)
               (manifest_payload_hash r) (Some n) = Inr ()"
    and rot: "manifest_payload_hash n \<noteq> manifest_payload_hash r \<Longrightarrow>
      check_runtime_pubkey_rotation C (runtime_pubkey r) (issued_at r) (Some n) (extended h)
        = Inr ()"
    by (auto simp: check_against_history_def result_bind_Inr split: if_splits)
  from core_checks_okD [OF core] ad cc rot show ?thesis
    unfolding fits_def
    by (blast dest: anti_downgrade_Ok canary_conflict_Ok rotation_Ok)
qed

lemma check_against_history_older:
  assumes core: "core_checks_ok C" and r: "record_for C m = Some r" and n: "newest h = Some n"
    and older: "issued_at r < issued_at n"
  shows "\<exists>d. check_against_history C m h = Inl d \<and> diag_code d = ECanaryDowngrade"
proof (cases "check_anti_downgrade C (issued_at r) (Some (issued_at n))")
  case (Inl d)
  with anti_downgrade_Err [OF core_checks_okD(1) [OF core] this] r n show ?thesis
    by (simp add: check_against_history_def)
next
  case (Inr u)
  with anti_downgrade_Ok [OF core_checks_okD(1) [OF core] this] older show ?thesis by simp
qed

lemma check_against_history_Err:
  assumes core: "core_checks_ok C"
    and rej: "check_against_history C m h = Inl d"
  obtains (downgrade) r n where "record_for C m = Some r" "newest h = Some n"
      "issued_at r < issued_at n" "diag_code d = ECanaryDowngrade"
  | (conflict) r n where "record_for C m = Some r" "newest h = Some n"
      "issued_at n = issued_at r" "manifest_payload_hash n \<noteq> manifest_payload_hash r"
      "diag_code d = ECanaryConflict"
  | (reuse) r r' where "record_for C m = Some r" "r' \<in> set (records h)"
      "runtime_pubkey r' = runtime_pubkey r"
      "\<forall>n. newest h = Some n \<longrightarrow> issued_at n \<le> issued_at r \<and>
         manifest_payload_hash n \<noteq> manifest_payload_hash r"
      "diag_code d = ECanaryRuntimeReuse"
proof -
  note laws = core_checks_okD [OF core]
  from rej obtain r where r: "record_for C m = Some r"
    by (auto simp: check_against_history_def split: option.splits)
  define n where "n = newest h"
  show thesis
  proof (cases "check_anti_downgrade C (issued_at r) (map_option issued_at n)")
    case (Inl d')
    with rej r have "d' = d" by (simp add: check_against_history_def n_def)
    with anti_downgrade_Err [OF laws(1) Inl] r show thesis
      by (auto simp: n_def intro: downgrade)
  next
    case ad: (Inr u)
    show thesis
    proof (cases "check_canary_conflict C (issued_at r) (runtime_pubkey r)
                    (manifest_payload_hash r) n")
      case (Inl d')
      with rej r ad have "d' = d" by (simp add: check_against_history_def n_def)
      with canary_conflict_Err [OF laws(2) Inl] r show thesis
        by (auto simp: n_def intro: conflict)
    next
      case (Inr u')
      with rej r ad
      have rot: "check_runtime_pubkey_rotation C (runtime_pubkey r) (issued_at r) n (extended h)
                   = Inl d"
        and fresh: "\<forall>x. n = Some x \<longrightarrow> manifest_payload_hash x \<noteq> manifest_payload_hash r"
        by (auto simp: check_against_history_def n_def split: if_splits option.splits)
      from rotation_Err [OF laws(3) rot] obtain r' where
        "r' \<in> set_option n \<union> set (extended h)" "runtime_pubkey r' = runtime_pubkey r"
        "diag_code d = ECanaryRuntimeReuse" by blast
      moreover have "set_option n \<union> set (extended h) = set (records h)"
        unfolding n_def by (rule set_newest_extended)
      moreover have "\<forall>x. n = Some x \<longrightarrow> issued_at x \<le> issued_at r"
        using ad by (auto dest: anti_downgrade_Ok [OF laws(1)])
      ultimately show thesis using r fresh by (auto simp: n_def intro: reuse)
    qed
  qed
qed

section \<open>A sequence of accepted manifests\<close>

text \<open>
  The discipline the module asks of its caller (\<open>PublisherHistory::push\<close>): a record is
  pushed only for a manifest that passed the checks against the history so far.
\<close>

definition accept_manifest ::
  "('m, 'pk, 'rk, 'ts, 'z) core_manifest_scheme \<Rightarrow> 'm \<Rightarrow> ('ts, 'rk) PublisherHistory \<Rightarrow>
   ('ts, 'rk) PublisherHistory" where
  "accept_manifest C m h =
     (case check_against_history C m h of
        Inl _ \<Rightarrow> h
      | Inr _ \<Rightarrow> (case record_for C m of None \<Rightarrow> h | Some r \<Rightarrow> push h r))"

definition history_chain :: "('ts::linorder, 'rk) PublisherHistory \<Rightarrow> bool" where
  "history_chain h \<longleftrightarrow> successively (\<lambda>newer older. fits older newer) (records h)"

lemma history_chain_new [simp]: "history_chain ph_new"
  by (simp add: history_chain_def)

lemma history_chain_push:
  assumes "history_chain h" and "\<And>n. newest h = Some n \<Longrightarrow> fits n r"
  shows "history_chain (push h r)"
  using assms
  by (cases "ph_records h") (auto simp: history_chain_def records_def push_def newest_def)

lemma accept_manifest_chain:
  assumes "core_checks_ok C" and "history_chain h"
  shows "history_chain (accept_manifest C m h)"
  using assms
  by (auto simp: accept_manifest_def split: sum.splits option.splits
      intro!: history_chain_push dest: check_against_history_Ok)

lemma accept_all_chain:
  assumes "core_checks_ok C" and "history_chain h"
  shows "history_chain (fold (accept_manifest C) ms h)"
  using assms by (induction ms arbitrary: h) (simp_all add: accept_manifest_chain)

lemma history_chain_sorted:
  fixes h :: "('ts::linorder, 'rk) PublisherHistory"
  assumes "history_chain h"
  shows "sorted_wrt (\<lambda>newer older. issued_at older \<le> issued_at newer) (records h)"
proof -
  have "successively (\<lambda>newer older. issued_at older \<le> issued_at newer) (records h)"
    using assms unfolding history_chain_def by (rule successively_mono) (auto simp: fits_def)
  moreover have "transp (\<lambda>(newer :: ('ts, 'rk) RetainedManifestRecord) older.
      issued_at older \<le> issued_at newer)"
    by (auto intro!: transpI)
  ultimately show ?thesis by (simp add: successively_conv_sorted_wrt)
qed

lemma accept_manifest_records:
  "records (accept_manifest C m h) = records h \<or>
   (\<exists>r. record_for C m = Some r \<and> records (accept_manifest C m h) = r # records h)"
  by (auto simp: accept_manifest_def split: sum.splits option.splits)

end
