(* ===== verification/Pipeline.thy ===== *)
theory Pipeline
  imports History
begin

text \<open>
  The validation-pipeline driver, \<open>crates/entangled-client/src/pipeline.rs\<close>, with the clock
  seam of \<open>io.rs\<close>. The four steps of the core's manifest chain are parameters; the driver's
  own work is their order, the stop at the first diagnostic, and the history checks that
  follow a successful chain.
\<close>

section \<open>The clock seam\<close>

text \<open>
  \<open>trait Clock\<close> has the one method \<open>now\<close>; a definition that takes an \<open>&impl Clock\<close> takes
  the method and the object. \<open>FixedClock\<close> is the implementation of \<open>io.rs\<close>.
\<close>

datatype 'ts FixedClock = FixedClock 'ts

fun fixed_now :: "'ts FixedClock \<Rightarrow> 'ts" where
  "fixed_now (FixedClock t) = t"

section \<open>Outcomes and verified manifests\<close>

datatype 'a Outcome = Accept 'a | Reject Diagnostic

fun outcome_is_accepted :: "'a Outcome \<Rightarrow> bool" where
  "outcome_is_accepted (Accept _) = True"
| "outcome_is_accepted (Reject _) = False"

fun outcome_diagnostic :: "'a Outcome \<Rightarrow> Diagnostic option" where
  "outcome_diagnostic (Reject d) = Some d"
| "outcome_diagnostic (Accept _) = None"

record ('m, 'ci) VerifiedManifest =
  vm_manifest :: 'm
  vm_canary_state :: CanaryState
  vm_content_index :: "'ci option"

definition vm_runtime_pubkey ::
  "('m, 'pk, 'rk, 'ts, 'z) core_manifest_scheme \<Rightarrow> ('m, 'ci) VerifiedManifest \<Rightarrow> 'rk" where
  "vm_runtime_pubkey C v = canary_runtime_pubkey C (vm_manifest v)"

section \<open>The two drivers\<close>

definition verify_manifest ::
  "('m, 'pk, 'rk, 'ts, 'on, 'ci, 'cd, 'st, 'z) core_scheme \<Rightarrow> bytes \<Rightarrow> 'on \<Rightarrow> bytes option \<Rightarrow>
   ('c \<Rightarrow> 'ts) \<Rightarrow> 'c \<Rightarrow> ('ts, 'rk) PublisherHistory \<Rightarrow> ('m, 'ci) VerifiedManifest Outcome" where
  "verify_manifest C manifest_bytes fetched_address content_index_bytes clock_now clock history =
     (let now = clock_now clock;
          result =
            result_bind
              (result_bind
                (result_bind (parse_and_verify_manifest C manifest_bytes now)
                  (\<lambda>sig_verified. verify_canary C sig_verified now))
                (\<lambda>canary_checked. verify_origin C canary_checked fetched_address now))
              (\<lambda>origin_bound. verify_content_index C origin_bound content_index_bytes)
      in case result of
           Inl diagnostic \<Rightarrow> Reject diagnostic
         | Inr verified \<Rightarrow>
             (case into_parts C verified of (manifest, canary, content_index) \<Rightarrow>
                (case check_against_history C manifest history of
                   Inl diagnostic \<Rightarrow> Reject diagnostic
                 | Inr _ \<Rightarrow> Accept \<lparr>vm_manifest = manifest, vm_canary_state = canary,
                                   vm_content_index = content_index\<rparr>)))"

definition verify_content ::
  "('m, 'pk, 'rk, 'ts, 'on, 'ci, 'cd, 'st, 'z) core_scheme \<Rightarrow> bytes \<Rightarrow> ('m, 'ci) VerifiedManifest \<Rightarrow>
   'cd Outcome" where
  "verify_content C content_bytes v =
     (case parse_and_verify_content C content_bytes (vm_runtime_pubkey C v) of
        Inr doc \<Rightarrow> Accept doc
      | Inl diagnostic \<Rightarrow> Reject diagnostic)"

section \<open>What acceptance and rejection mean\<close>

text \<open>
  The stages a manifest passed, as one relation: every step of the chain succeeded on the
  result of the one before, at the same instant.
\<close>

definition chain_passes ::
  "('m, 'pk, 'rk, 'ts, 'on, 'ci, 'cd, 'st, 'z) core_scheme \<Rightarrow> bytes \<Rightarrow> 'on \<Rightarrow> bytes option \<Rightarrow> 'ts \<Rightarrow>
   'm \<times> CanaryState \<times> 'ci option \<Rightarrow> bool" where
  "chain_passes C mb addr ci now parts \<longleftrightarrow>
     (\<exists>s1 s2 s3 s4. parse_and_verify_manifest C mb now = Inr s1 \<and>
        verify_canary C s1 now = Inr s2 \<and> verify_origin C s2 addr now = Inr s3 \<and>
        verify_content_index C s3 ci = Inr s4 \<and> into_parts C s4 = parts)"

lemma verify_manifest_Accept:
  "verify_manifest C mb addr ci cn clk h = Accept v \<longleftrightarrow>
     chain_passes C mb addr ci (cn clk) (vm_manifest v, vm_canary_state v, vm_content_index v) \<and>
     check_against_history C (vm_manifest v) h = Inr ()"
  unfolding verify_manifest_def chain_passes_def Let_def
  by (cases v) (auto simp: result_bind_def split: sum.splits prod.splits)

lemma chain_passes_unique:
  "chain_passes C mb addr ci now p \<Longrightarrow> chain_passes C mb addr ci now q \<Longrightarrow> p = q"
  by (auto simp: chain_passes_def)

lemma verify_manifest_Reject_history:
  assumes "chain_passes C mb addr ci (cn clk) (m, cs, x)"
    and "check_against_history C m h = Inl d"
  shows "verify_manifest C mb addr ci cn clk h = Reject d"
  using assms unfolding chain_passes_def verify_manifest_def by auto

text \<open>The first failing stage is the one reported, whatever the later ones would say.\<close>

lemma verify_manifest_first_stage:
  "parse_and_verify_manifest C mb (cn clk) = Inl d \<Longrightarrow>
     verify_manifest C mb addr ci cn clk h = Reject d"
  "parse_and_verify_manifest C mb (cn clk) = Inr s1 \<Longrightarrow> verify_canary C s1 (cn clk) = Inl d \<Longrightarrow>
     verify_manifest C mb addr ci cn clk h = Reject d"
  "parse_and_verify_manifest C mb (cn clk) = Inr s1 \<Longrightarrow> verify_canary C s1 (cn clk) = Inr s2 \<Longrightarrow>
     verify_origin C s2 addr (cn clk) = Inl d \<Longrightarrow>
     verify_manifest C mb addr ci cn clk h = Reject d"
  "parse_and_verify_manifest C mb (cn clk) = Inr s1 \<Longrightarrow> verify_canary C s1 (cn clk) = Inr s2 \<Longrightarrow>
     verify_origin C s2 addr (cn clk) = Inr s3 \<Longrightarrow> verify_content_index C s3 ci = Inl d \<Longrightarrow>
     verify_manifest C mb addr ci cn clk h = Reject d"
  by (simp_all add: verify_manifest_def)

lemma verify_manifest_Reject_cases:
  assumes "verify_manifest C mb addr ci cn clk h = Reject d"
  obtains (signature) "parse_and_verify_manifest C mb (cn clk) = Inl d"
  | (canary) s1 where "parse_and_verify_manifest C mb (cn clk) = Inr s1"
      "verify_canary C s1 (cn clk) = Inl d"
  | (origin) s1 s2 where "parse_and_verify_manifest C mb (cn clk) = Inr s1"
      "verify_canary C s1 (cn clk) = Inr s2" "verify_origin C s2 addr (cn clk) = Inl d"
  | (content_index) s1 s2 s3 where "parse_and_verify_manifest C mb (cn clk) = Inr s1"
      "verify_canary C s1 (cn clk) = Inr s2" "verify_origin C s2 addr (cn clk) = Inr s3"
      "verify_content_index C s3 ci = Inl d"
  | (history) m cs x where "chain_passes C mb addr ci (cn clk) (m, cs, x)"
      "check_against_history C m h = Inl d"
  using assms unfolding verify_manifest_def chain_passes_def Let_def
  by (auto simp: result_bind_Inl result_bind_Inr split: sum.splits prod.splits)

end
