(* ===== verification/Stores.thy ===== *)
theory Stores
  imports Trust_Ledger Pipeline
begin

text \<open>
  The persistence seams of \<open>crates/entangled-client/src/io.rs\<close>. The two traits are locales:
  \<open>identity_store\<close> for \<open>IdentityStore\<close> (\<open>load_identity\<close>, \<open>apply\<close>) and \<open>history_store\<close> for
  \<open>HistoryStore\<close> (\<open>load_history\<close>, \<open>append_record\<close>). Their assumptions are the contract of the
  trait comments over an abstraction (\<open>content\<close>): what a successful call returns and
  writes, and that a failed call writes nothing. The clients' lemmas are proved in the
  locales, for sequences of visits and of accepted manifests; the in-memory doubles are
  interpreted here, the file stores in \<open>File_Stores\<close>.
\<close>

datatype StoreError = StoreError ustring

section \<open>The identity seam\<close>

text \<open>
  One use of the seam by a shell: load the site's identity, resolve the presented key
  against it with the user's decision, persist the intent.
\<close>

definition store_visit ::
  "('on \<Rightarrow> ('s, StoreError, 'pk RetainedIdentity option) action) \<Rightarrow>
   ('on \<Rightarrow> 'pk PersistenceIntent \<Rightarrow> ('s, StoreError, unit) action) \<Rightarrow>
   'on \<Rightarrow> 'pk \<Rightarrow> UserDecision \<Rightarrow> ('s, StoreError, 'pk Resolution) action" where
  "store_visit ld ap site k d =
     act_bind (ld site) (\<lambda>retained.
       let resolution = resolve k retained d
       in act_bind (ap site (res_intent resolution)) (\<lambda>_. act_return resolution))"

text \<open>A sequence of visits; one that fails leaves what it has done and the next one runs.\<close>

fun store_run ::
  "('on \<Rightarrow> ('s, StoreError, 'pk RetainedIdentity option) action) \<Rightarrow>
   ('on \<Rightarrow> 'pk PersistenceIntent \<Rightarrow> ('s, StoreError, unit) action) \<Rightarrow>
   ('on \<times> 'pk \<times> UserDecision) list \<Rightarrow> 's \<Rightarrow> 's" where
  "store_run ld ap [] s = s"
| "store_run ld ap ((site, k, d) # vs) s =
     store_run ld ap vs (snd (store_visit ld ap site k d s))"

definition visits_of ::
  "'on \<Rightarrow> ('on \<times> 'pk \<times> UserDecision) list \<Rightarrow> ('pk \<times> UserDecision) list" where
  "visits_of site vs = map snd (filter (\<lambda>v. fst v = site) vs)"

lemma visits_of_simps [simp]:
  "visits_of site [] = []"
  "visits_of site ((s, k, d) # vs) =
     (if s = site then (k, d) # visits_of site vs else visits_of site vs)"
  by (simp_all add: visits_of_def)

lemma set_visits_of: "(k, d) \<in> set (visits_of site vs) \<longleftrightarrow> (site, k, d) \<in> set vs"
  by (force simp: visits_of_def)

locale identity_store =
  fixes inv :: "'s \<Rightarrow> bool"
    and ld :: "'on \<Rightarrow> ('s, StoreError, 'pk RetainedIdentity option) action"
    and ap :: "'on \<Rightarrow> 'pk PersistenceIntent \<Rightarrow> ('s, StoreError, unit) action"
    and content :: "'s \<Rightarrow> 'on \<Rightarrow> 'pk site_record"
  assumes load_Ok: "inv s \<Longrightarrow> ld site s = (Inr x, s') \<Longrightarrow> x = map_option fst (content s site)"
    and load_inv: "inv s \<Longrightarrow> ld site s = (r, s') \<Longrightarrow> inv s'"
    and load_frame: "inv s \<Longrightarrow> ld site s = (r, s') \<Longrightarrow> content s' = content s"
    and apply_Ok: "inv s \<Longrightarrow> ap site i s = (Inr u, s') \<Longrightarrow>
      content s' = (content s)(site := intent_effect i (content s site))"
    and apply_Err: "inv s \<Longrightarrow> ap site i s = (Inl e, s') \<Longrightarrow> content s' = content s"
    and apply_inv: "inv s \<Longrightarrow> ap site i s = (q, s') \<Longrightarrow> inv s'"
begin

lemma visit_inv: "inv s \<Longrightarrow> store_visit ld ap site k d s = (r, s') \<Longrightarrow> inv s'"
  by (cases r) (auto simp: store_visit_def Let_def action_elims dest: load_inv apply_inv)

lemma visit_Ok:
  assumes "inv s" and "store_visit ld ap site k d s = (Inr res, s')"
  shows "res = resolve k (map_option fst (content s site)) d"
    and "content s' = (content s)(site := visit_effect k d (content s site))"
proof -
  from assms(2) obtain x s1 u where l: "ld site s = (Inr x, s1)" and r: "res = resolve k x d"
    and a: "ap site (res_intent res) s1 = (Inr u, s')"
    by (auto simp: store_visit_def Let_def action_elims)
  note x = load_Ok [OF assms(1) l] and c = load_frame [OF assms(1) l]
    and i = load_inv [OF assms(1) l]
  show "res = resolve k (map_option fst (content s site)) d" using r x by simp
  with apply_Ok [OF i a] c show "content s' = (content s)(site := visit_effect k d (content s site))"
    by (simp add: visit_effect_def)
qed

lemma visit_Err:
  assumes "inv s" and "store_visit ld ap site k d s = (Inl e, s')"
  shows "content s' = content s"
  using assms(2)
  by (auto simp: store_visit_def Let_def action_elims apply_Err [OF load_inv [OF assms(1)]]
      load_frame [OF assms(1)])

lemma run_inv: "inv s \<Longrightarrow> inv (store_run ld ap vs s)"
proof (induction vs arbitrary: s)
  case (Cons v vs)
  then show ?case
    by (cases v; cases "store_visit ld ap (fst v) (fst (snd v)) (snd (snd v)) s")
      (auto dest: visit_inv)
qed simp

text \<open>
  The refinement: after any run, each site's record is what the ledger makes of a
  subsequence of the site's visits, those whose persistence succeeded.
\<close>

lemma run_refines_ledger:
  "inv s \<Longrightarrow> \<exists>vs'. subseq vs' (visits_of site vs) \<and>
     content (store_run ld ap vs s) site = ledger_run vs' (content s site)"
proof (induction vs arbitrary: s)
  case Nil
  then show ?case by (auto intro: exI [of _ "[]"])
next
  case (Cons v vs)
  obtain st k d where v: "v = (st, k, d)" by (cases v)
  obtain r s1 where step: "store_visit ld ap st k d s = (r, s1)"
    by (cases "store_visit ld ap st k d s")
  from Cons.IH [OF visit_inv [OF Cons.prems step]] obtain vs' where
    sub: "subseq vs' (visits_of site vs)" and
    run: "content (store_run ld ap vs s1) site = ledger_run vs' (content s1 site)" by blast
  show ?case
  proof (cases "is_ok r \<and> st = site")
    case True
    then have "content s1 site = visit_effect k d (content s site)"
      using visit_Ok(2) [OF Cons.prems] step by (cases r) auto
    with True v step run sub show ?thesis
      by (intro exI [of _ "(k, d) # vs'"]) simp
  next
    case False
    then have "content s1 site = content s site"
      using visit_Ok(2) [OF Cons.prems] visit_Err [OF Cons.prems] step by (cases r) auto
    with v step run sub show ?thesis by (intro exI [of _ vs']) auto
  qed
qed

lemma run_keeps:
  assumes "inv s" and "content s site = Some (r, ks)"
    and "\<forall>k d. (site, k, d) \<in> set vs \<longrightarrow> k \<noteq> pubkey r \<longrightarrow> \<not> accepts_new d"
  shows "\<exists>r'. content (store_run ld ap vs s) site = Some (r', ks) \<and> pubkey r' = pubkey r \<and>
    provenance r \<le> provenance r'"
proof -
  obtain vs' where sub: "subseq vs' (visits_of site vs)"
    and run: "content (store_run ld ap vs s) site = ledger_run vs' (content s site)"
    using run_refines_ledger [OF assms(1)] by blast
  have "\<forall>(k, d) \<in> set vs'. k \<noteq> pubkey r \<longrightarrow> \<not> accepts_new d"
    using subseq_set [OF sub] assms(3) set_visits_of [of _ _ site vs] by blast
  then show ?thesis unfolding run assms(2) by (rule ledger_run_keeps)
qed

lemma run_log:
  "inv s \<Longrightarrow> suffix (identity_log (content s site)) (identity_log (content (store_run ld ap vs s) site))"
  using run_refines_ledger [of s site vs] ledger_run_log by fastforce

lemma run_evidence:
  assumes "inv s" and "content (store_run ld ap vs s) site = Some (r', ks')"
  shows "(\<exists>d. (site, pubkey r', d) \<in> set vs \<and> evidence (provenance r') d) \<or>
    (\<exists>r ks. content s site = Some (r, ks) \<and> pubkey r' = pubkey r \<and>
       provenance r' = provenance r)"
proof -
  obtain vs' where sub: "subseq vs' (visits_of site vs)"
    and run: "content (store_run ld ap vs s) site = ledger_run vs' (content s site)"
    using run_refines_ledger [OF assms(1)] by blast
  from ledger_run_evidence [of vs' "content s site" r' ks'] run assms(2)
  show ?thesis using subseq_set [OF sub] set_visits_of [of _ _ site vs] by fastforce
qed

lemma visit_then_reload:
  assumes "inv s" and "store_visit ld ap site k d s = (Inr res, s1)"
    and "ld site s1 = (Inr x, s2)"
  shows "res_state (resolve k x None_decision) =
    (if d = ConfirmNewIdentity \<and>
        (\<exists>r ks. content s site = Some (r, ks) \<and> pubkey r \<noteq> k) then TofuPinned
     else res_state res)"
proof -
  note v = visit_Ok [OF assms(1,2)]
  have "x = map_option fst (visit_effect k d (content s site))"
    using load_Ok [OF visit_inv [OF assms(1,2)] assms(3)] v(2) by simp
  then show ?thesis using v(1) by (simp only: next_session_state)
qed

end

section \<open>The in-memory identity store\<close>

record ('on, 'pk) MemoryIdentityStore =
  mis_map :: "'on \<Rightarrow> 'pk RetainedIdentity option"
  mis_replaced :: "'on \<Rightarrow> 'pk list option"

definition mis_new :: "('on, 'pk) MemoryIdentityStore" where
  "mis_new = \<lparr>mis_map = (\<lambda>_. None), mis_replaced = (\<lambda>_. None)\<rparr>"

definition mis_seed ::
  "'on \<Rightarrow> 'pk RetainedIdentity \<Rightarrow> ('on, 'pk) MemoryIdentityStore \<Rightarrow>
   ('on, 'pk) MemoryIdentityStore" where
  "mis_seed site identity s = s\<lparr>mis_map := (mis_map s)(site \<mapsto> identity)\<rparr>"

definition mis_replaced_keys :: "('on, 'pk) MemoryIdentityStore \<Rightarrow> 'on \<Rightarrow> 'pk list" where
  "mis_replaced_keys s site = (case mis_replaced s site of None \<Rightarrow> [] | Some ks \<Rightarrow> ks)"

definition mis_load_identity ::
  "'on \<Rightarrow> (('on, 'pk) MemoryIdentityStore, StoreError, 'pk RetainedIdentity option) action" where
  "mis_load_identity site s = (Inr (mis_map s site), s)"

text \<open>\<open>HashMap::entry(k).and_modify(f).or_insert(v)\<close>.\<close>

definition entry_and_modify_or_insert ::
  "'k \<Rightarrow> ('v \<Rightarrow> 'v) \<Rightarrow> 'v \<Rightarrow> ('k \<Rightarrow> 'v option) \<Rightarrow> ('k \<Rightarrow> 'v option)" where
  "entry_and_modify_or_insert k f v m =
     (case m k of None \<Rightarrow> m(k \<mapsto> v) | Some x \<Rightarrow> m(k \<mapsto> f x))"

fun mis_apply ::
  "'on \<Rightarrow> 'pk PersistenceIntent \<Rightarrow>
   (('on, 'pk) MemoryIdentityStore, StoreError, unit) action" where
  "mis_apply site None_intent s = (Inr (), s)"
| "mis_apply site (RecordObservation k) s =
     (Inr (), s\<lparr>mis_map := entry_and_modify_or_insert site (\<lambda>r. r)
        \<lparr>pubkey = k, provenance = Observed\<rparr> (mis_map s)\<rparr>)"
| "mis_apply site (PinIdentity k) s =
     (Inr (), s\<lparr>mis_map := entry_and_modify_or_insert site
        (\<lambda>r. if provenance r = Observed then r\<lparr>pubkey := k, provenance := Pinned\<rparr> else r)
        \<lparr>pubkey = k, provenance = Pinned\<rparr> (mis_map s)\<rparr>)"
| "mis_apply site (MarkExternallyVerified k) s =
     (Inr (), s\<lparr>mis_map := entry_and_modify_or_insert site
        (\<lambda>r. r\<lparr>pubkey := k, provenance := ExternallyVerified_prov\<rparr>)
        \<lparr>pubkey = k, provenance = ExternallyVerified_prov\<rparr> (mis_map s)\<rparr>)"
| "mis_apply site (ReplaceIdentity n old v) s =
     (Inr (), s\<lparr>mis_replaced := (mis_replaced s)(site \<mapsto> old # mis_replaced_keys s site),
                mis_map := (mis_map s)(site \<mapsto> \<lparr>pubkey = n,
                  provenance = if v then ExternallyVerified_prov else Pinned\<rparr>)\<rparr>)"

text \<open>Replaced keys exist only where an identity is retained.\<close>

definition mis_inv :: "('on, 'pk) MemoryIdentityStore \<Rightarrow> bool" where
  "mis_inv s \<longleftrightarrow> (\<forall>site. mis_map s site = None \<longrightarrow> mis_replaced s site = None)"

definition mis_content :: "('on, 'pk) MemoryIdentityStore \<Rightarrow> 'on \<Rightarrow> 'pk site_record" where
  "mis_content s site = map_option (\<lambda>r. (r, mis_replaced_keys s site)) (mis_map s site)"

lemma mis_new_ok: "mis_inv mis_new" "mis_content mis_new site = None"
  by (simp_all add: mis_inv_def mis_new_def mis_content_def)

lemma mis_seed_inv: "mis_inv s \<Longrightarrow> mis_inv (mis_seed site i s)"
  by (simp add: mis_inv_def mis_seed_def)

lemma mis_apply_content:
  "mis_inv s \<Longrightarrow> mis_content (snd (mis_apply site i s)) =
     (mis_content s)(site := intent_effect i (mis_content s site))"
  by (cases i; cases "mis_map s site")
    (auto simp: fun_eq_iff mis_content_def mis_inv_def mis_replaced_keys_def
      entry_and_modify_or_insert_def)

lemma mis_apply_inv: "mis_inv s \<Longrightarrow> mis_inv (snd (mis_apply site i s))"
  by (cases i; cases "mis_map s site")
    (auto simp: mis_inv_def entry_and_modify_or_insert_def)

lemma mis_apply_ok: "fst (mis_apply site i s) = Inr ()"
  by (cases i) simp_all

interpretation mis: identity_store mis_inv mis_load_identity mis_apply mis_content
proof
  fix s :: "('on, 'pk) MemoryIdentityStore" and site i e s'
  assume "mis_apply site i s = (Inl e, s')"
  then show "mis_content s' = mis_content s"
    using mis_apply_ok [of site i s] by simp
next
  fix s :: "('on, 'pk) MemoryIdentityStore" and site i u s'
  assume "mis_inv s" "mis_apply site i s = (Inr u, s')"
  then show "mis_content s' = (mis_content s)(site := intent_effect i (mis_content s site))"
    using mis_apply_content [of s site i] by simp
next
  fix s :: "('on, 'pk) MemoryIdentityStore" and site i q s'
  assume "mis_inv s" "mis_apply site i s = (q, s')"
  then show "mis_inv s'" using mis_apply_inv [of s site i] by simp
qed (auto simp: mis_load_identity_def mis_content_def option.map_comp o_def option.map_ident)

section \<open>The history seam\<close>

text \<open>
  One use of the history seam: load the publisher's history, run the checks of \<open>history.rs\<close>
  against it, append the record of an accepted manifest. The result says whether the
  manifest was accepted.
\<close>

definition history_visit ::
  "('m, 'pk, 'rk, 'ts, 'z) core_manifest_scheme \<Rightarrow>
   ('pk \<Rightarrow> ('s, StoreError, ('ts, 'rk) PublisherHistory) action) \<Rightarrow>
   ('pk \<Rightarrow> ('ts, 'rk) RetainedManifestRecord \<Rightarrow> ('s, StoreError, unit) action) \<Rightarrow>
   'm \<Rightarrow> ('s, StoreError, bool) action" where
  "history_visit C ldh app m =
     act_bind (ldh (manifest_publisher_pubkey C m)) (\<lambda>h.
       case check_against_history C m h of
         Inl _ \<Rightarrow> act_return False
       | Inr _ \<Rightarrow> (case record_for C m of
             None \<Rightarrow> act_return True
           | Some r \<Rightarrow> act_bind (app (manifest_publisher_pubkey C m) r) (\<lambda>_. act_return True)))"

text \<open>
  The records a core produces satisfy \<open>ok\<close>: what the type of a record guarantees beyond
  the model's type. In the code the payload hash is a \<open>[u8; 32]\<close>, here a list of bytes.
\<close>

definition recs_ok ::
  "(('ts, 'rk) RetainedManifestRecord \<Rightarrow> bool) \<Rightarrow>
   ('m, 'pk, 'rk, 'ts, 'z) core_manifest_scheme \<Rightarrow> bool" where
  "recs_ok ok C \<longleftrightarrow> (\<forall>m r. record_for C m = Some r \<longrightarrow> ok r)"

lemma recs_okD: "recs_ok ok C \<Longrightarrow> record_for C m = Some r \<Longrightarrow> ok r"
  by (simp add: recs_ok_def)

locale history_store =
  fixes inv :: "'s \<Rightarrow> bool"
    and rec_ok :: "('ts, 'rk) RetainedManifestRecord \<Rightarrow> bool"
    and ldh :: "'pk \<Rightarrow> ('s, StoreError, ('ts, 'rk) PublisherHistory) action"
    and app :: "'pk \<Rightarrow> ('ts, 'rk) RetainedManifestRecord \<Rightarrow> ('s, StoreError, unit) action"
    and content :: "'s \<Rightarrow> 'pk \<Rightarrow> ('ts, 'rk) RetainedManifestRecord list"
  assumes load_Ok: "inv s \<Longrightarrow> ldh p s = (Inr h, s') \<Longrightarrow> records h = content s p"
    and load_inv: "inv s \<Longrightarrow> ldh p s = (q, s') \<Longrightarrow> inv s'"
    and load_frame: "inv s \<Longrightarrow> ldh p s = (q, s') \<Longrightarrow> content s' = content s"
    and append_Ok: "inv s \<Longrightarrow> rec_ok r \<Longrightarrow> app p r s = (Inr u, s') \<Longrightarrow>
      content s' = (content s)(p := r # content s p)"
    and append_Err: "inv s \<Longrightarrow> app p r s = (Inl e, s') \<Longrightarrow> content s' = content s"
    and append_inv: "inv s \<Longrightarrow> rec_ok r \<Longrightarrow> app p r s = (v, s') \<Longrightarrow> inv s'"
begin

lemma append_then_load:
  assumes "inv s" and "rec_ok r" and "app p r s = (Inr u, s1)" and "ldh p s1 = (Inr h, s2)"
  shows "newest h = Some r \<and> extended h = content s p"
proof -
  have "records h = r # content s p"
    using load_Ok [OF append_inv [OF assms(1-3)] assms(4)] append_Ok [OF assms(1-3)] by simp
  then show ?thesis
    by (simp_all add: records_def newest_def extended_def)
qed

lemma history_visit_inv:
  "inv s \<Longrightarrow> recs_ok rec_ok C \<Longrightarrow> history_visit C ldh app m s = (q, s') \<Longrightarrow> inv s'"
  by (auto simp: history_visit_def act_bind_def dest: load_inv
      intro: append_inv [OF load_inv recs_okD]
      split: prod.splits sum.splits option.splits)

text \<open>
  Whatever succeeds or fails, a visit leaves every history as it was or extends the
  manifest's publisher's by the record of a manifest the checks passed.
\<close>

lemma history_visit_content:
  assumes "inv s" and "recs_ok rec_ok C" and "history_visit C ldh app m s = (q, s')"
  shows "content s' = content s \<or>
    (\<exists>r h. record_for C m = Some r \<and> records h = content s (manifest_publisher_pubkey C m) \<and>
       check_against_history C m h = Inr () \<and>
       content s' = (content s)(manifest_publisher_pubkey C m :=
         r # content s (manifest_publisher_pubkey C m)))"
proof -
  let ?p = "manifest_publisher_pubkey C m"
  obtain l s1 where l: "ldh ?p s = (l, s1)" by (cases "ldh ?p s")
  note i = load_inv [OF assms(1) l] and c = load_frame [OF assms(1) l]
  show ?thesis
  proof (cases l)
    case (Inl e)
    with assms(3) l c show ?thesis by (simp add: history_visit_def act_bind_def)
  next
    case (Inr h)
    note h = load_Ok [OF assms(1) l [unfolded Inr]]
    show ?thesis
    proof (cases "check_against_history C m h = Inr () \<and> record_for C m \<noteq> None")
      case False
      with assms(3) l Inr c show ?thesis
        by (cases "check_against_history C m h")
          (auto simp: history_visit_def act_bind_def)
    next
      case True
      then obtain r where r: "record_for C m = Some r" by blast
      obtain u s2 where a: "app ?p r s1 = (u, s2)" by (cases "app ?p r s1")
      with assms(3) l Inr True r have s': "s' = s2"
        by (auto simp: history_visit_def act_bind_def split: sum.splits)
      show ?thesis
      proof (cases u)
        case (Inl e)
        with append_Err [OF i] a c s' show ?thesis by auto
      next
        case (Inr v)
        with append_Ok [OF i] assms(2) a c s' True r h show ?thesis by (auto simp: recs_ok_def)
      qed
    qed
  qed
qed

end

text \<open>
  With ordered timestamps the checks mean something: the same contract over a linear order,
  where accepted histories stay chains.
\<close>

locale ordered_history_store = history_store inv rec_ok ldh app content
  for inv :: "'s \<Rightarrow> bool"
    and rec_ok :: "('ts::linorder, 'rk) RetainedManifestRecord \<Rightarrow> bool"
    and ldh :: "'pk \<Rightarrow> ('s, StoreError, ('ts::linorder, 'rk) PublisherHistory) action"
    and app :: "'pk \<Rightarrow> ('ts, 'rk) RetainedManifestRecord \<Rightarrow> ('s, StoreError, unit) action"
    and content :: "'s \<Rightarrow> 'pk \<Rightarrow> ('ts, 'rk) RetainedManifestRecord list"
begin

lemma history_visit_chain:
  assumes "core_checks_ok C" and "inv s" and "recs_ok rec_ok C"
    and "history_visit C ldh app m s = (q, s')"
    and "history_chain (from_records_newest_first (content s p))"
  shows "history_chain (from_records_newest_first (content s' p))"
  using history_visit_content [OF assms(2-4)]
proof
  assume "content s' = content s"
  with assms(5) show ?thesis by simp
next
  assume "\<exists>r h. record_for C m = Some r \<and> records h = content s (manifest_publisher_pubkey C m) \<and>
       check_against_history C m h = Inr () \<and>
       content s' = (content s)(manifest_publisher_pubkey C m :=
         r # content s (manifest_publisher_pubkey C m))"
  then obtain r h where r: "record_for C m = Some r"
    and h: "records h = content s (manifest_publisher_pubkey C m)"
    and ok: "check_against_history C m h = Inr ()"
    and s': "content s' = (content s)(manifest_publisher_pubkey C m :=
         r # content s (manifest_publisher_pubkey C m))" by blast
  show ?thesis
  proof (cases "p = manifest_publisher_pubkey C m")
    case True
    with assms(5) h have "history_chain h" by (simp add: history_chain_def)
    then have "history_chain (push h r)"
      by (rule history_chain_push) (rule check_against_history_Ok [OF assms(1) ok r])
    with True s' h show ?thesis by (simp add: history_chain_def)
  qed (use s' assms(5) in simp)
qed

end

text \<open>A sequence of visits, of any manifests of any publishers.\<close>

fun history_run ::
  "('m, 'pk, 'rk, 'ts, 'z) core_manifest_scheme \<Rightarrow>
   ('pk \<Rightarrow> ('s, StoreError, ('ts, 'rk) PublisherHistory) action) \<Rightarrow>
   ('pk \<Rightarrow> ('ts, 'rk) RetainedManifestRecord \<Rightarrow> ('s, StoreError, unit) action) \<Rightarrow>
   'm list \<Rightarrow> 's \<Rightarrow> 's" where
  "history_run C ldh app [] s = s"
| "history_run C ldh app (m # ms) s =
     history_run C ldh app ms (snd (history_visit C ldh app m s))"

context ordered_history_store
begin

lemma history_run_chain:
  assumes "core_checks_ok C" and "recs_ok rec_ok C"
  shows "inv s \<Longrightarrow> \<forall>p. history_chain (from_records_newest_first (content s p)) \<Longrightarrow>
    history_chain (from_records_newest_first (content (history_run C ldh app ms s) p))"
proof (induction ms arbitrary: s)
  case (Cons m ms)
  obtain q s1 where step: "history_visit C ldh app m s = (q, s1)"
    by (cases "history_visit C ldh app m s")
  with Cons.IH [OF history_visit_inv [OF Cons.prems(1) assms(2) step]]
    history_visit_chain [OF assms(1) Cons.prems(1) assms(2) step] Cons.prems(2)
  show ?case by simp
qed simp

lemma history_run_sorted:
  assumes "core_checks_ok C" and "recs_ok rec_ok C" and "inv s"
    and "\<forall>p. history_chain (from_records_newest_first (content s p))"
  shows "sorted_wrt (\<lambda>newer older. issued_at older \<le> issued_at newer)
    (content (history_run C ldh app ms s) p)"
  using history_chain_sorted [OF history_run_chain [OF assms, of ms p]] by simp

end

section \<open>The in-memory history store\<close>

record ('pk, 'ts, 'rk) MemoryHistoryStore =
  mhs_map :: "'pk \<Rightarrow> ('ts, 'rk) RetainedManifestRecord list option"

definition mhs_new :: "('pk, 'ts, 'rk) MemoryHistoryStore" where
  "mhs_new = \<lparr>mhs_map = (\<lambda>_. None)\<rparr>"

definition mhs_content ::
  "('pk, 'ts, 'rk) MemoryHistoryStore \<Rightarrow> 'pk \<Rightarrow> ('ts, 'rk) RetainedManifestRecord list" where
  "mhs_content s publisher = (case mhs_map s publisher of None \<Rightarrow> [] | Some rs \<Rightarrow> rs)"

definition mhs_load_history ::
  "'pk \<Rightarrow> (('pk, 'ts, 'rk) MemoryHistoryStore, StoreError, ('ts, 'rk) PublisherHistory) action"
where
  "mhs_load_history publisher s =
     (let records = (case mhs_map s publisher of None \<Rightarrow> [] | Some rs \<Rightarrow> rs)
      in (Inr (from_records_newest_first records), s))"

definition mhs_append_record ::
  "'pk \<Rightarrow> ('ts, 'rk) RetainedManifestRecord \<Rightarrow>
   (('pk, 'ts, 'rk) MemoryHistoryStore, StoreError, unit) action" where
  "mhs_append_record publisher rec s =
     (let records = (case mhs_map s publisher of None \<Rightarrow> [] | Some rs \<Rightarrow> rs)
      in (Inr (), s\<lparr>mhs_map := (mhs_map s)(publisher \<mapsto> rec # records)\<rparr>))"

interpretation mhs: history_store "\<lambda>_. True" "\<lambda>_. True" mhs_load_history mhs_append_record mhs_content
  by unfold_locales
    (auto simp: mhs_load_history_def mhs_append_record_def mhs_content_def Let_def fun_eq_iff)

interpretation mhs_ordered: ordered_history_store "\<lambda>_. True" "\<lambda>_. True" mhs_load_history
  mhs_append_record mhs_content
  by unfold_locales

end
