(* ===== verification/File_System.thy ===== *)
theory File_System
  imports Prelude
begin

text \<open>
  The operating system as the store crate uses it: the calls of \<open>std::fs\<close> and
  \<open>std::path\<close>, and \<open>getrandom\<close>. The world is a map from paths to files, the directories
  created so far, a counter of the system calls made, and an environment that decides, for
  each call by its number, whether it fails (with an error other than \<open>NotFound\<close>), how much
  of a failing write reached the disk, and which random bytes come back.

  Since the environment may let every call from some point on fail, a crash is one of the
  environments: nothing after that point has an effect (but for a prefix of the data of one
  write). A theorem for all environments therefore covers a crash between any two calls.

  A path is the list of its components. The first component may be a whole base path;
  \<open>path_display\<close> joins the components with a slash.
\<close>

section \<open>Paths\<close>

type_synonym path = "ustring list"

definition path_join :: "path \<Rightarrow> ustring \<Rightarrow> path" where
  "path_join base name = base @ [name]"

definition path_parent :: "path \<Rightarrow> path option" where
  "path_parent p = (if p = [] then None else Some (butlast p))"

fun path_display :: "path \<Rightarrow> ustring" where
  "path_display [] = []"
| "path_display [c] = c"
| "path_display (c # cs) = c @ [47] @ path_display cs"

text \<open>
  \<open>Path::file_stem\<close> and \<open>Path::extension\<close> of one file name: the parts before and after the
  last dot, where a dot at the first place does not count.
\<close>

definition name_split :: "ustring \<Rightarrow> ustring \<times> ustring option" where
  "name_split name =
     (let ext = rev (takeWhile (\<lambda>c. c \<noteq> 46) (rev name));
          front = rev (dropWhile (\<lambda>c. c \<noteq> 46) (rev name))
      in if length front \<le> 1 then (name, None) else (butlast front, Some ext))"

definition with_extension :: "ustring \<Rightarrow> path \<Rightarrow> path" where
  "with_extension ext p =
     (if p = [] then p else butlast p @ [fst (name_split (last p)) @ [46] @ ext])"

definition path_extension :: "path \<Rightarrow> ustring option" where
  "path_extension p = (if p = [] then None else snd (name_split (last p)))"

lemma name_split_append:
  assumes "46 \<notin> set ext" and "stem \<noteq> []"
  shows "name_split (stem @ 46 # ext) = (stem, Some ext)"
proof -
  have "takeWhile (\<lambda>c. c \<noteq> 46) (rev (stem @ 46 # ext)) = rev ext"
    using assms(1) by (auto simp: takeWhile_append takeWhile_eq_all_conv)
  moreover have "dropWhile (\<lambda>c. c \<noteq> 46) (rev (stem @ 46 # ext)) = 46 # rev stem"
    using assms(1) by (auto simp: dropWhile_append3)
  ultimately show ?thesis
    using assms(2) by (simp add: name_split_def Let_def Suc_le_eq)
qed

lemma name_split_stem_nonempty: "name \<noteq> [] \<Longrightarrow> fst (name_split name) \<noteq> []"
proof -
  have "Suc 0 < length front \<Longrightarrow> tl front \<noteq> []" for front :: ustring
    by (cases front) auto
  moreover assume "name \<noteq> []"
  ultimately show ?thesis by (simp add: name_split_def Let_def not_le)
qed

lemma with_extension_extension:
  assumes "46 \<notin> set ext" and "p \<noteq> []" and "last p \<noteq> []"
  shows "path_extension (with_extension ext p) = Some ext"
  using assms name_split_append [OF assms(1) name_split_stem_nonempty [OF assms(3)]]
  by (simp add: path_extension_def with_extension_def)

section \<open>Files, environments, worlds\<close>

datatype fs_file = File (contents: bytes) (mode: nat)

datatype io_error = NotFound | IoError ustring

fun io_display :: "io_error \<Rightarrow> ustring" where
  "io_display NotFound = lit ''No such file or directory (os error 2)''"
| "io_display (IoError e) = e"

record os_env =
  os_fault :: "nat \<Rightarrow> ustring option"
  os_partial :: "nat \<Rightarrow> nat"
  os_random :: "nat \<Rightarrow> nat \<Rightarrow> ustring + bytes"

record world =
  w_env :: os_env
  w_files :: "path \<Rightarrow> fs_file option"
  w_dirs :: "path set"
  w_tick :: nat

text \<open>One system call: it takes a number, and does its work unless the environment fails it.\<close>

definition syscall ::
  "(world, io_error, 'a) action \<Rightarrow> (world, io_error, 'a) action" where
  "syscall body w =
     (let w' = w\<lparr>w_tick := Suc (w_tick w)\<rparr>
      in case os_fault (w_env w) (w_tick w) of
           Some e \<Rightarrow> (Inl (IoError e), w')
         | None \<Rightarrow> body w')"

section \<open>The calls\<close>

definition fs_read :: "path \<Rightarrow> (world, io_error, bytes) action" where
  "fs_read p = syscall (\<lambda>w.
     case w_files w p of None \<Rightarrow> (Inl NotFound, w) | Some f \<Rightarrow> (Inr (contents f), w))"

definition fs_create_dir_all :: "path \<Rightarrow> (world, io_error, unit) action" where
  "fs_create_dir_all p = syscall (\<lambda>w.
     (Inr (), w\<lparr>w_dirs := w_dirs w \<union> set (map (\<lambda>n. take n p) [0 ..< Suc (length p)])\<rparr>))"

text \<open>\<open>OpenOptions::new().write(true).create_new(true).mode(m).open(p)\<close>\<close>

definition fs_create_new :: "path \<Rightarrow> nat \<Rightarrow> (world, io_error, unit) action" where
  "fs_create_new p m = syscall (\<lambda>w.
     case w_files w p of
       Some _ \<Rightarrow> (Inl (IoError (lit ''File exists (os error 17)'')), w)
     | None \<Rightarrow> (Inr (), w\<lparr>w_files := (w_files w)(p \<mapsto> File [] m)\<rparr>))"

definition append_to :: "path \<Rightarrow> bytes \<Rightarrow> world \<Rightarrow> world" where
  "append_to p data w =
     (case w_files w p of
        None \<Rightarrow> w
      | Some f \<Rightarrow> w\<lparr>w_files := (w_files w)(p \<mapsto> File (contents f @ data) (mode f))\<rparr>)"

text \<open>\<open>Write::write_all\<close> on the handle of \<open>p\<close>; a failing call may have written a prefix.\<close>

definition fs_write_all :: "path \<Rightarrow> bytes \<Rightarrow> (world, io_error, unit) action" where
  "fs_write_all p data w =
     (case syscall (act_return ()) w of
        (Inl e, w') \<Rightarrow> (Inl e, append_to p (take (os_partial (w_env w) (w_tick w)) data) w')
      | (Inr x, w') \<Rightarrow> (Inr (), append_to p data w'))"

definition fs_sync_all :: "path \<Rightarrow> (world, io_error, unit) action" where
  "fs_sync_all p = syscall (\<lambda>w. (Inr (), w))"

definition fs_rename :: "path \<Rightarrow> path \<Rightarrow> (world, io_error, unit) action" where
  "fs_rename a b = syscall (\<lambda>w.
     case w_files w a of
       None \<Rightarrow> (Inl NotFound, w)
     | Some f \<Rightarrow> (Inr (), w\<lparr>w_files := (w_files w)(a := None, b \<mapsto> f)\<rparr>))"

definition fs_remove_file :: "path \<Rightarrow> (world, io_error, unit) action" where
  "fs_remove_file p = syscall (\<lambda>w.
     case w_files w p of
       None \<Rightarrow> (Inl NotFound, w)
     | Some f \<Rightarrow> (Inr (), w\<lparr>w_files := (w_files w)(p := None)\<rparr>))"

definition getrandom :: "nat \<Rightarrow> (world, ustring, bytes) action" where
  "getrandom n w =
     (os_random (w_env w) (w_tick w) n, w\<lparr>w_tick := Suc (w_tick w)\<rparr>)"

section \<open>What a sequence of calls may touch\<close>

text \<open>
  \<open>touches T w w'\<close>: going from \<open>w\<close> to \<open>w'\<close> changed at most the files in \<open>T\<close>, and not the
  environment.
\<close>

definition touches :: "path set \<Rightarrow> world \<Rightarrow> world \<Rightarrow> bool" where
  "touches T w w' \<longleftrightarrow> w_env w' = w_env w \<and> (\<forall>p. p \<notin> T \<longrightarrow> w_files w' p = w_files w p)"

lemma touches_refl [simp, intro]: "touches T w w"
  by (simp add: touches_def)

lemma touches_trans: "touches T w w1 \<Longrightarrow> touches T w1 w2 \<Longrightarrow> touches T w w2"
  by (simp add: touches_def)

lemma touches_mono: "touches S w w' \<Longrightarrow> S \<subseteq> T \<Longrightarrow> touches T w w'"
  by (auto simp: touches_def)

lemma touchesD: "touches T w w' \<Longrightarrow> p \<notin> T \<Longrightarrow> w_files w' p = w_files w p"
  by (simp add: touches_def)

lemma touches_env: "touches T w w' \<Longrightarrow> w_env w' = w_env w"
  by (simp add: touches_def)

lemma syscall_touches:
  assumes "\<And>w r w'. body w = (r, w') \<Longrightarrow> touches T w w'" and "syscall body w = (r, w')"
  shows "touches T w w'"
proof -
  have "touches T w (w\<lparr>w_tick := Suc (w_tick w)\<rparr>)" by (simp add: touches_def)
  with assms show ?thesis
    by (auto simp: syscall_def Let_def split: option.splits intro: touches_trans)
qed

lemma calls_touch:
  "fs_read p w = (r1, w') \<Longrightarrow> touches {} w w'"
  "fs_create_dir_all p w = (r2, w') \<Longrightarrow> touches {} w w'"
  "fs_create_new p m w = (r2, w') \<Longrightarrow> touches {p} w w'"
  "fs_sync_all p w = (r2, w') \<Longrightarrow> touches {} w w'"
  "fs_rename p q w = (r2, w') \<Longrightarrow> touches {p, q} w w'"
  "fs_remove_file p w = (r2, w') \<Longrightarrow> touches {p} w w'"
  "getrandom n w = (r3, w') \<Longrightarrow> touches {} w w'"
  unfolding fs_read_def fs_create_dir_all_def fs_create_new_def fs_sync_all_def fs_rename_def
    fs_remove_file_def getrandom_def
  by (erule syscall_touches [rotated], force simp: touches_def split: option.splits)+
    (force simp: touches_def)

lemma append_to_touches: "touches {p} w (append_to p data w)"
  by (auto simp: append_to_def touches_def split: option.splits)

lemma fs_write_all_touches: "fs_write_all p data w = (r, w') \<Longrightarrow> touches {p} w w'"
  using append_to_touches [of p "w\<lparr>w_tick := Suc (w_tick w)\<rparr>"]
  by (force simp: fs_write_all_def syscall_def Let_def touches_def split: option.splits)

section \<open>What the calls return\<close>

lemma fs_read_result:
  "fs_read p w = (Inr b, w') \<Longrightarrow> \<exists>f. w_files w p = Some f \<and> b = contents f"
  "fs_read p w = (Inl NotFound, w') \<Longrightarrow> w_files w p = None"
  by (auto simp: fs_read_def syscall_def Let_def split: option.splits)

lemma fs_create_new_Ok:
  "fs_create_new p m w = (Inr u, w') \<Longrightarrow>
     w_files w p = None \<and> w_files w' = (w_files w)(p \<mapsto> File [] m)"
  by (auto simp: fs_create_new_def syscall_def Let_def split: option.splits)

lemma fs_write_all_Ok:
  "fs_write_all p data w = (Inr u, w') \<Longrightarrow> w_files w p = Some f \<Longrightarrow>
     w_files w' = (w_files w)(p \<mapsto> File (contents f @ data) (mode f))"
  by (auto simp: fs_write_all_def syscall_def Let_def append_to_def split: option.splits)

lemma fs_sync_all_files: "fs_sync_all p w = (r, w') \<Longrightarrow> w_files w' = w_files w"
  by (auto simp: fs_sync_all_def syscall_def Let_def split: option.splits)

lemma fs_rename_Ok:
  "fs_rename a b w = (Inr u, w') \<Longrightarrow> w_files w a = Some f \<Longrightarrow>
     w_files w' = (w_files w)(a := None, b \<mapsto> f)"
  by (auto simp: fs_rename_def syscall_def Let_def split: option.splits)

lemma fs_rename_Err: "fs_rename a b w = (Inl e, w') \<Longrightarrow> w_files w' = w_files w"
  by (auto simp: fs_rename_def syscall_def Let_def split: option.splits)

lemma fs_create_new_Err: "fs_create_new p m w = (Inl e, w') \<Longrightarrow> w_files w' = w_files w"
  by (auto simp: fs_create_new_def syscall_def Let_def split: option.splits)

end
