(* ===== verification/Protect.thy ===== *)
theory Protect
  imports Stores File_System
begin

text \<open>
  At-rest protection, \<open>crates/entangled-client-store/src/protect.rs\<close>: the integrity envelope
  (HMAC-SHA256 over the payload) and the AEAD envelope of the optional \<open>encrypted\<close> feature,
  with \<open>seal\<close> and \<open>open\<close> of both modes. Cryptography, base64, hex and JSON are third-party
  crates: they are the fields of \<open>protect_deps\<close>, and what the code relies on is
  \<open>protect_deps_ok\<close>.
\<close>

section \<open>Codecs and the third-party functions\<close>

text \<open>\<open>serde_json::to_vec\<close> and \<open>from_slice\<close> at one type; an error is its rendering.\<close>

record 'a codec =
  to_vec :: "'a \<Rightarrow> ustring + bytes"
  from_slice :: "bytes \<Rightarrow> ustring + 'a"

definition codec_ok :: "'a codec \<Rightarrow> bool" where
  "codec_ok c \<longleftrightarrow> (\<forall>x b. to_vec c x = Inr b \<longrightarrow> from_slice c b = Inr x)"

lemma codec_okD: "codec_ok c \<Longrightarrow> to_vec c x = Inr b \<Longrightarrow> from_slice c b = Inr x"
  by (simp add: codec_ok_def)

record IntegrityEnvelope =
  ie_v :: nat
  ie_payload_b64 :: ustring
  ie_mac_b64 :: ustring

record AeadEnvelope =
  ae_v :: nat
  ae_nonce_b64 :: ustring
  ae_ct_b64 :: ustring

definition ENVELOPE_V :: nat where "ENVELOPE_V = 1"

definition AEAD_V :: nat where "AEAD_V = 1"

text \<open>
  \<open>hmac_tag\<close> is \<open>new_from_slice\<close>, \<open>update\<close>, \<open>finalize\<close>; \<open>hmac_verify\<close> is the same with
  \<open>verify_slice\<close>, whose result is the Boolean. \<open>aead_encrypt\<close> and \<open>aead_decrypt\<close> take key and
  nonce; \<open>argon2id\<close> is \<open>hash_password_into\<close> a 32-byte key with the default parameters.
\<close>

record protect_deps =
  hex_encode :: "bytes \<Rightarrow> ustring"
  hex_decode :: "ustring \<Rightarrow> ustring + bytes"
  b64_encode :: "bytes \<Rightarrow> ustring"
  b64_decode :: "ustring \<Rightarrow> ustring + bytes"
  hmac_tag :: "bytes \<Rightarrow> bytes \<Rightarrow> ustring + bytes"
  hmac_verify :: "bytes \<Rightarrow> bytes \<Rightarrow> bytes \<Rightarrow> ustring + bool"
  aead_encrypt :: "bytes \<Rightarrow> bytes \<Rightarrow> bytes \<Rightarrow> bytes option"
  aead_decrypt :: "bytes \<Rightarrow> bytes \<Rightarrow> bytes \<Rightarrow> bytes option"
  argon2id :: "ustring \<Rightarrow> bytes \<Rightarrow> ustring + bytes"
  envelope_codec :: "IntegrityEnvelope codec"
  aead_codec :: "AeadEnvelope codec"

text \<open>
  What the code relies on: text encodings and JSON decode what they encode, hexadecimal
  text has no dot (lowercase hex digits), a computed tag verifies and a tag that is not the
  computed one does not (\<open>verify_slice\<close> compares with the computed tag), and decryption
  inverts encryption.
\<close>

definition protect_deps_ok :: "('z) protect_deps_scheme \<Rightarrow> bool" where
  "protect_deps_ok D \<longleftrightarrow>
     (\<forall>b. hex_decode D (hex_encode D b) = Inr b) \<and>
     (\<forall>b. 46 \<notin> set (hex_encode D b)) \<and>
     (\<forall>b. b64_decode D (b64_encode D b) = Inr b) \<and>
     (\<forall>k p t. hmac_verify D k p t = (case hmac_tag D k p of Inl e \<Rightarrow> Inl e | Inr t' \<Rightarrow> Inr (t = t'))) \<and>
     (\<forall>k n p c. aead_encrypt D k n p = Some c \<longrightarrow> aead_decrypt D k n c = Some p) \<and>
     codec_ok (envelope_codec D) \<and> codec_ok (aead_codec D)"

lemma protect_deps_okD:
  assumes "protect_deps_ok D"
  shows "hex_decode D (hex_encode D b) = Inr b" "46 \<notin> set (hex_encode D b)"
    "b64_decode D (b64_encode D b) = Inr b"
    "hmac_verify D k p t = (case hmac_tag D k p of Inl e \<Rightarrow> Inl e | Inr t' \<Rightarrow> Inr (t = t'))"
    "aead_encrypt D k n p = Some c \<Longrightarrow> aead_decrypt D k n c = Some p"
    "codec_ok (envelope_codec D)" "codec_ok (aead_codec D)"
  using assms by (simp_all add: protect_deps_ok_def)

section \<open>Modes\<close>

datatype Protection = Integrity | Encrypted

datatype ProtectionTag = Integrity_tag | Encrypted_tag

fun protection_tag :: "Protection \<Rightarrow> ProtectionTag" where
  "protection_tag Integrity = Integrity_tag"
| "protection_tag Encrypted = Encrypted_tag"

datatype Protector = Integrity_protector (key: bytes) | Encrypted_protector (key: bytes)

section \<open>Decimal rendering, for the messages\<close>

fun decimal :: "nat \<Rightarrow> ustring" where
  "decimal n = (if n < 10 then [48 + n] else decimal (n div 10) @ [48 + n mod 10])"

declare decimal.simps [simp del]

section \<open>Seal and open\<close>

definition store_err :: "string \<Rightarrow> ustring \<Rightarrow> StoreError" where
  "store_err msg e = StoreError (lit msg @ e)"

definition aead_seal ::
  "'z protect_deps_scheme \<Rightarrow> bytes \<Rightarrow> bytes \<Rightarrow> (world, StoreError, bytes) action" where
  "aead_seal D k payload =
     act_bind (act_map_err (store_err ''rng: '') (getrandom 24)) (\<lambda>nonce.
       case aead_encrypt D k nonce payload of
         None \<Rightarrow> act_fail (store_err ''encrypt failed'' [])
       | Some ct \<Rightarrow> act_lift (map_err (store_err ''encode aead envelope: '')
           (to_vec (aead_codec D)
             \<lparr>ae_v = AEAD_V, ae_nonce_b64 = b64_encode D nonce, ae_ct_b64 = b64_encode D ct\<rparr>)))"

definition aead_open :: "'z protect_deps_scheme \<Rightarrow> bytes \<Rightarrow> bytes \<Rightarrow> StoreError + bytes" where
  "aead_open D k on_disk =
     result_bind (map_err (store_err ''decode aead envelope: '') (from_slice (aead_codec D) on_disk))
     (\<lambda>e. if ae_v e \<noteq> AEAD_V
          then Inl (store_err ''unsupported aead envelope version '' (decimal (ae_v e)))
          else result_bind (map_err (store_err ''nonce base64: '') (b64_decode D (ae_nonce_b64 e)))
     (\<lambda>nonce. result_bind (map_err (store_err ''ciphertext base64: '') (b64_decode D (ae_ct_b64 e)))
     (\<lambda>ct. ok_or (store_err ''decrypt failed (wrong passphrase or store tampered?)'' [])
             (aead_decrypt D k nonce ct))))"

fun seal ::
  "'z protect_deps_scheme \<Rightarrow> Protector \<Rightarrow> bytes \<Rightarrow> (world, StoreError, bytes) action" where
  "seal D (Integrity_protector k) payload =
     act_lift (result_bind (map_err (store_err ''hmac key: '') (hmac_tag D k payload)) (\<lambda>tag.
       map_err (store_err ''encode envelope: '')
         (to_vec (envelope_codec D)
           \<lparr>ie_v = ENVELOPE_V, ie_payload_b64 = b64_encode D payload,
            ie_mac_b64 = b64_encode D tag\<rparr>)))"
| "seal D (Encrypted_protector k) payload = aead_seal D k payload"

fun open_sealed :: "'z protect_deps_scheme \<Rightarrow> Protector \<Rightarrow> bytes \<Rightarrow> StoreError + bytes" where
  "open_sealed D (Integrity_protector k) on_disk =
     result_bind (map_err (store_err ''decode envelope: '') (from_slice (envelope_codec D) on_disk))
     (\<lambda>e. if ie_v e \<noteq> ENVELOPE_V
          then Inl (store_err ''unsupported integrity envelope version '' (decimal (ie_v e)))
          else result_bind (map_err (store_err ''payload base64: '') (b64_decode D (ie_payload_b64 e)))
     (\<lambda>payload. result_bind (map_err (store_err ''mac base64: '') (b64_decode D (ie_mac_b64 e)))
     (\<lambda>tag. result_bind (map_err (store_err ''hmac key: '') (hmac_verify D k payload tag))
     (\<lambda>valid. if valid then Inr payload
              else Inl (store_err ''integrity check failed (store tampered?)'' [])))))"
| "open_sealed D (Encrypted_protector k) on_disk = aead_open D k on_disk"

definition derive_key :: "'z protect_deps_scheme \<Rightarrow> ustring \<Rightarrow> bytes \<Rightarrow> StoreError + bytes" where
  "derive_key D passphrase salt =
     map_err (store_err ''argon2: '') (argon2id D passphrase salt)"

definition generate_integrity_key :: "(world, StoreError, bytes) action" where
  "generate_integrity_key = act_map_err (store_err ''rng: '') (getrandom 32)"

section \<open>Round trip and authenticity\<close>

lemma getrandom_files: "getrandom n w = (r, w') \<Longrightarrow> w_files w' = w_files w \<and> w_env w' = w_env w"
  by (auto simp: getrandom_def)

lemma seal_frame: "seal D p payload w = (r, w') \<Longrightarrow> touches {} w w'"
  by (cases p)
    (auto simp: aead_seal_def act_bind_def act_map_err_def getrandom_def touches_def
      split: option.splits sum.splits)

lemma seal_open:
  assumes "protect_deps_ok D" and "seal D p payload w = (Inr b, w')"
  shows "open_sealed D p b = Inr payload"
proof (cases p)
  case (Integrity_protector k)
  with assms(2) obtain tag where tag: "hmac_tag D k payload = Inr tag"
    and b: "to_vec (envelope_codec D) \<lparr>ie_v = ENVELOPE_V, ie_payload_b64 = b64_encode D payload,
        ie_mac_b64 = b64_encode D tag\<rparr> = Inr b"
    by (auto simp: result_inv)
  note laws = protect_deps_okD [OF assms(1)]
  from codec_okD [OF laws(6) b] show ?thesis
    by (simp add: Integrity_protector laws(3) laws(4) tag)
next
  case (Encrypted_protector k)
  with assms(2) obtain nonce ct where ct: "aead_encrypt D k nonce payload = Some ct"
    and b: "to_vec (aead_codec D) \<lparr>ae_v = AEAD_V, ae_nonce_b64 = b64_encode D nonce,
        ae_ct_b64 = b64_encode D ct\<rparr> = Inr b"
    by (auto simp: aead_seal_def action_elims result_inv split: option.splits)
  note laws = protect_deps_okD [OF assms(1)]
  from codec_okD [OF laws(7) b] show ?thesis
    by (simp add: Encrypted_protector aead_open_def laws(3) laws(5) [OF ct])
qed

text \<open>
  Bytes that open in Integrity mode carry a payload and its own tag under the store's key:
  nothing else is accepted.
\<close>

lemma open_integrity_authentic:
  assumes "protect_deps_ok D" and "open_sealed D (Integrity_protector k) b = Inr payload"
  obtains e tag where "from_slice (envelope_codec D) b = Inr e" "ie_v e = ENVELOPE_V"
    "b64_decode D (ie_payload_b64 e) = Inr payload" "b64_decode D (ie_mac_b64 e) = Inr tag"
    "hmac_tag D k payload = Inr tag"
proof -
  from assms(2) obtain e tag where e: "from_slice (envelope_codec D) b = Inr e"
    "ie_v e = ENVELOPE_V" "b64_decode D (ie_payload_b64 e) = Inr payload"
    "b64_decode D (ie_mac_b64 e) = Inr tag" "hmac_verify D k payload tag = Inr True"
    by (auto simp: result_inv split: if_splits)
  from e(5) have "hmac_tag D k payload = Inr tag"
    by (simp add: protect_deps_okD(4) [OF assms(1)] split: sum.splits)
  with e(1-4) show thesis by (rule that)
qed

end
