(* ===== verification/Store_Root.thy ===== *)
theory Store_Root
  imports Protect
begin

text \<open>
  The store root, \<open>crates/entangled-client-store/src/root.rs\<close>: the metadata file, opening a
  store in either mode, the per-record paths, protected reads and writes, and the atomic
  write (temporary file, \<open>fsync\<close>, rename). The file system is the one of \<open>File_System\<close>, so
  each call may fail at any point.
\<close>

section \<open>Metadata and the root\<close>

record StoreMeta =
  meta_v :: nat
  meta_protection :: ProtectionTag
  meta_salt_b64 :: "ustring option"

definition META_V :: nat where "META_V = 1"

record root_deps = protect_deps +
  meta_codec :: "StoreMeta codec"

definition root_deps_ok :: "'z root_deps_scheme \<Rightarrow> bool" where
  "root_deps_ok D \<longleftrightarrow> protect_deps_ok D \<and> codec_ok (meta_codec D)"

record StoreRoot =
  root_base :: path
  root_protector :: Protector

section \<open>Reading and writing files\<close>

definition read_file_opt :: "path \<Rightarrow> (world, StoreError, bytes option) action" where
  "read_file_opt p w =
     (case fs_read p w of
        (Inr bytes, w') \<Rightarrow> (Inr (Some bytes), w')
      | (Inl NotFound, w') \<Rightarrow> (Inr None, w')
      | (Inl e, w') \<Rightarrow>
          (Inl (StoreError (lit ''read '' @ path_display p @ lit '': '' @ io_display e)), w'))"

text \<open>The permission bits \<open>0o600\<close>.\<close>

definition TMP_MODE :: nat where "TMP_MODE = 6 * 8 ^ 2"

definition tmp_name :: "'z protect_deps_scheme \<Rightarrow> bytes \<Rightarrow> path \<Rightarrow> path" where
  "tmp_name D nonce p = with_extension (lit ''tmp-'' @ hex_encode D nonce) p"

text \<open>The closure of \<open>write_atomic\<close>: create, write, sync, rename, stopping at a failure.\<close>

definition write_via_tmp :: "path \<Rightarrow> path \<Rightarrow> bytes \<Rightarrow> (world, StoreError, unit) action" where
  "write_via_tmp tmp p data =
     act_bind (act_map_err (\<lambda>e. StoreError (lit ''create temp '' @ path_display tmp @ lit '': ''
         @ io_display e)) (fs_create_new tmp TMP_MODE)) (\<lambda>_.
     act_bind (act_map_err (\<lambda>e. store_err ''write temp: '' (io_display e))
       (fs_write_all tmp data)) (\<lambda>_.
     act_bind (act_map_err (\<lambda>e. store_err ''sync temp: '' (io_display e)) (fs_sync_all tmp)) (\<lambda>_.
     act_map_err (\<lambda>e. StoreError (lit ''rename into '' @ path_display p @ lit '': ''
         @ io_display e)) (fs_rename tmp p))))"

definition write_atomic ::
  "'z protect_deps_scheme \<Rightarrow> path \<Rightarrow> bytes \<Rightarrow> (world, StoreError, unit) action" where
  "write_atomic D p data =
     act_bind (act_lift (ok_or (StoreError (lit ''path has no parent: '' @ path_display p))
       (path_parent p))) (\<lambda>dir.
     act_bind (act_map_err (\<lambda>e. StoreError (lit ''create '' @ path_display dir @ lit '': ''
         @ io_display e)) (fs_create_dir_all dir)) (\<lambda>_.
     act_bind (act_map_err (store_err ''rng: '') (getrandom 8)) (\<lambda>nonce w.
       let tmp = tmp_name D nonce p
       in case write_via_tmp tmp p data w of
            (Inl e, w') \<Rightarrow> (Inl e, snd (fs_remove_file tmp w'))
          | (Inr u, w') \<Rightarrow> (Inr u, w'))))"

definition write_protected ::
  "'z protect_deps_scheme \<Rightarrow> StoreRoot \<Rightarrow> path \<Rightarrow> bytes \<Rightarrow> (world, StoreError, unit) action" where
  "write_protected D root p payload =
     act_bind (seal D (root_protector root) payload) (\<lambda>sealed. write_atomic D p sealed)"

definition read_protected ::
  "'z protect_deps_scheme \<Rightarrow> StoreRoot \<Rightarrow> path \<Rightarrow> (world, StoreError, bytes option) action" where
  "read_protected D root p =
     act_bind (read_file_opt p) (\<lambda>x. case x of
         None \<Rightarrow> act_return None
       | Some on_disk \<Rightarrow>
           act_bind (act_lift (open_sealed D (root_protector root) on_disk))
             (\<lambda>payload. act_return (Some payload)))"

definition remove_if_present :: "path \<Rightarrow> (world, StoreError, unit) action" where
  "remove_if_present p w =
     (case fs_remove_file p w of
        (Inr u, w') \<Rightarrow> (Inr u, w')
      | (Inl NotFound, w') \<Rightarrow> (Inr (), w')
      | (Inl e, w') \<Rightarrow>
          (Inl (StoreError (lit ''remove '' @ path_display p @ lit '': '' @ io_display e)), w'))"

section \<open>Opening a store\<close>

text \<open>A \<open>for\<close> loop whose body may fail.\<close>

fun act_for :: "'a list \<Rightarrow> ('a \<Rightarrow> ('w, 'e, unit) action) \<Rightarrow> ('w, 'e, unit) action" where
  "act_for [] f = act_return ()"
| "act_for (x # xs) f = act_bind (f x) (\<lambda>_. act_for xs f)"

definition ensure_dirs :: "path \<Rightarrow> (world, StoreError, unit) action" where
  "ensure_dirs base =
     act_for [lit '''', lit ''identities'', lit ''history''] (\<lambda>sub.
       let dir = (if sub = [] then base else path_join base sub)
       in act_map_err (\<lambda>e. StoreError (lit ''create '' @ path_display dir @ lit '': ''
            @ io_display e)) (fs_create_dir_all dir))"

definition meta_path :: "path \<Rightarrow> path" where
  "meta_path base = path_join base (lit ''store-meta.json'')"

definition key_path :: "path \<Rightarrow> path" where
  "key_path base = path_join base (lit ''store-key'')"

definition write_meta ::
  "'z root_deps_scheme \<Rightarrow> path \<Rightarrow> StoreMeta \<Rightarrow> (world, StoreError, unit) action" where
  "write_meta D base meta =
     act_bind (act_lift (map_err (store_err ''encode meta: '') (to_vec (meta_codec D) meta)))
       (\<lambda>bytes. write_atomic D (meta_path base) bytes)"

definition read_meta ::
  "'z root_deps_scheme \<Rightarrow> path \<Rightarrow> (world, StoreError, StoreMeta option) action" where
  "read_meta D base =
     act_bind (read_file_opt (meta_path base)) (\<lambda>x. case x of
         None \<Rightarrow> act_return None
       | Some bytes \<Rightarrow> act_bind (act_lift (map_err (store_err ''decode meta: '')
             (from_slice (meta_codec D) bytes))) (\<lambda>meta. act_return (Some meta)))"

definition mode_error :: StoreError where
  "mode_error = StoreError (lit ''store was initialized in a different protection mode'')"

definition check_mode ::
  "'z root_deps_scheme \<Rightarrow> path \<Rightarrow> ProtectionTag \<Rightarrow> (world, StoreError, unit) action" where
  "check_mode D base expected =
     act_bind (read_meta D base) (\<lambda>x. case x of
         Some meta \<Rightarrow> if meta_protection meta \<noteq> expected then act_fail mode_error
                      else act_return ()
       | None \<Rightarrow> act_return ())"

definition open_integrity ::
  "'z root_deps_scheme \<Rightarrow> path \<Rightarrow> (world, StoreError, StoreRoot) action" where
  "open_integrity D base =
     act_bind (ensure_dirs base) (\<lambda>_.
     act_bind (act_bind (read_file_opt (key_path base)) (\<lambda>x. case x of
         Some bytes \<Rightarrow> act_return bytes
       | None \<Rightarrow>
           act_bind generate_integrity_key (\<lambda>k.
           act_bind (write_atomic D (key_path base) k) (\<lambda>_.
           act_bind (write_meta D base \<lparr>meta_v = META_V, meta_protection = Integrity_tag,
                                       meta_salt_b64 = None\<rparr>) (\<lambda>_.
           act_return k))))) (\<lambda>k.
     act_bind (check_mode D base Integrity_tag) (\<lambda>_.
     act_return \<lparr>root_base = base, root_protector = Integrity_protector k\<rparr>)))"

definition open_encrypted ::
  "'z root_deps_scheme \<Rightarrow> path \<Rightarrow> ustring \<Rightarrow> (world, StoreError, StoreRoot) action" where
  "open_encrypted D base passphrase =
     act_bind (ensure_dirs base) (\<lambda>_.
     act_bind (act_bind (read_meta D base) (\<lambda>x. case x of
         Some meta \<Rightarrow>
           if meta_protection meta \<noteq> Encrypted_tag then act_fail mode_error
           else act_bind (act_lift (ok_or (StoreError (lit ''encrypted store missing salt''))
                  (meta_salt_b64 meta))) (\<lambda>s.
                act_lift (map_err (store_err ''salt base64: '') (b64_decode D s)))
       | None \<Rightarrow>
           act_bind (act_map_err (store_err ''rng: '') (getrandom 16)) (\<lambda>salt.
           act_bind (write_meta D base \<lparr>meta_v = META_V, meta_protection = Encrypted_tag,
                       meta_salt_b64 = Some (b64_encode D salt)\<rparr>) (\<lambda>_.
           act_return salt)))) (\<lambda>salt.
     act_bind (act_lift (derive_key D passphrase salt)) (\<lambda>k.
     act_return \<lparr>root_base = base, root_protector = Encrypted_protector k\<rparr>)))"

text \<open>\<open>feature_encrypted\<close>: whether the crate is built with the \<open>encrypted\<close> feature.\<close>

fun root_open ::
  "'z root_deps_scheme \<Rightarrow> bool \<Rightarrow> path \<Rightarrow> Protection \<Rightarrow> ustring option \<Rightarrow>
   (world, StoreError, StoreRoot) action" where
  "root_open D feature_encrypted base Integrity passphrase = open_integrity D base"
| "root_open D feature_encrypted base Encrypted passphrase =
     (if feature_encrypted then
        act_bind (act_lift (ok_or (StoreError (lit ''encrypted store requires a passphrase''))
          passphrase)) (\<lambda>pass. open_encrypted D base pass)
      else act_fail (StoreError
        (lit ''encrypted store mode requires the `encrypted` feature'')))"

section \<open>Paths of records\<close>

definition identity_path :: "('on \<Rightarrow> ustring) \<Rightarrow> StoreRoot \<Rightarrow> 'on \<Rightarrow> path" where
  "identity_path display root site =
     path_join (path_join (root_base root) (lit ''identities'')) (display site @ lit ''.json'')"

definition history_path :: "('pk \<Rightarrow> ustring) \<Rightarrow> StoreRoot \<Rightarrow> 'pk \<Rightarrow> path" where
  "history_path display root publisher =
     path_join (path_join (root_base root) (lit ''history'')) (display publisher @ lit ''.json'')"

section \<open>Atomic writes\<close>

text \<open>
  A path that no temporary file of the store can have: its extension does not start with
  \<open>tmp-\<close>.
\<close>

definition not_tmp :: "path \<Rightarrow> bool" where
  "not_tmp p \<longleftrightarrow> (\<forall>x. path_extension p \<noteq> Some (lit ''tmp-'' @ x))"

definition tmp_names :: "'z protect_deps_scheme \<Rightarrow> path \<Rightarrow> path set" where
  "tmp_names D p = range (\<lambda>nonce. tmp_name D nonce p)"

lemma tmp_name_not_store_path:
  assumes "protect_deps_ok D" and "p \<noteq> []" and "last p \<noteq> []" and "not_tmp q"
  shows "q \<notin> tmp_names D p"
proof
  assume "q \<in> tmp_names D p"
  then obtain nonce where q: "q = tmp_name D nonce p" by (auto simp: tmp_names_def)
  have "46 \<notin> set (lit ''tmp-'' @ hex_encode D nonce)"
    using protect_deps_okD(2) [OF assms(1)] by (simp add: lit_def)
  from with_extension_extension [OF this assms(2,3)] q assms(4) show False
    by (auto simp: not_tmp_def tmp_name_def)
qed

lemma write_via_tmp_Ok:
  assumes "write_via_tmp tmp p data w = (Inr u, w')"
  shows "w_files w' = (w_files w)(tmp := None, p \<mapsto> File data TMP_MODE)"
proof -
  from assms obtain w1 w2 w3 where c: "fs_create_new tmp TMP_MODE w = (Inr (), w1)"
    and wr: "fs_write_all tmp data w1 = (Inr (), w2)" and sy: "fs_sync_all tmp w2 = (Inr (), w3)"
    and re: "fs_rename tmp p w3 = (Inr u, w')"
    by (auto simp: write_via_tmp_def action_elims)
  from fs_create_new_Ok [OF c] have w1: "w_files w1 = (w_files w)(tmp \<mapsto> File [] TMP_MODE)" by simp
  from fs_write_all_Ok [OF wr, of "File [] TMP_MODE"] w1
  have "w_files w2 = (w_files w)(tmp \<mapsto> File data TMP_MODE)" by simp
  with fs_sync_all_files [OF sy] have w3: "w_files w3 = (w_files w)(tmp \<mapsto> File data TMP_MODE)"
    by simp
  with fs_rename_Ok [OF re, of "File data TMP_MODE"] show ?thesis by (simp add: fun_eq_iff)
qed

lemma fs_rename_Err_touches: "fs_rename a b w = (Inl e, w') \<Longrightarrow> touches {} w w'"
  using calls_touch(5) [of a b w "Inl e" w'] fs_rename_Err [of a b w e w']
  by (simp add: touches_def)

lemma write_via_tmp_Err:
  assumes "write_via_tmp tmp p data w = (Inl e, w')"
  shows "touches {tmp} w w'"
proof -
  note step = calls_touch(3) [of tmp TMP_MODE] fs_write_all_touches [of tmp data]
    touches_mono [OF calls_touch(4) [of tmp], of _ _ _ "{tmp}"]
    touches_mono [OF fs_rename_Err_touches, of tmp p _ _ _ "{tmp}"]
  show ?thesis
    using assms unfolding write_via_tmp_def act_bind_Inl act_map_err_Inl act_map_err_Inr
    by (elim disjE exE conjE) (blast intro: step touches_trans)+
qed

lemma write_via_tmp_env:
  assumes "write_via_tmp tmp p data w = (Inr u, w')"
  shows "w_env w' = w_env w"
proof -
  from assms obtain w1 w2 w3 where "fs_create_new tmp TMP_MODE w = (Inr (), w1)"
    "fs_write_all tmp data w1 = (Inr (), w2)" "fs_sync_all tmp w2 = (Inr (), w3)"
    "fs_rename tmp p w3 = (Inr u, w')"
    by (auto simp: write_via_tmp_def action_elims)
  then show ?thesis
    by (metis calls_touch(3) calls_touch(4) calls_touch(5) fs_write_all_touches touches_env)
qed

text \<open>
  The two outcomes of an atomic write, whatever the environment does: on \<open>Ok\<close> the file is
  complete and the temporary file is gone; on \<open>Err\<close> only temporary names were touched.
\<close>

lemma write_atomic_run:
  assumes "write_atomic D p data w = (r, w')"
  obtains (early) e where "r = Inl e" "touches {} w w'"
  | (failed) e nonce w1 w2 where "r = Inl e" "touches {} w w1"
      "write_via_tmp (tmp_name D nonce p) p data w1 = (Inl e, w2)"
      "w' = snd (fs_remove_file (tmp_name D nonce p) w2)"
  | (written) nonce w1 where "r = Inr ()" "touches {} w w1"
      "write_via_tmp (tmp_name D nonce p) p data w1 = (Inr (), w')"
proof (cases "path_parent p")
  case None
  with assms show thesis by (auto simp: write_atomic_def act_bind_def intro: early)
next
  case (Some dir)
  obtain c w1 where c: "fs_create_dir_all dir w = (c, w1)" by (cases "fs_create_dir_all dir w")
  obtain g w2 where g: "getrandom 8 w1 = (g, w2)" by (cases "getrandom 8 w1")
  note t1 = calls_touch(2) [OF c] and t2 = touches_trans [OF calls_touch(2) [OF c] calls_touch(7) [OF g]]
  show thesis
  proof (cases "is_ok c \<and> is_ok g")
    case False
    with assms Some c g t1 t2 show thesis
      by (cases c; cases g)
        (auto simp: write_atomic_def act_bind_def act_map_err_def intro: early)
  next
    case True
    then obtain nonce where ok: "c = Inr ()" "g = Inr nonce" by (cases c; cases g) auto
    obtain v w3 where v: "write_via_tmp (tmp_name D nonce p) p data w2 = (v, w3)"
      by (cases "write_via_tmp (tmp_name D nonce p) p data w2")
    show thesis
      using assms Some c g ok v t2
      by (cases v) (auto simp: write_atomic_def act_bind_def act_map_err_def Let_def
          intro: failed written)
  qed
qed

lemma write_atomic_Ok:
  assumes "write_atomic D p data w = (Inr u, w')"
  shows "\<exists>tmp \<in> tmp_names D p.
      w_files w' = (w_files w)(tmp := None, p \<mapsto> File data TMP_MODE)"
    and "w_env w' = w_env w"
  using assms
  by (cases rule: write_atomic_run;
      auto simp: tmp_names_def touches_def write_via_tmp_env fun_eq_iff
        dest!: write_via_tmp_Ok intro!: bexI)+

lemma write_atomic_Err:
  assumes "write_atomic D p data w = (Inl e, w')"
  shows "touches (tmp_names D p) w w'"
  using assms
proof (cases rule: write_atomic_run)
  case (early e)
  then show ?thesis by (blast intro: touches_mono)
next
  case (failed e nonce w1 w2)
  let ?t = "tmp_name D nonce p"
  have "touches {?t} w w2"
    using failed(2) write_via_tmp_Err [OF failed(3)] by (blast intro: touches_trans touches_mono)
  moreover obtain q w3 where "fs_remove_file ?t w2 = (q, w3)" by (cases "fs_remove_file ?t w2")
  ultimately have "touches {?t} w w'"
    using failed(4) calls_touch(6) by (force intro: touches_trans)
  then show ?thesis by (rule touches_mono) (auto simp: tmp_names_def)
qed simp

lemma write_atomic_touches:
  "write_atomic D p data w = (r, w') \<Longrightarrow> touches (insert p (tmp_names D p)) w w'"
  by (cases r) (auto simp: touches_def dest: write_atomic_Ok write_atomic_Err)

lemma write_protected_Ok:
  assumes "write_protected D root p payload w = (Inr u, w')"
  shows "\<exists>b w1 tmp. seal D (root_protector root) payload w = (Inr b, w1) \<and> tmp \<in> tmp_names D p \<and>
      w_files w' = (w_files w)(tmp := None, p \<mapsto> File b TMP_MODE)"
    and "w_env w' = w_env w"
proof -
  from assms obtain b w1 where b: "seal D (root_protector root) payload w = (Inr b, w1)"
    and a: "write_atomic D p b w1 = (Inr u, w')"
    by (auto simp: write_protected_def action_elims)
  from seal_frame [OF b] have "w_files w1 = w_files w" "w_env w1 = w_env w"
    by (auto simp: touches_def)
  with write_atomic_Ok [OF a] b
  show "\<exists>b w1 tmp. seal D (root_protector root) payload w = (Inr b, w1) \<and> tmp \<in> tmp_names D p \<and>
      w_files w' = (w_files w)(tmp := None, p \<mapsto> File b TMP_MODE)"
    and "w_env w' = w_env w" by auto
qed

lemma write_protected_Err:
  assumes "write_protected D root p payload w = (Inl e, w')"
  shows "touches (tmp_names D p) w w'"
  using assms unfolding write_protected_def act_bind_Inl
  by (blast dest: write_atomic_Err seal_frame intro: touches_trans touches_mono)

section \<open>Protected reads\<close>

lemma read_file_opt_result:
  "read_file_opt p w = (Inr x, w') \<Longrightarrow> x = map_option contents (w_files w p)"
  "read_file_opt p w = (r, w') \<Longrightarrow> touches {} w w'"
  by (auto simp: read_file_opt_def dest: fs_read_result calls_touch(1)
      split: prod.splits sum.splits io_error.splits)

text \<open>
  What a protected read returns when the disk answers: nothing for a missing file, the
  payload of a file that opens, an error for any other content.
\<close>

definition protected_content ::
  "'z protect_deps_scheme \<Rightarrow> StoreRoot \<Rightarrow> path \<Rightarrow> world \<Rightarrow> StoreError + bytes option" where
  "protected_content D root p w =
     (case w_files w p of
        None \<Rightarrow> Inr None
      | Some f \<Rightarrow> result_bind (open_sealed D (root_protector root) (contents f))
          (\<lambda>payload. Inr (Some payload)))"

lemma read_protected_touches: "read_protected D root p w = (r, w') \<Longrightarrow> touches {} w w'"
  by (auto simp: read_protected_def act_bind_def dest: read_file_opt_result(2)
      split: prod.splits sum.splits option.splits)

lemma read_protected_Ok:
  "read_protected D root p w = (Inr x, w') \<Longrightarrow> protected_content D root p w = Inr x"
  by (auto simp: read_protected_def protected_content_def action_elims
      dest!: read_file_opt_result(1) split: option.splits)

lemma read_protected_fail_closed:
  assumes "protected_content D root p w = Inl e"
  shows "\<exists>e' w'. read_protected D root p w = (Inl e', w')"
proof (cases "read_protected D root p w")
  case (Pair r w')
  with assms show ?thesis by (cases r) (auto dest: read_protected_Ok)
qed

lemma write_then_protected_content:
  assumes "protect_deps_ok D" and "write_protected D root p payload w = (Inr u, w')"
  shows "protected_content D root p w' = Inr (Some payload)"
  using write_protected_Ok(1) [OF assms(2)] seal_open [OF assms(1)]
  by (auto simp: protected_content_def)

section \<open>Store paths\<close>

lemma not_tmp_json: "not_tmp (base @ [name @ lit ''.json''])"
proof (cases "name = []")
  case True
  have "path_extension (base @ [lit ''.json'']) = None"
    by (simp add: path_extension_def name_split_def lit_def)
  with True show ?thesis by (simp add: not_tmp_def)
next
  case False
  have "46 \<notin> set (lit ''json'')" by (simp add: lit_def)
  from name_split_append [OF this False]
  have "path_extension (base @ [name @ lit ''.json'']) = Some (lit ''json'')"
    by (simp add: path_extension_def lit_def)
  then show ?thesis by (simp add: not_tmp_def lit_def)
qed

lemma not_tmp_meta [simp]: "not_tmp (meta_path base)"
  using not_tmp_json [of base "lit ''store-meta''"]
  by (simp add: meta_path_def path_join_def lit_append [symmetric])

lemma not_tmp_key [simp]: "not_tmp (key_path base)"
  by (simp add: key_path_def path_join_def not_tmp_def path_extension_def name_split_def lit_def)

lemma not_tmp_identity [simp]: "not_tmp (identity_path display root site)"
  using not_tmp_json [of "root_base root @ [lit ''identities'']" "display site"]
  by (simp add: identity_path_def path_join_def)

lemma not_tmp_history [simp]: "not_tmp (history_path display root publisher)"
  using not_tmp_json [of "root_base root @ [lit ''history'']" "display publisher"]
  by (simp add: history_path_def path_join_def)

lemma store_paths_named [simp]:
  "meta_path base \<noteq> []" "last (meta_path base) \<noteq> []"
  "key_path base \<noteq> []" "last (key_path base) \<noteq> []"
  "identity_path display root site \<noteq> []" "last (identity_path display root site) \<noteq> []"
  "history_path display root publisher \<noteq> []" "last (history_path display root publisher) \<noteq> []"
  by (simp_all add: meta_path_def key_path_def identity_path_def history_path_def path_join_def
      lit_def)

lemma meta_neq_key [simp]: "meta_path base \<noteq> key_path base" "key_path base \<noteq> meta_path base"
  by (simp_all add: meta_path_def key_path_def path_join_def)

section \<open>Opening in Integrity mode\<close>

text \<open>
  A store whose key file exists opens under that key, without writing anything, unless its
  metadata names the other mode.
\<close>

lemma read_meta_touches: "read_meta D base w = (r, w') \<Longrightarrow> touches {} w w'"
  by (auto simp: read_meta_def act_bind_def dest: read_file_opt_result(2)
      split: prod.splits sum.splits option.splits)

lemma check_mode_touches: "check_mode D base t w = (r, w') \<Longrightarrow> touches {} w w'"
  by (auto simp: check_mode_def act_bind_def dest: read_meta_touches
      split: prod.splits sum.splits option.splits if_splits)

lemma ensure_dirs_touches: "ensure_dirs base w = (r, w') \<Longrightarrow> touches {} w w'"
  by (auto simp: ensure_dirs_def act_bind_def act_map_err_def Let_def
      split: prod.splits sum.splits dest!: calls_touch(2) intro: touches_trans)

lemma check_mode_Ok:
  assumes "check_mode D base t w = (Inr u, w')" and "w_files w (meta_path base) = Some f"
    and "from_slice (meta_codec D) (contents f) = Inr m"
  shows "meta_protection m = t"
  using assms(1)
  by (auto simp: check_mode_def read_meta_def action_elims assms(2,3)
      dest!: read_file_opt_result(1) split: if_splits)

lemma touches_nothing: "touches {} w w' \<longleftrightarrow> w_env w' = w_env w \<and> w_files w' = w_files w"
  by (auto simp: touches_def)

lemma open_integrity_run:
  assumes "open_integrity D base w = (Inr root, w')"
  obtains (existing) w1 k w2 where "ensure_dirs base w = (Inr (), w1)"
      "read_file_opt (key_path base) w1 = (Inr (Some k), w2)"
      "check_mode D base Integrity_tag w2 = (Inr (), w')"
      "root = \<lparr>root_base = base, root_protector = Integrity_protector k\<rparr>"
  | (new) w1 w2 k w3 w4 w5 where "ensure_dirs base w = (Inr (), w1)"
      "read_file_opt (key_path base) w1 = (Inr None, w2)"
      "generate_integrity_key w2 = (Inr k, w3)"
      "write_atomic D (key_path base) k w3 = (Inr (), w4)"
      "write_meta D base \<lparr>meta_v = META_V, meta_protection = Integrity_tag,
         meta_salt_b64 = None\<rparr> w4 = (Inr (), w5)"
      "check_mode D base Integrity_tag w5 = (Inr (), w')"
      "root = \<lparr>root_base = base, root_protector = Integrity_protector k\<rparr>"
proof -
  from assms obtain w1 x w2 k w5 where e: "ensure_dirs base w = (Inr (), w1)"
    and r: "read_file_opt (key_path base) w1 = (Inr x, w2)"
    and k: "(case x of Some bytes \<Rightarrow> act_return bytes
       | None \<Rightarrow>
           act_bind generate_integrity_key (\<lambda>k.
           act_bind (write_atomic D (key_path base) k) (\<lambda>_.
           act_bind (write_meta D base \<lparr>meta_v = META_V, meta_protection = Integrity_tag,
                                       meta_salt_b64 = None\<rparr>) (\<lambda>_.
           act_return k)))) w2 = (Inr k, w5)"
    and m: "check_mode D base Integrity_tag w5 = (Inr (), w')"
    and root: "root = \<lparr>root_base = base, root_protector = Integrity_protector k\<rparr>"
    unfolding open_integrity_def by (auto simp: act_bind_Inr)
  show thesis
  proof (cases x)
    case None
    with k e r m root show thesis by (auto simp: act_bind_Inr intro: new)
  next
    case (Some b)
    with k e r m root show thesis by (auto intro: existing)
  qed
qed

lemma open_integrity_existing:
  assumes "open_integrity D base w = (Inr root, w')" and "w_files w (key_path base) = Some f"
  shows "root = \<lparr>root_base = base, root_protector = Integrity_protector (contents f)\<rparr> \<and>
    touches {} w w'"
  using assms(1)
proof (cases rule: open_integrity_run)
  case (existing w1 k w2)
  have "w_files w1 = w_files w" using ensure_dirs_touches [OF existing(1)]
    by (simp add: touches_nothing)
  with existing(2) assms(2) have "k = contents f"
    by (auto dest: read_file_opt_result(1))
  with existing show ?thesis
    using ensure_dirs_touches [OF existing(1)] read_file_opt_result(2) [OF existing(2)]
      check_mode_touches [OF existing(3)]
    by (auto intro: touches_trans)
next
  case (new w1 w2 k w3 w4 w5)
  then show ?thesis
    using ensure_dirs_touches [OF new(1)] read_file_opt_result(1) [OF new(2)] assms(2)
    by (auto simp: touches_nothing)
qed

lemma open_integrity_existing_files:
  assumes o: "open_integrity D base w = (r, w')" and key: "w_files w (key_path base) = Some f"
  shows "w_files w' = w_files w"
proof -
  obtain q1 w1 where e: "ensure_dirs base w = (q1, w1)" by (cases "ensure_dirs base w")
  obtain q2 w2 where k: "read_file_opt (key_path base) w1 = (q2, w2)"
    by (cases "read_file_opt (key_path base) w1")
  have f: "w_files w1 = w_files w" "w_files w2 = w_files w1"
    using ensure_dirs_touches [OF e] read_file_opt_result(2) [OF k] by (simp_all add: touches_nothing)
  have "q2 \<noteq> Inr None" using read_file_opt_result(1) [of "key_path base" w1 None w2] k f key by auto
  then consider "w' = w1" | "w' = w2" | (mode) q3 where "check_mode D base Integrity_tag w2 = (q3, w')"
    using o e k
    by (auto simp: open_integrity_def act_bind_def split: sum.splits option.splits prod.splits)
  then show ?thesis
  proof cases
    case mode
    from check_mode_touches [OF this] f show ?thesis by (simp add: touches_nothing)
  qed (use f in simp_all)
qed

lemma open_integrity_new:
  assumes D: "root_deps_ok D" and ok: "open_integrity D base w = (Inr root, w')"
    and nokey: "w_files w (key_path base) = None"
  shows "\<exists>k fm. root = \<lparr>root_base = base, root_protector = Integrity_protector k\<rparr> \<and>
      w_files w' (key_path base) = Some (File k TMP_MODE) \<and>
      w_files w' (meta_path base) = Some fm \<and>
      from_slice (meta_codec D) (contents fm) =
        Inr \<lparr>meta_v = META_V, meta_protection = Integrity_tag, meta_salt_b64 = None\<rparr>"
  using ok
proof (cases rule: open_integrity_run)
  case (existing w1 k w2)
  then show ?thesis
    using ensure_dirs_touches [OF existing(1)] read_file_opt_result(1) [OF existing(2)] nokey
    by (auto simp: touches_nothing)
next
  case (new w1 w2 k w3 w4 w5)
  let ?m = "\<lparr>meta_v = META_V, meta_protection = Integrity_tag, meta_salt_b64 = None\<rparr>"
  from new(5) obtain b where b: "to_vec (meta_codec D) ?m = Inr b"
    and wm: "write_atomic D (meta_path base) b w4 = (Inr (), w5)"
    by (auto simp: write_meta_def act_bind_Inr map_err_Inr)
  have p: "protect_deps_ok D" and c: "codec_ok (meta_codec D)"
    using D by (simp_all add: root_deps_ok_def)
  from write_atomic_Ok(1) [OF wm] tmp_name_not_store_path [OF p, of "meta_path base" "key_path base"]
  have km: "w_files w5 (key_path base) = w_files w4 (key_path base)" by auto
  from check_mode_touches [OF new(6)] have w': "w_files w' = w_files w5"
    by (simp add: touches_nothing)
  show ?thesis
    using write_atomic_Ok(1) [OF new(4)] write_atomic_Ok(1) [OF wm] km w' new(7) codec_okD [OF c b]
    by auto
qed

section \<open>Opening touches only the key and the metadata\<close>

text \<open>\<open>keeps q m\<close>: the action leaves the file \<open>q\<close> as it is, in every environment.\<close>

definition keeps :: "path \<Rightarrow> (world, 'e, 'a) action \<Rightarrow> bool" where
  "keeps q m \<longleftrightarrow> (\<forall>w. w_files (snd (m w)) q = w_files w q)"

lemma keepsD: "keeps q m \<Longrightarrow> m w = (r, w') \<Longrightarrow> w_files w' q = w_files w q"
  unfolding keeps_def by (drule spec [of _ w]) simp

lemma keeps_nothing: "(\<And>w r w'. m w = (r, w') \<Longrightarrow> touches {} w w') \<Longrightarrow> keeps q m"
  unfolding keeps_def by (metis prod.collapse touches_nothing)

lemma keeps_bind: "keeps q m \<Longrightarrow> (\<And>a. keeps q (f a)) \<Longrightarrow> keeps q (act_bind m f)"
  by (auto simp: keeps_def act_bind_def split: prod.splits sum.splits) (metis snd_conv)+

lemma keeps_simple [simp]: "keeps q (act_return a)" "keeps q (act_lift r)" "keeps q (act_fail e)"
  by (simp_all add: keeps_def)

lemma keeps_write_atomic:
  assumes "protect_deps_ok D" and "p \<noteq> []" "last p \<noteq> []" and "not_tmp q" and "q \<noteq> p"
  shows "keeps q (write_atomic D p data)"
proof -
  have "q \<notin> tmp_names D p" by (rule tmp_name_not_store_path [OF assms(1-4)])
  with assms(5) show ?thesis
    unfolding keeps_def by (metis insert_iff prod.collapse touchesD write_atomic_touches)
qed

lemma open_integrity_keeps:
  assumes D: "protect_deps_ok D" and q: "not_tmp q" "q \<noteq> key_path base" "q \<noteq> meta_path base"
  shows "keeps q (open_integrity D base)"
proof -
  have gen: "keeps q generate_integrity_key"
    by (auto simp: keeps_def generate_integrity_key_def act_map_err_def getrandom_def)
  have meta: "keeps q (write_meta D base m)" for m
    unfolding write_meta_def
    by (intro keeps_bind keeps_write_atomic D q) simp_all
  have key: "keeps q (write_atomic D (key_path base) k)" for k
    by (intro keeps_write_atomic D q) simp_all
  have choice: "keeps q (case x of Some bytes \<Rightarrow> act_return bytes
      | None \<Rightarrow> act_bind generate_integrity_key (\<lambda>k. act_bind (write_atomic D (key_path base) k)
          (\<lambda>_. act_bind (write_meta D base m) (\<lambda>_. act_return k))))" for x m
    by (cases x) (auto intro!: keeps_bind gen key meta)
  show ?thesis
    unfolding open_integrity_def
    by (intro keeps_bind choice keeps_simple) (blast intro: keeps_nothing dest: ensure_dirs_touches
        read_file_opt_result(2) check_mode_touches)+
qed

section \<open>When nothing fails\<close>

text \<open>
  An environment that fails no call and always has randomness. Together with the absence of
  left-over temporary files it makes the operations succeed, so that the theorems on their
  \<open>Ok\<close> results are not about nothing.
\<close>

definition quiet :: "world \<Rightarrow> bool" where
  "quiet w \<longleftrightarrow> (\<forall>n. os_fault (w_env w) n = None) \<and> (\<forall>t n. \<exists>b. os_random (w_env w) t n = Inr b)"

definition no_tmp :: "'z protect_deps_scheme \<Rightarrow> path \<Rightarrow> world \<Rightarrow> bool" where
  "no_tmp D p w \<longleftrightarrow> (\<forall>t \<in> tmp_names D p. w_files w t = None)"

lemma quiet_touches: "touches T w w' \<Longrightarrow> quiet w' \<longleftrightarrow> quiet w"
  by (simp add: quiet_def touches_env)

lemma quiet_syscall: "quiet w \<Longrightarrow> syscall body w = body (w\<lparr>w_tick := Suc (w_tick w)\<rparr>)"
  by (simp add: syscall_def quiet_def Let_def)

lemma quiet_tick [simp]: "quiet (w\<lparr>w_tick := n\<rparr>) = quiet w"
  "quiet (w\<lparr>w_files := fs\<rparr>) = quiet w" "quiet (w\<lparr>w_dirs := ds\<rparr>) = quiet w"
  by (simp_all add: quiet_def)

lemma quiet_getrandom: "quiet w \<Longrightarrow> \<exists>b w'. getrandom n w = (Inr b, w') \<and> touches {} w w'"
  by (auto simp: getrandom_def quiet_def touches_def)

lemma quiet_create_dir_all: "quiet w \<Longrightarrow> \<exists>w'. fs_create_dir_all p w = (Inr (), w') \<and> touches {} w w'"
  by (simp add: fs_create_dir_all_def quiet_syscall touches_def)

lemma quiet_write_via_tmp:
  assumes "quiet w" and "w_files w tmp = None"
  shows "\<exists>w'. write_via_tmp tmp p data w = (Inr (), w')"
  using assms
  by (simp add: write_via_tmp_def act_bind_def act_map_err_def fs_create_new_def fs_write_all_def
      fs_sync_all_def fs_rename_def quiet_syscall append_to_def)

lemma quiet_write_atomic:
  assumes "quiet w" and "p \<noteq> []" and "no_tmp D p w"
  shows "\<exists>w'. write_atomic D p data w = (Inr (), w')"
proof -
  obtain w1 where c: "fs_create_dir_all (butlast p) w = (Inr (), w1)" and t1: "touches {} w w1"
    using quiet_create_dir_all [OF assms(1)] by blast
  with assms(1) have "quiet w1" by (simp add: quiet_touches)
  from quiet_getrandom [OF this, of 8] obtain nonce w2
    where g: "getrandom 8 w1 = (Inr nonce, w2)" and t2: "touches {} w1 w2" by blast
  with t1 assms(1) have "quiet w2" by (simp add: quiet_touches)
  moreover have "w_files w2 (tmp_name D nonce p) = None"
    using t1 t2 assms(3) by (simp add: touches_nothing no_tmp_def tmp_names_def)
  ultimately obtain w3 where "write_via_tmp (tmp_name D nonce p) p data w2 = (Inr (), w3)"
    using quiet_write_via_tmp by blast
  with assms(2) c g show ?thesis
    by (simp add: write_atomic_def path_parent_def act_bind_def act_map_err_def Let_def)
qed

lemma quiet_read_file_opt:
  "quiet w \<Longrightarrow> \<exists>w'. read_file_opt p w = (Inr (map_option contents (w_files w p)), w') \<and>
     touches {} w w'"
  by (auto simp: read_file_opt_def fs_read_def quiet_syscall touches_def split: option.splits)

lemma quiet_ensure_dirs: "quiet w \<Longrightarrow> \<exists>w'. ensure_dirs base w = (Inr (), w') \<and> touches {} w w'"
  by (simp add: ensure_dirs_def act_bind_def act_map_err_def Let_def fs_create_dir_all_def
      quiet_syscall touches_def)

lemma no_tmp_after_write:
  assumes D: "protect_deps_ok D" and w: "write_atomic D p data w = (Inr u, w')"
    and q: "q \<noteq> []" "last q \<noteq> []" and p: "not_tmp p" and none: "no_tmp D q w"
  shows "no_tmp D q w'"
  using write_atomic_Ok(1) [OF w] tmp_name_not_store_path [OF D q p] none
  by (auto simp: no_tmp_def)

lemma quiet_open_integrity:
  assumes D: "root_deps_ok D" and q: "quiet w"
    and nokey: "w_files w (key_path base) = None"
    and nt: "no_tmp D (key_path base) w" "no_tmp D (meta_path base) w"
    and enc: "to_vec (meta_codec D) \<lparr>meta_v = META_V, meta_protection = Integrity_tag,
        meta_salt_b64 = None\<rparr> = Inr b"
  shows "\<exists>root w'. open_integrity D base w = (Inr root, w')"
proof -
  have p: "protect_deps_ok D" and c: "codec_ok (meta_codec D)"
    using D by (simp_all add: root_deps_ok_def)
  obtain w1 where e: "ensure_dirs base w = (Inr (), w1)" and t1: "touches {} w w1"
    using quiet_ensure_dirs [OF q] by blast
  have q1: "quiet w1" using q t1 by (simp add: quiet_touches)
  obtain w2 where r: "read_file_opt (key_path base) w1 = (Inr None, w2)" and t2: "touches {} w1 w2"
    using quiet_read_file_opt [OF q1, of "key_path base"] nokey t1 by (auto simp: touches_nothing)
  have q2: "quiet w2" using q1 t2 by (simp add: quiet_touches)
  obtain k w3 where g: "generate_integrity_key w2 = (Inr k, w3)" and t3: "touches {} w2 w3"
    using quiet_getrandom [OF q2, of 32] by (auto simp: generate_integrity_key_def act_map_err_def)
  have q3: "quiet w3" using q2 t3 by (simp add: quiet_touches)
  have f3: "w_files w3 = w_files w" using t1 t2 t3 by (simp add: touches_nothing)
  have "no_tmp D (key_path base) w3" using nt(1) f3 by (simp add: no_tmp_def)
  from quiet_write_atomic [OF q3 store_paths_named(3) this] obtain w4
    where wk: "write_atomic D (key_path base) k w3 = (Inr (), w4)" by blast
  have "no_tmp D (meta_path base) w4"
    by (rule no_tmp_after_write [OF p wk]) (use nt(2) f3 in \<open>simp_all add: no_tmp_def\<close>)
  moreover have q4: "quiet w4" using q3 write_atomic_touches [OF wk] by (simp add: quiet_touches)
  ultimately obtain w5 where wm: "write_atomic D (meta_path base) b w4 = (Inr (), w5)"
    using quiet_write_atomic [of w4 "meta_path base" D b] by auto
  have q5: "quiet w5" using q4 write_atomic_touches [OF wm] by (simp add: quiet_touches)
  obtain fm where "w_files w5 (meta_path base) = Some fm" "contents fm = b"
    using write_atomic_Ok(1) [OF wm] by auto
  then obtain w6 where m: "read_file_opt (meta_path base) w5 = (Inr (Some b), w6)"
    using quiet_read_file_opt [OF q5, of "meta_path base"] by auto
  have "check_mode D base Integrity_tag w5 = (Inr (), w6)"
    by (simp add: check_mode_def read_meta_def act_bind_def m codec_okD [OF c enc])
  then show ?thesis
    by (simp add: open_integrity_def act_bind_def write_meta_def e r g wk wm enc)
qed

section \<open>Opening in Encrypted mode\<close>

text \<open>A store whose metadata names Integrity mode is refused, and nothing is written.\<close>

lemma read_meta_of:
  assumes "w_files w (meta_path base) = Some f" and "from_slice (meta_codec D) (contents f) = Inr m"
    and "read_meta D base w = (Inr x, w')"
  shows "x = Some m"
  using assms(3)
  by (auto simp: read_meta_def action_elims result_inv assms(1,2) dest!: read_file_opt_result(1))

lemma open_encrypted_wrong_mode:
  assumes "w_files w (meta_path base) = Some f"
    and "from_slice (meta_codec D) (contents f) = Inr m" and "meta_protection m = Integrity_tag"
    and "open_encrypted D base passphrase w = (r, w')"
  shows "\<not> is_ok r \<and> touches {} w w'"
proof -
  obtain e w1 where e: "ensure_dirs base w = (e, w1)" by (cases "ensure_dirs base w")
  note t1 = ensure_dirs_touches [OF e]
  then have f1: "w_files w1 = w_files w" by (simp add: touches_nothing)
  obtain x w2 where x: "read_meta D base w1 = (x, w2)" by (cases "read_meta D base w1")
  note t2 = touches_trans [OF t1 read_meta_touches [OF x]]
  show ?thesis
  proof (cases "is_ok e \<and> is_ok x")
    case False
    with assms(4) e x t1 t2 show ?thesis
      by (cases e; cases x) (auto simp: open_encrypted_def act_bind_def)
  next
    case True
    then obtain u y where u: "e = Inr u" and y: "x = Inr y" by (cases e; cases x) auto
    have "y = Some m" using read_meta_of [of w1 base f D m y w2] f1 assms(1,2) x y by simp
    with assms(3,4) e x u y t2 show ?thesis by (auto simp: open_encrypted_def act_bind_def)
  qed
qed

end
