(* ===== verification/Dto.thy ===== *)
theory Dto
  imports Protect
begin

text \<open>
  The on-disk mirrors of the client's types, \<open>crates/entangled-client-store/src/dto.rs\<close>:
  identity records (version 2, with version 1 still readable), manifest records and history
  files, with their conversions. JSON itself is \<open>serde_json\<close> and enters as a codec later.
\<close>

section \<open>Identity records\<close>

record 'pk IdentityDto =
  id_v :: nat
  id_pubkey :: 'pk
  id_provenance :: "ustring option"
  id_externally_verified :: "bool option"
  id_replaced_pubkeys :: "'pk list"

definition IDENTITY_V :: nat where "IDENTITY_V = 2"

definition IDENTITY_V1 :: nat where "IDENTITY_V1 = 1"

fun provenance_str :: "RetainedProvenance \<Rightarrow> ustring" where
  "provenance_str Observed = lit ''observed''"
| "provenance_str Pinned = lit ''pinned''"
| "provenance_str ExternallyVerified_prov = lit ''verified''"

definition identity_dto_new :: "'pk RetainedIdentity \<Rightarrow> 'pk list \<Rightarrow> 'pk IdentityDto" where
  "identity_dto_new identity replaced_pubkeys =
     \<lparr>id_v = IDENTITY_V, id_pubkey = pubkey identity,
      id_provenance = Some (provenance_str (provenance identity)),
      id_externally_verified = None, id_replaced_pubkeys = replaced_pubkeys\<rparr>"

text \<open>The \<open>match\<close> of \<open>to_identity\<close> on version, provenance string and legacy flag.\<close>

definition dto_provenance ::
  "nat \<Rightarrow> ustring option \<Rightarrow> bool option \<Rightarrow> RetainedProvenance option" where
  "dto_provenance v p ev =
     (if v = IDENTITY_V \<and> p = Some (lit ''observed'') \<and> ev = None then Some Observed
      else if v = IDENTITY_V \<and> p = Some (lit ''pinned'') \<and> ev = None then Some Pinned
      else if v = IDENTITY_V \<and> p = Some (lit ''verified'') \<and> ev = None
        then Some ExternallyVerified_prov
      else if v = IDENTITY_V1 \<and> p = None \<and> ev = Some False then Some Pinned
      else if v = IDENTITY_V1 \<and> p = None \<and> ev = Some True then Some ExternallyVerified_prov
      else None)"

definition to_identity :: "'pk IdentityDto \<Rightarrow> StoreError + 'pk RetainedIdentity" where
  "to_identity d =
     (case dto_provenance (id_v d) (id_provenance d) (id_externally_verified d) of
        Some p \<Rightarrow> Inr \<lparr>pubkey = id_pubkey d, provenance = p\<rparr>
      | None \<Rightarrow> Inl (StoreError (lit ''identity record v'' @ decimal (id_v d) @
          lit '' carries an invalid provenance shape'')))"

definition identity_check_version :: "'pk IdentityDto \<Rightarrow> StoreError + unit" where
  "identity_check_version d =
     (if id_v d \<noteq> IDENTITY_V \<and> id_v d \<noteq> IDENTITY_V1
      then Inl (store_err ''unsupported identity record version '' (decimal (id_v d)))
      else Inr ())"

lemma identity_dto_roundtrip [simp]:
  "identity_check_version (identity_dto_new i ks) = Inr ()"
  "to_identity (identity_dto_new i ks) = Inr i"
  "id_replaced_pubkeys (identity_dto_new i ks) = ks"
  by (cases i; cases "provenance i"; simp add: identity_check_version_def identity_dto_new_def
      to_identity_def dto_provenance_def IDENTITY_V_def IDENTITY_V1_def)+

text \<open>Exactly five shapes are readable.\<close>

lemma to_identity_Ok:
  "to_identity d = Inr i \<longleftrightarrow>
     pubkey i = id_pubkey d \<and>
     ((id_v d = 2 \<and> id_externally_verified d = None \<and>
         id_provenance d = Some (provenance_str (provenance i))) \<or>
      (id_v d = 1 \<and> id_provenance d = None \<and> provenance i \<noteq> Observed \<and>
         id_externally_verified d = Some (provenance i = ExternallyVerified_prov)))"
  by (cases i; cases "provenance i")
    (auto simp: to_identity_def dto_provenance_def IDENTITY_V_def IDENTITY_V1_def
      split: option.splits if_splits)

section \<open>Manifest records and history files\<close>

record ('ts, 'rk) ManifestRecordDto =
  mr_issued_at :: 'ts
  mr_runtime_pubkey :: 'rk
  mr_payload_hash_hex :: ustring

definition from_record ::
  "'z protect_deps_scheme \<Rightarrow> ('ts, 'rk) RetainedManifestRecord \<Rightarrow> ('ts, 'rk) ManifestRecordDto"
where
  "from_record D r =
     \<lparr>mr_issued_at = issued_at r, mr_runtime_pubkey = runtime_pubkey r,
      mr_payload_hash_hex = hex_encode D (manifest_payload_hash r)\<rparr>"

definition into_record ::
  "'z protect_deps_scheme \<Rightarrow> ('ts, 'rk) ManifestRecordDto \<Rightarrow>
   StoreError + ('ts, 'rk) RetainedManifestRecord" where
  "into_record D d =
     result_bind (map_err (store_err ''payload_hash_hex not hex: '')
       (hex_decode D (mr_payload_hash_hex d))) (\<lambda>bytes.
     if length bytes \<noteq> 32 then Inl (StoreError (lit ''payload_hash_hex is not 32 bytes''))
     else Inr \<lparr>issued_at = mr_issued_at d, runtime_pubkey = mr_runtime_pubkey d,
               manifest_payload_hash = bytes\<rparr>)"

record ('ts, 'rk) HistoryDto =
  hd_v :: nat
  hd_records :: "('ts, 'rk) ManifestRecordDto list"

definition HISTORY_V :: nat where "HISTORY_V = 1"

definition history_check_version :: "('ts, 'rk) HistoryDto \<Rightarrow> StoreError + unit" where
  "history_check_version d =
     (if hd_v d \<noteq> HISTORY_V then Inl (store_err ''unsupported history version '' (decimal (hd_v d)))
      else Inr ())"

text \<open>A \<open>[u8; 32]\<close>: records of the running program carry 32-byte hashes.\<close>

definition record_ok :: "('ts, 'rk) RetainedManifestRecord \<Rightarrow> bool" where
  "record_ok r \<longleftrightarrow> length (manifest_payload_hash r) = 32"

lemma into_from_record:
  "protect_deps_ok D \<Longrightarrow> record_ok r \<Longrightarrow> into_record D (from_record D r) = Inr r"
  by (simp add: into_record_def from_record_def protect_deps_okD(1) record_ok_def)

lemma into_record_ok: "into_record D d = Inr r \<Longrightarrow> record_ok r"
  by (auto simp: into_record_def record_ok_def result_inv split: if_splits)

text \<open>The loop of \<open>load_history\<close>: convert in order, stop at the first corrupt record.\<close>

fun into_records ::
  "'z protect_deps_scheme \<Rightarrow> ('ts, 'rk) ManifestRecordDto list \<Rightarrow>
   StoreError + ('ts, 'rk) RetainedManifestRecord list" where
  "into_records D [] = Inr []"
| "into_records D (d # ds) =
     result_bind (into_record D d) (\<lambda>r. result_bind (into_records D ds) (\<lambda>rs. Inr (r # rs)))"

lemma into_records_map:
  "protect_deps_ok D \<Longrightarrow> list_all record_ok rs \<Longrightarrow>
     into_records D (map (from_record D) rs) = Inr rs"
  by (induction rs) (simp_all add: into_from_record)

lemma into_records_ok: "into_records D ds = Inr rs \<Longrightarrow> list_all record_ok rs"
  by (induction ds arbitrary: rs) (auto simp: result_inv dest: into_record_ok)

end
