(* ===== verification/File_Stores.thy ===== *)
theory File_Stores
  imports Store_Root Dto
begin

text \<open>
  The durable stores, \<open>identity.rs\<close> and \<open>history.rs\<close> of \<open>crates/entangled-client-store\<close>: one
  protected JSON file per site and per publisher, read and rewritten on every call. Each
  is shown to satisfy the contract of its seam (the locales of \<open>Stores\<close>) over the
  fault-injecting file system, and to fail closed on a file that is not authentic or not
  readable.
\<close>

section \<open>What the stores depend on\<close>

record ('on, 'pk, 'ts, 'rk) store_deps = root_deps +
  on_display :: "'on \<Rightarrow> ustring"
  pk_display :: "'pk \<Rightarrow> ustring"
  identity_codec :: "'pk IdentityDto codec"
  history_codec :: "('ts, 'rk) HistoryDto codec"

text \<open>
  The laws: those of the root, JSON that decodes what it encodes, and onion addresses and
  publisher keys whose text forms determine them.
\<close>

definition store_deps_ok :: "('on, 'pk, 'ts, 'rk, 'z) store_deps_scheme \<Rightarrow> bool" where
  "store_deps_ok D \<longleftrightarrow>
     root_deps_ok D \<and> codec_ok (identity_codec D) \<and> codec_ok (history_codec D) \<and>
     (\<forall>a b. on_display D a = on_display D b \<longrightarrow> a = b) \<and>
     (\<forall>a b. pk_display D a = pk_display D b \<longrightarrow> a = b)"

lemma store_deps_okD:
  assumes "store_deps_ok D"
  shows "protect_deps_ok D" "codec_ok (identity_codec D)" "codec_ok (history_codec D)"
    "on_display D a = on_display D b \<longleftrightarrow> a = b" "pk_display D p = pk_display D q \<longleftrightarrow> p = q"
  using assms by (auto simp: store_deps_ok_def root_deps_ok_def)

section \<open>Files that hold a protected JSON value\<close>

text \<open>
  Both stores read the same way: a protected read, the JSON decoding, the version check.
  \<open>dto_at\<close> is the value a file holds, or how it fails.
\<close>

definition load_checked ::
  "string \<Rightarrow> 'a codec \<Rightarrow> ('a \<Rightarrow> StoreError + unit) \<Rightarrow> 'z protect_deps_scheme \<Rightarrow> StoreRoot \<Rightarrow>
   path \<Rightarrow> (world, StoreError, 'a option) action" where
  "load_checked msg c check D root p =
     act_bind (read_protected D root p) (\<lambda>x. case x of
         None \<Rightarrow> act_return None
       | Some bytes \<Rightarrow> act_bind (act_lift (map_err (store_err msg) (from_slice c bytes))) (\<lambda>dto.
           act_bind (act_lift (check dto)) (\<lambda>_. act_return (Some dto))))"

definition write_json ::
  "string \<Rightarrow> 'a codec \<Rightarrow> 'z protect_deps_scheme \<Rightarrow> StoreRoot \<Rightarrow> path \<Rightarrow> 'a \<Rightarrow>
   (world, StoreError, unit) action" where
  "write_json msg c D root p dto =
     act_bind (act_lift (map_err (store_err msg) (to_vec c dto)))
       (\<lambda>bytes. write_protected D root p bytes)"

definition dto_at ::
  "string \<Rightarrow> 'a codec \<Rightarrow> ('a \<Rightarrow> StoreError + unit) \<Rightarrow> 'z protect_deps_scheme \<Rightarrow> StoreRoot \<Rightarrow>
   path \<Rightarrow> world \<Rightarrow> StoreError + 'a option" where
  "dto_at msg c check D root p w =
     result_bind (protected_content D root p w) (\<lambda>x. case x of
         None \<Rightarrow> Inr None
       | Some bytes \<Rightarrow> result_bind (map_err (store_err msg) (from_slice c bytes)) (\<lambda>dto.
           result_bind (check dto) (\<lambda>_. Inr (Some dto))))"

lemma load_checked_touches: "load_checked msg c check D root p w = (r, w') \<Longrightarrow> touches {} w w'"
  by (auto simp: load_checked_def act_bind_def dest: read_protected_touches
      split: prod.splits sum.splits option.splits)

lemma load_checked_Ok:
  "load_checked msg c check D root p w = (Inr x, w') \<Longrightarrow> dto_at msg c check D root p w = Inr x"
  by (auto simp: load_checked_def dto_at_def action_elims result_inv dest!: read_protected_Ok
      split: option.splits)

lemma load_checked_frame:
  "load_checked msg c check D root p w = (r, w') \<Longrightarrow> w_files w' = w_files w \<and> w_env w' = w_env w"
  using load_checked_touches by (fastforce simp: touches_nothing)

lemma dto_at_files:
  "w_files w' p = w_files w p \<Longrightarrow>
     dto_at msg c check D root p w' = dto_at msg c check D root p w"
  by (simp add: dto_at_def protected_content_def)

lemma write_json_Ok:
  assumes "protect_deps_ok D" and "codec_ok c" and "check dto = Inr ()"
    and "write_json msg' c D root p dto w = (Inr u, w')"
  shows "dto_at msg c check D root p w' = Inr (Some dto)"
proof -
  from assms(4) obtain b where b: "to_vec c dto = Inr b"
    and wr: "write_protected D root p b w = (Inr u, w')"
    by (auto simp: write_json_def action_elims result_inv)
  show ?thesis
    by (simp add: dto_at_def write_then_protected_content [OF assms(1) wr]
        codec_okD [OF assms(2) b] assms(3))
qed

lemma write_json_other:
  assumes "protect_deps_ok D" and "p \<noteq> []" "last p \<noteq> []" and "not_tmp q" and "q \<noteq> p"
    and "write_json msg c D root p dto w = (r, w')"
  shows "w_files w' q = w_files w q"
proof -
  have q: "q \<notin> tmp_names D p" by (rule tmp_name_not_store_path [OF assms(1-4)])
  show ?thesis
  proof (cases "to_vec c dto")
    case (Inl e)
    with assms(6) show ?thesis by (auto simp: write_json_def act_bind_def)
  next
    case (Inr b)
    with assms(6) have wr: "write_protected D root p b w = (r, w')"
      by (simp add: write_json_def act_bind_def)
    show ?thesis
    proof (cases r)
      case (Inl e)
      with write_protected_Err [of D root p b w e w'] wr q show ?thesis by (simp add: touchesD)
    next
      case (Inr u)
      with write_protected_Ok(1) [of D root p b w u w'] wr q assms(5) show ?thesis by auto
    qed
  qed
qed

lemma write_json_Err:
  assumes "protect_deps_ok D" and "p \<noteq> []" "last p \<noteq> []" and "not_tmp q"
    and "write_json msg c D root p dto w = (Inl e, w')"
  shows "w_files w' q = w_files w q"
proof -
  have q: "q \<notin> tmp_names D p" by (rule tmp_name_not_store_path [OF assms(1-4)])
  from assms(5) q show ?thesis
    by (auto simp: write_json_def action_elims dest!: write_protected_Err intro: touchesD)
qed

lemma identity_path_inject [simp]:
  assumes "store_deps_ok D"
  shows "identity_path (on_display D) root a = identity_path (on_display D) root b \<longleftrightarrow> a = b"
  using store_deps_okD(4) [OF assms] by (simp add: identity_path_def path_join_def)

lemma history_path_inject [simp]:
  assumes "store_deps_ok D"
  shows "history_path (pk_display D) root a = history_path (pk_display D) root b \<longleftrightarrow> a = b"
  using store_deps_okD(5) [OF assms] by (simp add: history_path_def path_join_def)

lemma identity_neq_history [simp]:
  "identity_path f root a \<noteq> history_path g root b" "history_path g root b \<noteq> identity_path f root a"
  by (simp_all add: identity_path_def history_path_def path_join_def)

section \<open>The identity store\<close>

record FileIdentityStore =
  fis_root :: StoreRoot

definition fis_new :: "StoreRoot \<Rightarrow> FileIdentityStore" where
  "fis_new root = \<lparr>fis_root = root\<rparr>"

definition fis_path ::
  "('on, 'pk, 'ts, 'rk, 'z) store_deps_scheme \<Rightarrow> FileIdentityStore \<Rightarrow> 'on \<Rightarrow> path" where
  "fis_path D st site = identity_path (on_display D) (fis_root st) site"

definition fis_load_dto ::
  "('on, 'pk, 'ts, 'rk, 'z) store_deps_scheme \<Rightarrow> FileIdentityStore \<Rightarrow> 'on \<Rightarrow>
   (world, StoreError, 'pk IdentityDto option) action" where
  "fis_load_dto D st site =
     load_checked ''decode identity: '' (identity_codec D) identity_check_version D (fis_root st)
       (fis_path D st site)"

definition fis_write_dto ::
  "('on, 'pk, 'ts, 'rk, 'z) store_deps_scheme \<Rightarrow> FileIdentityStore \<Rightarrow> 'on \<Rightarrow> 'pk IdentityDto \<Rightarrow>
   (world, StoreError, unit) action" where
  "fis_write_dto D st site dto =
     write_json ''encode identity: '' (identity_codec D) D (fis_root st) (fis_path D st site) dto"

definition fis_load_identity ::
  "('on, 'pk, 'ts, 'rk, 'z) store_deps_scheme \<Rightarrow> FileIdentityStore \<Rightarrow> 'on \<Rightarrow>
   (world, StoreError, 'pk RetainedIdentity option) action" where
  "fis_load_identity D st site =
     act_bind (fis_load_dto D st site) (\<lambda>x. case x of
         None \<Rightarrow> act_return None
       | Some d \<Rightarrow> act_lift (result_bind (to_identity d) (\<lambda>i. Inr (Some i))))"

definition replaced_or_default :: "'pk IdentityDto option \<Rightarrow> 'pk list" where
  "replaced_or_default x = (case x of None \<Rightarrow> [] | Some d \<Rightarrow> id_replaced_pubkeys d)"

fun fis_apply ::
  "('on, 'pk, 'ts, 'rk, 'z) store_deps_scheme \<Rightarrow> FileIdentityStore \<Rightarrow> 'on \<Rightarrow>
   'pk PersistenceIntent \<Rightarrow> (world, StoreError, unit) action" where
  "fis_apply D st site None_intent = act_return ()"
| "fis_apply D st site (RecordObservation k) =
     act_bind (fis_load_dto D st site) (\<lambda>x.
       if x = None
       then act_bind (fis_write_dto D st site
              (identity_dto_new \<lparr>pubkey = k, provenance = Observed\<rparr> [])) (\<lambda>_. act_return ())
       else act_return ())"
| "fis_apply D st site (PinIdentity k) =
     act_bind (fis_load_dto D st site) (\<lambda>x. case x of
         None \<Rightarrow> fis_write_dto D st site
           (identity_dto_new \<lparr>pubkey = k, provenance = Pinned\<rparr> [])
       | Some dto \<Rightarrow> act_bind (act_lift (to_identity dto)) (\<lambda>existing.
           if provenance existing = Observed
           then act_bind (fis_write_dto D st site
                  (identity_dto_new \<lparr>pubkey = k, provenance = Pinned\<rparr>
                     (id_replaced_pubkeys dto))) (\<lambda>_. act_return ())
           else act_return ()))"
| "fis_apply D st site (MarkExternallyVerified k) =
     act_bind (fis_load_dto D st site) (\<lambda>x.
       fis_write_dto D st site
         (identity_dto_new \<lparr>pubkey = k, provenance = ExternallyVerified_prov\<rparr>
            (replaced_or_default x)))"
| "fis_apply D st site (ReplaceIdentity n old v) =
     act_bind (fis_load_dto D st site) (\<lambda>x.
       fis_write_dto D st site
         (identity_dto_new \<lparr>pubkey = n, provenance = if v then ExternallyVerified_prov else Pinned\<rparr>
            (old # replaced_or_default x)))"

text \<open>What a site's file says, and the sites whose files are readable.\<close>

definition fis_dto_at ::
  "('on, 'pk, 'ts, 'rk, 'z) store_deps_scheme \<Rightarrow> FileIdentityStore \<Rightarrow> world \<Rightarrow> 'on \<Rightarrow>
   StoreError + 'pk IdentityDto option" where
  "fis_dto_at D st w site =
     dto_at ''decode identity: '' (identity_codec D) identity_check_version D (fis_root st)
       (fis_path D st site) w"

definition fis_content ::
  "('on, 'pk, 'ts, 'rk, 'z) store_deps_scheme \<Rightarrow> FileIdentityStore \<Rightarrow> world \<Rightarrow> 'on \<Rightarrow>
   'pk site_record" where
  "fis_content D st w site =
     (case fis_dto_at D st w site of
        Inr (Some d) \<Rightarrow>
          (case to_identity d of Inr i \<Rightarrow> Some (i, id_replaced_pubkeys d) | Inl _ \<Rightarrow> None)
      | _ \<Rightarrow> None)"

definition fis_readable ::
  "('on, 'pk, 'ts, 'rk, 'z) store_deps_scheme \<Rightarrow> FileIdentityStore \<Rightarrow> world \<Rightarrow> 'on \<Rightarrow> bool" where
  "fis_readable D st w site =
     (case fis_dto_at D st w site of
        Inl _ \<Rightarrow> False
      | Inr None \<Rightarrow> True
      | Inr (Some d) \<Rightarrow> is_ok (to_identity d))"

definition fis_inv ::
  "('on, 'pk, 'ts, 'rk, 'z) store_deps_scheme \<Rightarrow> FileIdentityStore \<Rightarrow> world \<Rightarrow> bool" where
  "fis_inv D st w \<longleftrightarrow> store_deps_ok D \<and> (\<forall>site. fis_readable D st w site)"

lemma fis_load_dto_facts:
  assumes "fis_load_dto D st site w = (r, w')"
  shows "w_files w' = w_files w" and "r = Inr x \<Longrightarrow> fis_dto_at D st w site = Inr x"
  using assms load_checked_frame load_checked_Ok
  by (fastforce simp: fis_load_dto_def fis_dto_at_def)+

lemma fis_files:
  assumes "w_files w' (fis_path D st site) = w_files w (fis_path D st site)"
  shows "fis_dto_at D st w' site = fis_dto_at D st w site"
    "fis_content D st w' site = fis_content D st w site"
    "fis_readable D st w' site = fis_readable D st w site"
proof -
  show a: "fis_dto_at D st w' site = fis_dto_at D st w site"
    unfolding fis_dto_at_def by (rule dto_at_files [OF assms])
  show "fis_content D st w' site = fis_content D st w site"
    "fis_readable D st w' site = fis_readable D st w site"
    by (simp_all add: fis_content_def fis_readable_def a)
qed

lemma fis_same_files:
  assumes "w_files w' = w_files w"
  shows "fis_content D st w' = fis_content D st w" "fis_inv D st w' \<longleftrightarrow> fis_inv D st w"
  using fis_files [of w' D st _ w] assms by (auto simp: fis_inv_def fun_eq_iff)

lemma fis_dto_of_content:
  assumes "fis_readable D st w site" and "fis_dto_at D st w site = Inr x"
  shows "x = None \<and> fis_content D st w site = None \<or>
    (\<exists>d i. x = Some d \<and> to_identity d = Inr i \<and>
       fis_content D st w site = Some (i, id_replaced_pubkeys d))"
  using assms
  by (cases x) (auto simp: fis_readable_def fis_content_def is_ok_def split: sum.splits)

lemma replaced_or_default_content:
  assumes "fis_readable D st w site" and "fis_dto_at D st w site = Inr x"
  shows "replaced_or_default x = replaced_of (fis_content D st w site)"
  using fis_dto_of_content [OF assms] by (auto simp: replaced_or_default_def)

text \<open>Writing a record: the site's record becomes the written one, no other changes.\<close>

lemma fis_path_facts:
  "fis_path D st site \<noteq> []" "last (fis_path D st site) \<noteq> []" "not_tmp (fis_path D st site)"
  by (simp_all add: fis_path_def)

lemma fis_write_other:
  assumes "store_deps_ok D" and "fis_write_dto D st site dto w = (r, w')" and "a \<noteq> site"
  shows "w_files w' (fis_path D st a) = w_files w (fis_path D st a)"
  by (rule write_json_other [OF store_deps_okD(1) [OF assms(1)] fis_path_facts(1,2)
        fis_path_facts(3) _ assms(2) [unfolded fis_write_dto_def]])
    (simp add: fis_path_def assms)

lemma fis_write_Ok:
  assumes D: "store_deps_ok D" and w: "fis_write_dto D st site (identity_dto_new i ks) w = (Inr u, w')"
  shows "fis_content D st w' = (fis_content D st w)(site := Some (i, ks))"
    and "fis_inv D st w \<Longrightarrow> fis_inv D st w'"
proof -
  have at: "fis_dto_at D st w' site = Inr (Some (identity_dto_new i ks))"
    unfolding fis_dto_at_def
    by (rule write_json_Ok [OF store_deps_okD(1,2) [OF D] _ w [unfolded fis_write_dto_def]]) simp
  note other = fis_files(2,3) [OF fis_write_other [OF D w]]
  show "fis_content D st w' = (fis_content D st w)(site := Some (i, ks))"
    using at other(1) by (simp add: fun_eq_iff fis_content_def)
  show "fis_inv D st w'" if "fis_inv D st w"
  proof -
    have "fis_readable D st w' site" using at by (simp add: fis_readable_def)
    with that other(2) show ?thesis unfolding fis_inv_def by metis
  qed
qed

lemma fis_write_Err:
  assumes D: "store_deps_ok D" and w: "fis_write_dto D st site dto w = (Inl e, w')"
  shows "fis_content D st w' = fis_content D st w" and "fis_inv D st w \<Longrightarrow> fis_inv D st w'"
proof -
  note other = fis_files(2,3) [OF write_json_Err [OF store_deps_okD(1) [OF D] fis_path_facts(1,2)
      fis_path_facts(3) w [unfolded fis_write_dto_def]]]
  show "fis_content D st w' = fis_content D st w"
    by (rule ext) (rule other(1))
  show "fis_inv D st w'" if "fis_inv D st w"
    unfolding fis_inv_def by (metis that fis_inv_def other(2))
qed

text \<open>\<open>apply\<close> on a readable store: each intent is a load followed by at most one write.\<close>

definition fis_written ::
  "'pk IdentityDto option \<Rightarrow> 'pk PersistenceIntent \<Rightarrow> 'pk RetainedIdentity \<Rightarrow> 'pk list \<Rightarrow> bool" where
  "fis_written x i ident ks \<longleftrightarrow>
     (case i of
        None_intent \<Rightarrow> False
      | RecordObservation k \<Rightarrow> x = None \<and> ident = \<lparr>pubkey = k, provenance = Observed\<rparr> \<and> ks = []
      | PinIdentity k \<Rightarrow> ident = \<lparr>pubkey = k, provenance = Pinned\<rparr> \<and> ks = replaced_or_default x \<and>
          (case x of None \<Rightarrow> True | Some d \<Rightarrow>
             \<exists>e. to_identity d = Inr e \<and> provenance e = Observed)
      | MarkExternallyVerified k \<Rightarrow>
          ident = \<lparr>pubkey = k, provenance = ExternallyVerified_prov\<rparr> \<and> ks = replaced_or_default x
      | ReplaceIdentity n old v \<Rightarrow>
          ident = \<lparr>pubkey = n, provenance = if v then ExternallyVerified_prov else Pinned\<rparr> \<and>
          ks = old # replaced_or_default x)"

lemma fis_apply_run:
  assumes "fis_apply D st site i w = (r, w')"
  obtains (none) "i = None_intent" "r = Inr ()" "w' = w"
  | (load_failed) e where "fis_load_dto D st site w = (Inl e, w')" "r = Inl e"
  | (kept) x where "fis_load_dto D st site w = (Inr x, w')"
      "\<nexists>ident ks. fis_written x i ident ks"
      "r = Inr () \<or> (\<exists>d e. x = Some d \<and> to_identity d = Inl e \<and> r = Inl e)"
      "i \<noteq> None_intent"
  | (written) x w1 ident ks where "fis_load_dto D st site w = (Inr x, w1)" "fis_written x i ident ks"
      "fis_write_dto D st site (identity_dto_new ident ks) w1 = (r, w')"
proof (cases "i = None_intent")
  case True
  with assms none show thesis by simp
next
  case False
  obtain l w1 where l: "fis_load_dto D st site w = (l, w1)" by (cases "fis_load_dto D st site w")
  show thesis
  proof (cases l)
    case (Inl e)
    with False l assms load_failed show thesis by (cases i) (auto simp: act_bind_def)
  next
    case (Inr x)
    have unit: "act_bind m act_return w1 = m w1" for m :: "(world, StoreError, unit) action"
      by (auto simp: act_bind_def split: prod.splits sum.splits)
    show thesis
    proof (cases i)
      case (RecordObservation k)
      with l Inr assms kept written show thesis
        by (cases x) (auto simp: act_bind_def [of "fis_load_dto D st site"] unit fis_written_def)
    next
      case (PinIdentity k)
      show thesis
      proof (cases x)
        case None
        with PinIdentity l Inr assms written show thesis
          by (auto simp: act_bind_def fis_written_def replaced_or_default_def)
      next
        case (Some d)
        with PinIdentity l Inr assms kept written show thesis
          by (cases "to_identity d")
            (auto simp: act_bind_def [of "fis_load_dto D st site"] act_bind_def [of "act_lift _"]
              unit fis_written_def replaced_or_default_def split: if_splits)
      qed
    qed (use False l Inr assms written in \<open>auto simp: act_bind_def fis_written_def\<close>)
  qed
qed

lemma fis_written_effect:
  assumes "fis_readable D st w site" and "fis_dto_at D st w site = Inr x"
  shows "fis_written x i ident ks \<Longrightarrow>
      intent_effect i (fis_content D st w site) = Some (ident, ks)"
    and "\<nexists>ident ks. fis_written x i ident ks \<Longrightarrow>
      intent_effect i (fis_content D st w site) = fis_content D st w site"
  using fis_dto_of_content [OF assms] replaced_or_default_content [OF assms]
  by (cases i; auto simp: fis_written_def replaced_or_default_def split: option.splits)+

lemma fis_apply_inv:
  assumes inv: "fis_inv D st w" and a: "fis_apply D st site i w = (r, w')"
  shows "fis_inv D st w'"
  using a
proof (cases rule: fis_apply_run)
  case (written x w1 ident ks)
  have D: "store_deps_ok D" using inv by (simp add: fis_inv_def)
  have "fis_inv D st w1" using inv fis_same_files fis_load_dto_facts(1) [OF written(1)] by blast
  with written(3) show ?thesis
    by (cases r) (auto dest: fis_write_Ok(2) [OF D] fis_write_Err(2) [OF D])
next
  case (load_failed e)
  from fis_same_files(2) [OF fis_load_dto_facts(1) [OF load_failed(1)], of D st] inv
  show ?thesis by (rule iffD2)
next
  case (kept x)
  from fis_same_files(2) [OF fis_load_dto_facts(1) [OF kept(1)], of D st] inv
  show ?thesis by (rule iffD2)
qed (use inv in simp)

lemma fis_apply_Ok:
  assumes inv: "fis_inv D st w" and a: "fis_apply D st site i w = (Inr u, w')"
  shows "fis_content D st w' = (fis_content D st w)(site := intent_effect i (fis_content D st w site))"
  using a
proof (cases rule: fis_apply_run)
  case (kept x)
  have "fis_readable D st w site" using inv by (simp add: fis_inv_def)
  note eff = fis_written_effect(2) [OF this fis_load_dto_facts(2) [OF kept(1) refl] kept(2)]
  show ?thesis
    unfolding fis_same_files(1) [OF fis_load_dto_facts(1) [OF kept(1)]] eff by simp
next
  case (written x w1 ident ks)
  have D: "store_deps_ok D" and "fis_readable D st w site" using inv by (simp_all add: fis_inv_def)
  note eff = fis_written_effect(1) [OF this(2) fis_load_dto_facts(2) [OF written(1) refl] written(2)]
  show ?thesis
    unfolding eff fis_write_Ok(1) [OF D written(3)]
      fis_same_files(1) [OF fis_load_dto_facts(1) [OF written(1)]] by (rule refl)
qed simp_all

lemma fis_apply_Err:
  assumes inv: "store_deps_ok D" and a: "fis_apply D st site i w = (Inl e, w')"
  shows "fis_content D st w' = fis_content D st w"
  using a
proof (cases rule: fis_apply_run)
  case (written x w1 ident ks)
  show ?thesis
    unfolding fis_write_Err(1) [OF inv written(3)]
      fis_same_files(1) [OF fis_load_dto_facts(1) [OF written(1)]] by (rule refl)
next
  case (load_failed e')
  show ?thesis by (rule fis_same_files(1) [OF fis_load_dto_facts(1) [OF load_failed(1)]])
next
  case (kept x)
  show ?thesis by (rule fis_same_files(1) [OF fis_load_dto_facts(1) [OF kept(1)]])
qed simp

lemma fis_load_identity_run:
  assumes "fis_load_identity D st site w = (r, w')"
  shows "w_files w' = w_files w"
    and "r = Inr y \<Longrightarrow> fis_readable D st w site \<and> y = map_option fst (fis_content D st w site)"
proof -
  from assms show "w_files w' = w_files w"
    by (auto simp: fis_load_identity_def act_bind_def dest: fis_load_dto_facts(1)
        split: prod.splits sum.splits option.splits)
  show "fis_readable D st w site \<and> y = map_option fst (fis_content D st w site)" if "r = Inr y"
    using assms that
    by (auto simp: fis_load_identity_def action_elims result_inv fis_readable_def fis_content_def
        dest!: fis_load_dto_facts(2) split: option.splits)
qed

lemma fis_load_identity_inv:
  assumes "fis_inv D st w" and "fis_load_identity D st site w = (r, w')"
  shows "fis_inv D st w'"
  using fis_same_files(2) [OF fis_load_identity_run(1) [OF assms(2)], of D st] assms(1)
  by (rule iffD2)

interpretation fis: identity_store "fis_inv D st" "fis_load_identity D st" "fis_apply D st"
  "fis_content D st"
proof
  fix w site x w'
  assume "fis_load_identity D st site w = (Inr x, w')"
  from fis_load_identity_run(2) [OF this refl]
  show "x = map_option fst (fis_content D st w site)" by (rule conjunct2)
next
  fix w site r w'
  assume "fis_inv D st w" "fis_load_identity D st site w = (r, w')"
  then show "fis_inv D st w'" by (rule fis_load_identity_inv)
next
  fix w site r w'
  assume "fis_load_identity D st site w = (r, w')"
  then show "fis_content D st w' = fis_content D st w"
    by (rule fis_same_files(1) [OF fis_load_identity_run(1)])
next
  fix w site i u w'
  assume "fis_inv D st w" "fis_apply D st site i w = (Inr u, w')"
  then show "fis_content D st w' =
      (fis_content D st w)(site := intent_effect i (fis_content D st w site))"
    by (rule fis_apply_Ok)
next
  fix w site i e w'
  assume "fis_inv D st w" "fis_apply D st site i w = (Inl e, w')"
  then show "fis_content D st w' = fis_content D st w"
    by (rule fis_apply_Err [OF conjunct1 [OF iffD1 [OF fis_inv_def]]])
next
  fix w site i q w'
  assume "fis_inv D st w" "fis_apply D st site i w = (q, w')"
  then show "fis_inv D st w'" by (rule fis_apply_inv)
qed

section \<open>The history store\<close>

record FileHistoryStore =
  fhs_root :: StoreRoot

definition fhs_new :: "StoreRoot \<Rightarrow> FileHistoryStore" where
  "fhs_new root = \<lparr>fhs_root = root\<rparr>"

definition fhs_path ::
  "('on, 'pk, 'ts, 'rk, 'z) store_deps_scheme \<Rightarrow> FileHistoryStore \<Rightarrow> 'pk \<Rightarrow> path" where
  "fhs_path D st publisher = history_path (pk_display D) (fhs_root st) publisher"

definition fhs_load_dto ::
  "('on, 'pk, 'ts, 'rk, 'z) store_deps_scheme \<Rightarrow> FileHistoryStore \<Rightarrow> 'pk \<Rightarrow>
   (world, StoreError, ('ts, 'rk) HistoryDto option) action" where
  "fhs_load_dto D st publisher =
     load_checked ''decode history: '' (history_codec D) history_check_version D (fhs_root st)
       (fhs_path D st publisher)"

definition fhs_load_history ::
  "('on, 'pk, 'ts, 'rk, 'z) store_deps_scheme \<Rightarrow> FileHistoryStore \<Rightarrow> 'pk \<Rightarrow>
   (world, StoreError, ('ts, 'rk) PublisherHistory) action" where
  "fhs_load_history D st publisher =
     act_bind (fhs_load_dto D st publisher) (\<lambda>x. case x of
         None \<Rightarrow> act_return ph_new
       | Some dto \<Rightarrow> act_bind (act_lift (into_records D (hd_records dto)))
           (\<lambda>records. act_return (from_records_newest_first records)))"

definition fhs_append_record ::
  "('on, 'pk, 'ts, 'rk, 'z) store_deps_scheme \<Rightarrow> FileHistoryStore \<Rightarrow> 'pk \<Rightarrow>
   ('ts, 'rk) RetainedManifestRecord \<Rightarrow> (world, StoreError, unit) action" where
  "fhs_append_record D st publisher record =
     act_bind (fhs_load_dto D st publisher) (\<lambda>x.
       let records = (case x of None \<Rightarrow> [] | Some d \<Rightarrow> hd_records d);
           dto = \<lparr>hd_v = HISTORY_V, hd_records = from_record D record # records\<rparr>
       in write_json ''encode history: '' (history_codec D) D (fhs_root st)
            (fhs_path D st publisher) dto)"

definition fhs_dto_at ::
  "('on, 'pk, 'ts, 'rk, 'z) store_deps_scheme \<Rightarrow> FileHistoryStore \<Rightarrow> world \<Rightarrow> 'pk \<Rightarrow>
   StoreError + ('ts, 'rk) HistoryDto option" where
  "fhs_dto_at D st w publisher =
     dto_at ''decode history: '' (history_codec D) history_check_version D (fhs_root st)
       (fhs_path D st publisher) w"

text \<open>What a publisher's file holds, as the records it decodes to.\<close>

definition fhs_records_at ::
  "('on, 'pk, 'ts, 'rk, 'z) store_deps_scheme \<Rightarrow> FileHistoryStore \<Rightarrow> world \<Rightarrow> 'pk \<Rightarrow>
   StoreError + ('ts, 'rk) RetainedManifestRecord list" where
  "fhs_records_at D st w publisher =
     result_bind (fhs_dto_at D st w publisher) (\<lambda>x. case x of
         None \<Rightarrow> Inr []
       | Some d \<Rightarrow> into_records D (hd_records d))"

definition fhs_content ::
  "('on, 'pk, 'ts, 'rk, 'z) store_deps_scheme \<Rightarrow> FileHistoryStore \<Rightarrow> world \<Rightarrow> 'pk \<Rightarrow>
   ('ts, 'rk) RetainedManifestRecord list" where
  "fhs_content D st w publisher =
     (case fhs_records_at D st w publisher of Inl _ \<Rightarrow> [] | Inr rs \<Rightarrow> rs)"

definition fhs_inv ::
  "('on, 'pk, 'ts, 'rk, 'z) store_deps_scheme \<Rightarrow> FileHistoryStore \<Rightarrow> world \<Rightarrow> bool" where
  "fhs_inv D st w \<longleftrightarrow>
     store_deps_ok D \<and> (\<forall>publisher. is_ok (fhs_records_at D st w publisher))"

lemma fhs_path_facts:
  "fhs_path D st p \<noteq> []" "last (fhs_path D st p) \<noteq> []" "not_tmp (fhs_path D st p)"
  by (simp_all add: fhs_path_def)

lemma fhs_load_dto_files:
  "fhs_load_dto D st p w = (r, w') \<Longrightarrow> w_files w' = w_files w"
  unfolding fhs_load_dto_def using load_checked_frame by blast

lemma fhs_load_dto_Ok:
  "fhs_load_dto D st p w = (Inr x, w') \<Longrightarrow> fhs_dto_at D st w p = Inr x"
  unfolding fhs_load_dto_def fhs_dto_at_def by (rule load_checked_Ok)

lemma fhs_files:
  assumes "w_files w' (fhs_path D st p) = w_files w (fhs_path D st p)"
  shows "fhs_records_at D st w' p = fhs_records_at D st w p"
  unfolding fhs_records_at_def fhs_dto_at_def by (simp only: dto_at_files [OF assms])

lemma fhs_same_records:
  assumes "\<And>p. fhs_records_at D st w' p = fhs_records_at D st w p"
  shows "fhs_content D st w' = fhs_content D st w \<and> (fhs_inv D st w' \<longleftrightarrow> fhs_inv D st w)"
  by (simp add: fhs_content_def fhs_inv_def fun_eq_iff assms)

lemma fhs_same_files:
  assumes "w_files w' = w_files w"
  shows "fhs_content D st w' = fhs_content D st w \<and> (fhs_inv D st w' \<longleftrightarrow> fhs_inv D st w)"
  by (rule fhs_same_records) (rule fhs_files, simp add: assms)

lemma fhs_load_history_files:
  "fhs_load_history D st p w = (r, w') \<Longrightarrow> w_files w' = w_files w"
  by (auto simp: fhs_load_history_def act_bind_def dest: fhs_load_dto_files
      split: prod.splits sum.splits option.splits)

lemma fhs_load_history_Ok:
  "fhs_load_history D st p w = (Inr h, w') \<Longrightarrow> fhs_records_at D st w p = Inr (records h)"
  by (auto simp: fhs_load_history_def fhs_records_at_def action_elims records_def ph_new_def
      from_records_newest_first_def dest!: fhs_load_dto_Ok split: option.splits)

lemma fhs_append_other:
  assumes D: "store_deps_ok D" and a: "fhs_append_record D st p r w = (q, w')"
    and other: "p' \<noteq> p \<or> (\<exists>e. q = Inl e)"
  shows "w_files w' (fhs_path D st p') = w_files w (fhs_path D st p')"
proof -
  obtain l w1 where l: "fhs_load_dto D st p w = (l, w1)" by (cases "fhs_load_dto D st p w")
  note f = fhs_load_dto_files [OF l]
  show ?thesis
  proof (cases l)
    case (Inl e)
    with a l f show ?thesis by (simp add: fhs_append_record_def act_bind_def)
  next
    case (Inr x)
    with a l obtain dto where w: "write_json ''encode history: '' (history_codec D) D (fhs_root st)
        (fhs_path D st p) dto w1 = (q, w')"
      by (simp add: fhs_append_record_def act_bind_def Let_def)
    note path = fhs_path_facts [of D st] and P = store_deps_okD(1) [OF D]
    have "w_files w' (fhs_path D st p') = w_files w1 (fhs_path D st p')"
    proof (cases "p' = p")
      case True
      with other obtain e where "q = Inl e" by blast
      from write_json_Err [OF P path w [unfolded this]] show ?thesis .
    next
      case False
      then have "fhs_path D st p' \<noteq> fhs_path D st p" using D by (simp add: fhs_path_def)
      from write_json_other [OF P path this w] show ?thesis .
    qed
    with f show ?thesis by simp
  qed
qed

lemma fhs_append_Ok:
  assumes D: "store_deps_ok D" and a: "fhs_append_record D st p r w = (Inr u, w')"
    and r: "record_ok r" and rs: "fhs_records_at D st w p = Inr rs"
  shows "fhs_records_at D st w' p = Inr (r # rs)"
proof -
  from a obtain x w1 where l: "fhs_load_dto D st p w = (Inr x, w1)"
    and w: "write_json ''encode history: '' (history_codec D) D (fhs_root st) (fhs_path D st p)
      \<lparr>hd_v = HISTORY_V, hd_records = from_record D r #
         (case x of None \<Rightarrow> [] | Some d \<Rightarrow> hd_records d)\<rparr> w1 = (Inr u, w')"
    by (auto simp: fhs_append_record_def action_elims Let_def)
  have "fhs_dto_at D st w' p = Inr (Some \<lparr>hd_v = HISTORY_V, hd_records = from_record D r #
      (case x of None \<Rightarrow> [] | Some d \<Rightarrow> hd_records d)\<rparr>)"
    unfolding fhs_dto_at_def
    by (rule write_json_Ok [OF store_deps_okD(1,3) [OF D] _ w]) (simp add: history_check_version_def)
  moreover from rs have "into_records D (case x of None \<Rightarrow> [] | Some d \<Rightarrow> hd_records d) = Inr rs"
    by (cases x) (simp_all add: fhs_records_at_def fhs_load_dto_Ok [OF l])
  ultimately show ?thesis
    by (simp add: fhs_records_at_def into_from_record [OF store_deps_okD(1) [OF D] r])
qed

lemma fhs_append_spec:
  assumes inv: "fhs_inv D st w" and a: "fhs_append_record D st p r w = (q, w')"
  shows "q = Inl e \<Longrightarrow> fhs_content D st w' = fhs_content D st w"
    and "q = Inr () \<Longrightarrow> record_ok r \<Longrightarrow>
      fhs_content D st w' = (fhs_content D st w)(p := r # fhs_content D st w p)"
    and "record_ok r \<Longrightarrow> fhs_inv D st w'"
proof -
  have D: "store_deps_ok D" using inv by (simp add: fhs_inv_def)
  note other = fhs_files [OF fhs_append_other [OF D a]]
  have err: "fhs_content D st w' = fhs_content D st w \<and> (fhs_inv D st w' \<longleftrightarrow> fhs_inv D st w)"
    if "q = Inl e" for e
    by (rule fhs_same_records) (rule other, simp add: that)
  then show "fhs_content D st w' = fhs_content D st w" if "q = Inl e" using that by blast
  obtain rs where rs: "fhs_records_at D st w p = Inr rs"
    using inv by (cases "fhs_records_at D st w p") (auto simp: fhs_inv_def is_ok_def split: sum.splits)
  have new: "fhs_records_at D st w' p = Inr (r # rs)" if "q = Inr ()" "record_ok r"
    by (rule fhs_append_Ok [OF D a [unfolded that(1)] that(2) rs])
  then show "fhs_content D st w' = (fhs_content D st w)(p := r # fhs_content D st w p)"
    if "q = Inr ()" "record_ok r"
    using that other rs by (auto simp: fun_eq_iff fhs_content_def)
  show "fhs_inv D st w'" if "record_ok r"
  proof (cases q)
    case (Inl e)
    with err inv show ?thesis by blast
  next
    case (Inr u)
    have "is_ok (fhs_records_at D st w' p')" for p'
      using other [of p'] new inv Inr that by (cases "p' = p") (simp_all add: fhs_inv_def)
    with D show ?thesis by (simp add: fhs_inv_def)
  qed
qed

interpretation fhs: history_store "fhs_inv D st" record_ok "fhs_load_history D st"
  "fhs_append_record D st" "fhs_content D st"
proof
  fix w p h w'
  assume "fhs_load_history D st p w = (Inr h, w')"
  then show "records h = fhs_content D st w p"
    by (simp add: fhs_content_def fhs_load_history_Ok)
next
  fix w p q w'
  assume "fhs_inv D st w" "fhs_load_history D st p w = (q, w')"
  then show "fhs_inv D st w'" using fhs_same_files [OF fhs_load_history_files, of D st p w q w' D st]
    by simp
next
  fix w p q w'
  assume "fhs_load_history D st p w = (q, w')"
  then show "fhs_content D st w' = fhs_content D st w"
    by (rule conjunct1 [OF fhs_same_files [OF fhs_load_history_files]])
next
  fix w p r u w'
  assume "fhs_inv D st w" "record_ok r" "fhs_append_record D st p r w = (Inr u, w')"
  then show "fhs_content D st w' = (fhs_content D st w)(p := r # fhs_content D st w p)"
    by (simp add: fhs_append_spec(2))
next
  fix w p r e w'
  assume "fhs_inv D st w" "fhs_append_record D st p r w = (Inl e, w')"
  then show "fhs_content D st w' = fhs_content D st w"
    by (rule fhs_append_spec(1)) (rule refl)
next
  fix w p r v w'
  assume "fhs_inv D st w" "record_ok r" "fhs_append_record D st p r w = (v, w')"
  then show "fhs_inv D st w'" by (simp add: fhs_append_spec(3))
qed

interpretation fhs_ordered: ordered_history_store "fhs_inv D st" record_ok "fhs_load_history D st"
  "fhs_append_record D st" "fhs_content D st"
  by unfold_locales

section \<open>Failing closed\<close>

text \<open>
  A site's file that is not authentic, does not decode or has another version makes every
  operation that would read it fail, and the failing operation writes nothing.
\<close>

lemma fis_load_dto_corrupt:
  assumes "fis_dto_at D st w site = Inl e"
  shows "\<exists>e' w'. fis_load_dto D st site w = (Inl e', w') \<and> touches {} w w'"
proof (cases "fis_load_dto D st site w")
  case (Pair r w')
  moreover have "touches {} w w'"
    using Pair load_checked_touches unfolding fis_load_dto_def by blast
  ultimately show ?thesis
    using assms fis_load_dto_facts(2) [OF Pair] by (cases r) auto
qed

lemma fis_corrupt_closed:
  assumes "fis_dto_at D st w site = Inl e"
  shows "\<exists>e' w'. fis_load_identity D st site w = (Inl e', w') \<and> touches {} w w'"
    and "i \<noteq> None_intent \<Longrightarrow> \<exists>e' w'. fis_apply D st site i w = (Inl e', w') \<and> touches {} w w'"
proof -
  obtain e' w' where l: "fis_load_dto D st site w = (Inl e', w')" and t: "touches {} w w'"
    using fis_load_dto_corrupt [OF assms] by blast
  with t show "\<exists>e' w'. fis_load_identity D st site w = (Inl e', w') \<and> touches {} w w'"
    by (simp add: fis_load_identity_def act_bind_def)
  show "\<exists>e' w'. fis_apply D st site i w = (Inl e', w') \<and> touches {} w w'" if "i \<noteq> None_intent"
    using that l t by (cases i) (simp_all add: act_bind_def)
qed

text \<open>
  A record with a version the store knows but an invalid provenance shape is refused by a
  load and by a pin, but an external verification and a replacement overwrite it: they never
  convert the old record.
\<close>

lemma fis_invalid_shape:
  assumes "fis_dto_at D st w site = Inr (Some d)" and "to_identity d = Inl e"
  shows "fis_load_identity D st site w = (r, w') \<Longrightarrow> \<not> is_ok r"
    and "fis_apply D st site (PinIdentity k) w = (q, w') \<Longrightarrow> \<not> is_ok q \<and> w_files w' = w_files w"
proof -
  obtain l w1 where l: "fis_load_dto D st site w = (l, w1)" by (cases "fis_load_dto D st site w")
  note f = fis_load_dto_facts(1) [OF l]
  have x: "x = Some d" if "l = Inr x" for x
    using fis_load_dto_facts(2) [OF l that] assms(1) by simp
  show "\<not> is_ok r" if "fis_load_identity D st site w = (r, w')"
    using that l x assms(2) by (cases l) (auto simp: fis_load_identity_def act_bind_def)
  show "\<not> is_ok q \<and> w_files w' = w_files w"
    if "fis_apply D st site (PinIdentity k) w = (q, w')"
    using that l x assms(2) f by (cases l) (auto simp: act_bind_def)
qed

lemma fis_verify_overwrites:
  assumes "store_deps_ok D"
    and "fis_apply D st site (MarkExternallyVerified k) w = (Inr u, w')"
  shows "\<exists>ks. fis_content D st w' site = Some (\<lparr>pubkey = k, provenance = ExternallyVerified_prov\<rparr>, ks)"
proof -
  from assms(2) obtain x w1 where "fis_write_dto D st site (identity_dto_new
      \<lparr>pubkey = k, provenance = ExternallyVerified_prov\<rparr> (replaced_or_default x)) w1 = (Inr u, w')"
    by (auto simp: action_elims)
  from fis_write_Ok(1) [OF assms(1) this] show ?thesis by simp
qed

text \<open>
  What the integrity envelope does not bind: the path. A file that is authentic at one
  site's path is accepted at another's, and a missing file is a first contact.
\<close>

lemma fis_relocated:
  assumes "w_files w (fis_path D st b) = w_files w (fis_path D st a)"
  shows "fis_content D st w b = fis_content D st w a" and "fis_readable D st w b = fis_readable D st w a"
  using assms
  by (simp_all add: fis_content_def fis_readable_def fis_dto_at_def dto_at_def protected_content_def)

lemma fis_removed:
  "w_files w (fis_path D st site) = None \<Longrightarrow> fis_dto_at D st w site = Inr None"
  by (simp add: fis_dto_at_def dto_at_def protected_content_def)

text \<open>In Integrity mode an accepted record carries a tag made with the store's key.\<close>

lemma dto_at_authentic:
  assumes "protect_deps_ok D" and "root_protector root = Integrity_protector k"
    and "dto_at msg c check D root p w = Inr (Some dto)"
  shows "\<exists>f env payload tag. w_files w p = Some f \<and>
    from_slice (envelope_codec D) (contents f) = Inr env \<and>
    b64_decode D (ie_payload_b64 env) = Inr payload \<and> b64_decode D (ie_mac_b64 env) = Inr tag \<and>
    hmac_tag D k payload = Inr tag \<and> from_slice c payload = Inr dto"
proof -
  from assms(3) obtain payload where pc: "protected_content D root p w = Inr (Some payload)"
    and c: "from_slice c payload = Inr dto"
    by (auto simp: dto_at_def result_inv split: option.splits)
  then obtain f where f: "w_files w p = Some f"
    and o: "open_sealed D (Integrity_protector k) (contents f) = Inr payload"
    by (auto simp: protected_content_def result_inv assms(2) split: option.splits)
  from open_integrity_authentic [OF assms(1) o] f c show ?thesis by metis
qed

section \<open>The two stores under one root\<close>

lemma fis_apply_other:
  assumes "store_deps_ok D" and "fis_apply D st site i w = (r, w')"
    and "not_tmp q" and "q \<noteq> fis_path D st site"
  shows "w_files w' q = w_files w q"
  using assms(2)
proof (cases rule: fis_apply_run)
  case (written x w1 ident ks)
  have "w_files w' q = w_files w1 q"
    by (rule write_json_other [OF store_deps_okD(1) [OF assms(1)] fis_path_facts(1,2) assms(3,4)
          written(3) [unfolded fis_write_dto_def]])
  then show ?thesis by (simp add: fis_load_dto_facts(1) [OF written(1)])
qed (simp_all add: fis_load_dto_facts(1))

lemma fis_apply_keeps_history:
  assumes "store_deps_ok D" and "fis_apply D st site i w = (r, w')"
  shows "fhs_content D hst w' = fhs_content D hst w \<and> (fhs_inv D hst w' \<longleftrightarrow> fhs_inv D hst w)"
proof (rule fhs_same_records)
  show "fhs_records_at D hst w' p = fhs_records_at D hst w p" for p
    by (rule fhs_files, rule fis_apply_other [OF assms fhs_path_facts(3)])
      (simp add: fhs_path_def fis_path_def history_path_def identity_path_def path_join_def)
qed

lemma fhs_append_other_file:
  assumes "store_deps_ok D" and "fhs_append_record D hst p rec w = (r, w')"
    and "not_tmp q" and "q \<noteq> fhs_path D hst p"
  shows "w_files w' q = w_files w q"
proof -
  obtain l w1 where l: "fhs_load_dto D hst p w = (l, w1)" by (cases "fhs_load_dto D hst p w")
  show ?thesis
  proof (cases l)
    case (Inl e)
    with assms(2) l show ?thesis
      by (auto simp: fhs_append_record_def act_bind_def fhs_load_dto_files)
  next
    case (Inr x)
    with assms(2) l obtain dto where w: "write_json ''encode history: '' (history_codec D) D
        (fhs_root hst) (fhs_path D hst p) dto w1 = (r, w')"
      by (simp add: fhs_append_record_def act_bind_def Let_def)
    have "w_files w' q = w_files w1 q"
      by (rule write_json_other [OF store_deps_okD(1) [OF assms(1)] fhs_path_facts(1,2) assms(3,4) w])
    then show ?thesis by (simp add: fhs_load_dto_files [OF l])
  qed
qed

lemma fhs_append_identity_file:
  assumes "store_deps_ok D" and "fhs_append_record D hst p rec w = (r, w')"
  shows "w_files w' (fis_path D st site) = w_files w (fis_path D st site)"
  by (rule fhs_append_other_file [OF assms fis_path_facts(3)])
    (simp add: fhs_path_def fis_path_def history_path_def identity_path_def path_join_def)

lemma fhs_append_keeps_identities:
  fixes D :: "('on, 'pk, 'ts, 'rk, 'z) store_deps_scheme"
  assumes "store_deps_ok D" and "fhs_append_record D hst p rec w = (r, w')"
  shows "fis_content D st w' = fis_content D st w" and "fis_inv D st w' \<longleftrightarrow> fis_inv D st w"
proof -
  have f: "fis_content D st w' site = fis_content D st w site"
    "fis_readable D st w' site = fis_readable D st w site" for site
    by (rule fis_files, rule fhs_append_identity_file [OF assms])+
  show "fis_content D st w' = fis_content D st w" by (rule ext) (rule f)
  show "fis_inv D st w' \<longleftrightarrow> fis_inv D st w" unfolding fis_inv_def f(2) by (rule refl)
qed

section \<open>Across sessions\<close>

text \<open>
  A store opened in Integrity mode leaves its key on disk; nothing the stores do touches it,
  so the next session opens the same store.
\<close>

lemma open_integrity_key:
  assumes "root_deps_ok D" and "open_integrity D base w = (Inr root, w')"
  shows "root_base root = base \<and> (\<exists>f. w_files w' (key_path base) = Some f \<and>
    root_protector root = Integrity_protector (contents f))"
proof (cases "w_files w (key_path base)")
  case None
  from open_integrity_new [OF assms None] show ?thesis by auto
next
  case (Some f)
  with open_integrity_existing [OF assms(2) Some] show ?thesis by (simp add: touches_nothing)
qed

lemma fis_visit_keeps_key:
  assumes "store_deps_ok D" and "root_base (fis_root st) = base"
    and "store_visit (fis_load_identity D st) (fis_apply D st) site k d w = (Inr res, w')"
  shows "w_files w' (key_path base) = w_files w (key_path base)"
proof -
  from assms(3) obtain x w1 u where l: "fis_load_identity D st site w = (Inr x, w1)"
    and a: "fis_apply D st site (res_intent res) w1 = (Inr u, w')"
    by (auto simp: store_visit_def Let_def action_elims)
  have "key_path base \<noteq> fis_path D st site"
    by (simp add: fis_path_def assms(2) identity_path_def key_path_def path_join_def)
  from fis_apply_other [OF assms(1) a not_tmp_key this] fis_load_identity_run(1) [OF l]
  show ?thesis by simp
qed

lemma reopen_after_visit:
  assumes D: "store_deps_ok D" and o: "open_integrity D base w = (Inr root, w1)"
    and v: "store_visit (fis_load_identity D (fis_new root)) (fis_apply D (fis_new root)) site k d w1
      = (Inr res, w2)"
    and o2: "open_integrity D base w2 = (Inr root2, w3)"
  shows "root2 = root \<and> w_files w3 = w_files w2"
proof -
  have "root_deps_ok D" using D by (simp add: store_deps_ok_def)
  from open_integrity_key [OF this o] obtain f where b: "root_base root = base"
    and f: "w_files w1 (key_path base) = Some f"
    and k: "root_protector root = Integrity_protector (contents f)" by blast
  have "w_files w2 (key_path base) = Some f"
    using fis_visit_keeps_key [OF D _ v, of base] b f by (simp add: fis_new_def)
  from open_integrity_existing [OF o2 this] b k show ?thesis
    by (cases root) (simp add: touches_nothing)
qed

text \<open>Opening a store leaves its records as they are.\<close>

lemma open_keeps_identities:
  assumes D: "store_deps_ok D" and b: "root_base (fis_root st) = base"
    and o: "open_integrity D base w = (r, w')"
  shows "fis_content D st w' = fis_content D st w" and "fis_inv D st w' \<longleftrightarrow> fis_inv D st w"
proof -
  have "keeps (fis_path D st site) (open_integrity D base)" for site
    by (rule open_integrity_keeps [OF store_deps_okD(1) [OF D] fis_path_facts(3)])
      (simp_all add: fis_path_def identity_path_def key_path_def meta_path_def path_join_def b)
  then have "w_files w' (fis_path D st site) = w_files w (fis_path D st site)" for site
    using o by (rule keepsD)
  note f = fis_files(2,3) [OF this]
  show "fis_content D st w' = fis_content D st w" by (rule ext) (rule f)
  show "fis_inv D st w' \<longleftrightarrow> fis_inv D st w" unfolding fis_inv_def f(2) by (rule refl)
qed

end
