(* ===== verification/Chrome.thy ===== *)
theory Chrome
  imports Trust
begin

text \<open>
  The chrome model, \<open>crates/entangled-client/src/chrome.rs\<close>: what the always-visible part of
  the window shows for a trust state, a canary state and the observed conditions. The PIP
  derivation is the core's and an argument.
\<close>

section \<open>Data\<close>

definition PIP_LABEL :: ustring where
  "PIP_LABEL = lit ''publisher identity phrase''"

record ChromeConditions =
  cond_canary_conflict :: bool
  cond_canary_gap :: bool
  cond_historical_content :: bool
  cond_stale_cached :: bool
  cond_request_state_active :: bool

text \<open>\<open>ChromeConditions::default()\<close>, the derived default of a struct of Booleans.\<close>

definition chrome_conditions_default :: ChromeConditions where
  "chrome_conditions_default =
     \<lparr>cond_canary_conflict = False, cond_canary_gap = False, cond_historical_content = False,
      cond_stale_cached = False, cond_request_state_active = False\<rparr>"

datatype Warning =
    TrustMismatch | CanaryConflict | CanaryExpired | CanaryInvalid | CanaryGap
  | HistoricalContent | StaleCachedContent

record ChromeView =
  cv_trust_state :: TrustState
  cv_carrier_address_compact :: ustring
  cv_canary_state :: CanaryState
  cv_pip_label :: ustring
  cv_pip :: ustring
  cv_pip_must_be_fully_shown :: bool
  cv_warnings :: "Warning list"
  cv_request_state_active :: bool

section \<open>Building the view\<close>

definition chrome_build ::
  "('pk \<Rightarrow> ustring) \<Rightarrow> 'pk \<Rightarrow> TrustState \<Rightarrow> CanaryState \<Rightarrow> ustring \<Rightarrow> ChromeConditions \<Rightarrow>
   ChromeView" where
  "chrome_build pip_of publisher trust_state canary_state carrier_address_compact conditions =
     (let warnings = [];
          warnings = (if trust_state = ChangedMismatch then warnings @ [TrustMismatch] else warnings);
          warnings = (if cond_canary_conflict conditions then warnings @ [CanaryConflict]
                      else warnings);
          warnings = (case canary_state of
                        Expired \<Rightarrow> warnings @ [CanaryExpired]
                      | Invalid \<Rightarrow> warnings @ [CanaryInvalid]
                      | _ \<Rightarrow> warnings);
          warnings = (if cond_canary_gap conditions then warnings @ [CanaryGap] else warnings);
          warnings = (if cond_historical_content conditions then warnings @ [HistoricalContent]
                      else warnings);
          warnings = (if cond_stale_cached conditions then warnings @ [StaleCachedContent]
                      else warnings);
          pip_must_be_fully_shown =
            (case trust_state of FirstContact \<Rightarrow> True | ChangedMismatch \<Rightarrow> True | _ \<Rightarrow> False)
      in \<lparr>cv_trust_state = trust_state, cv_carrier_address_compact = carrier_address_compact,
          cv_canary_state = canary_state, cv_pip_label = PIP_LABEL, cv_pip = pip_of publisher,
          cv_pip_must_be_fully_shown = pip_must_be_fully_shown, cv_warnings = warnings,
          cv_request_state_active = cond_request_state_active conditions\<rparr>)"

section \<open>The specification: which warnings hold, in which order\<close>

fun warning_holds :: "TrustState \<Rightarrow> CanaryState \<Rightarrow> ChromeConditions \<Rightarrow> Warning \<Rightarrow> bool" where
  "warning_holds t c cs TrustMismatch = (t = ChangedMismatch)"
| "warning_holds t c cs CanaryConflict = cond_canary_conflict cs"
| "warning_holds t c cs CanaryExpired = (c = Expired)"
| "warning_holds t c cs CanaryInvalid = (c = Invalid)"
| "warning_holds t c cs CanaryGap = cond_canary_gap cs"
| "warning_holds t c cs HistoricalContent = cond_historical_content cs"
| "warning_holds t c cs StaleCachedContent = cond_stale_cached cs"

definition all_warnings :: "Warning list" where
  "all_warnings = [TrustMismatch, CanaryConflict, CanaryExpired, CanaryInvalid, CanaryGap,
     HistoricalContent, StaleCachedContent]"

lemma chrome_build_warnings:
  "cv_warnings (chrome_build pip_of p t c addr cs) = filter (warning_holds t c cs) all_warnings"
  by (cases c) (simp_all add: chrome_build_def all_warnings_def Let_def)

lemma chrome_build_fields [simp]:
  "cv_trust_state (chrome_build pip_of p t c addr cs) = t"
  "cv_canary_state (chrome_build pip_of p t c addr cs) = c"
  "cv_pip (chrome_build pip_of p t c addr cs) = pip_of p"
  "cv_pip_label (chrome_build pip_of p t c addr cs) = PIP_LABEL"
  "cv_carrier_address_compact (chrome_build pip_of p t c addr cs) = addr"
  "cv_request_state_active (chrome_build pip_of p t c addr cs) = cond_request_state_active cs"
  "cv_pip_must_be_fully_shown (chrome_build pip_of p t c addr cs) \<longleftrightarrow>
     t = FirstContact \<or> t = ChangedMismatch"
  by (simp_all add: chrome_build_def Let_def split: TrustState.splits)

lemma set_all_warnings [simp]: "w \<in> set all_warnings"
  by (cases w) (simp_all add: all_warnings_def)

lemma distinct_all_warnings [simp]: "distinct all_warnings"
  by (simp add: all_warnings_def)

text \<open>Whenever a prompt is open, the whole phrase is on the screen.\<close>

lemma resolve_prompt_shows_pip:
  "res_action (resolve k retained d) \<noteq> None_action \<Longrightarrow>
     res_state (resolve k retained d) = FirstContact \<or>
     res_state (resolve k retained d) = ChangedMismatch"
  by (cases retained; cases d)
    (auto simp: resolve_def matched_def split: RetainedProvenance.splits if_splits)

end
