(* ===== verification/Image.thy ===== *)
theory Image
  imports Core_Api
begin

text \<open>
  The image-resource policy, \<open>crates/entangled-client/src/image.rs\<close>: the decoded-pixel budget
  (64-bit, \<open>ImageBudget\<close>), the set of failed triples (\<open>NoRetrySet\<close>), the ordered checks of
  \<open>run_checks\<close> and the entry points \<open>verify_image\<close> and \<open>fetch_failed\<close>. The decoder is the
  shell's (\<open>trait Decoder\<close>), so it is an argument; the hash and the renderings of \<open>src\<close> and
  \<open>sha256\<close> belong to the core and the engine and are the record \<open>image_api\<close>.
\<close>

section \<open>What the policy takes from other crates\<close>

record ('p, 'sh) image_api =
  sha256_image :: "bytes \<Rightarrow> 'sh"
  src_as_str :: "'p \<Rightarrow> ustring"
  sha256_display :: "'sh \<Rightarrow> ustring"

record ('p, 'sh) ImageRef =
  img_src :: 'p
  img_sha256 :: 'sh
  img_media_type :: ImageMediaType
  img_width :: "32 word"
  img_height :: "32 word"
  img_alt :: ustring
  img_caption :: "ustring option"

record Decoded =
  dec_width :: "32 word"
  dec_height :: "32 word"
  dec_animated :: bool

datatype DecodeError = DecodeError

text \<open>\<open>trait Decoder\<close>, as the function \<open>decode\<close> of one decoder.\<close>

type_synonym decoder = "bytes \<Rightarrow> ImageMediaType \<Rightarrow> DecodeError + Decoded"

section \<open>Constants and the pixel budget\<close>

definition MAX_IMAGE_BYTES :: nat where
  "MAX_IMAGE_BYTES = 2 * 1024 * 1024"

definition MAX_DECODED_PIXELS :: "64 word" where
  "MAX_DECODED_PIXELS = 16777216"

record ImageBudget =
  used :: "64 word"

definition budget_new :: ImageBudget where
  "budget_new = \<lparr>used = 0\<rparr>"

text \<open>\<open>u64::checked_add\<close>: \<open>None\<close> when the sum does not fit in 64 bits.\<close>

definition checked_add_u64 :: "64 word \<Rightarrow> 64 word \<Rightarrow> 64 word option" where
  "checked_add_u64 a b = (if unat a + unat b < 2 ^ 64 then Some (a + b) else None)"

definition try_charge :: "ImageBudget \<Rightarrow> 32 word \<Rightarrow> 32 word \<Rightarrow> bool \<times> ImageBudget" where
  "try_charge b width height =
     (let pixels = ucast width * ucast height
      in case checked_add_u64 (used b) pixels of
           Some new_total \<Rightarrow>
             if new_total \<le> MAX_DECODED_PIXELS then (True, b\<lparr>used := new_total\<rparr>)
             else (False, b)
         | None \<Rightarrow> (False, b))"

section \<open>Media types and content types\<close>

fun media_type_str :: "ImageMediaType \<Rightarrow> ustring" where
  "media_type_str Png = lit ''image/png''"
| "media_type_str Jpeg = lit ''image/jpeg''"
| "media_type_str Webp = lit ''image/webp''"

text \<open>\<open>char::is_whitespace\<close> (Unicode White_Space), \<open>str::trim\<close>, \<open>to_ascii_lowercase\<close>.\<close>

definition is_whitespace :: "nat \<Rightarrow> bool" where
  "is_whitespace c \<longleftrightarrow>
     (9 \<le> c \<and> c \<le> 13) \<or> c = 32 \<or> c = 0x85 \<or> c = 0xA0 \<or> c = 0x1680 \<or>
     (0x2000 \<le> c \<and> c \<le> 0x200A) \<or> c = 0x2028 \<or> c = 0x2029 \<or> c = 0x202F \<or>
     c = 0x205F \<or> c = 0x3000"

definition str_trim :: "ustring \<Rightarrow> ustring" where
  "str_trim s = rev (dropWhile is_whitespace (rev (dropWhile is_whitespace s)))"

definition to_ascii_lowercase :: "ustring \<Rightarrow> ustring" where
  "to_ascii_lowercase s = map (\<lambda>c. if 65 \<le> c \<and> c \<le> 90 then c + 32 else c) s"

text \<open>\<open>split(';').next().unwrap_or("")\<close>: the part before the first semicolon.\<close>

definition before_semicolon :: "ustring \<Rightarrow> ustring" where
  "before_semicolon s = takeWhile (\<lambda>c. c \<noteq> 59) s"

definition content_type_matches :: "ustring \<Rightarrow> ImageMediaType \<Rightarrow> bool" where
  "content_type_matches content_type declared \<longleftrightarrow>
     to_ascii_lowercase (str_trim (before_semicolon content_type)) = media_type_str declared"

section \<open>The set of failed triples\<close>

record NoRetrySet =
  failed :: "ustring set"

definition no_retry_new :: NoRetrySet where
  "no_retry_new = \<lparr>failed = {}\<rparr>"

definition no_retry_key :: "('p, 'sh) image_api \<Rightarrow> ('p, 'sh) ImageRef \<Rightarrow> ustring" where
  "no_retry_key A img =
     src_as_str A (img_src img) @ [0] @ sha256_display A (img_sha256 img) @ [0] @
     media_type_str (img_media_type img)"

definition no_retry_contains ::
  "('p, 'sh) image_api \<Rightarrow> NoRetrySet \<Rightarrow> ('p, 'sh) ImageRef \<Rightarrow> bool" where
  "no_retry_contains A n img \<longleftrightarrow> no_retry_key A img \<in> failed n"

definition no_retry_record ::
  "('p, 'sh) image_api \<Rightarrow> NoRetrySet \<Rightarrow> ('p, 'sh) ImageRef \<Rightarrow> NoRetrySet" where
  "no_retry_record A n img = n\<lparr>failed := insert (no_retry_key A img) (failed n)\<rparr>"

section \<open>Verification\<close>

datatype ImageOutcome = ImgAccept Decoded | ImgReject DiagnosticCode

fun image_is_accepted :: "ImageOutcome \<Rightarrow> bool" where
  "image_is_accepted (ImgAccept _) = True"
| "image_is_accepted (ImgReject _) = False"

fun image_diagnostic :: "ImageOutcome \<Rightarrow> DiagnosticCode option" where
  "image_diagnostic (ImgReject c) = Some c"
| "image_diagnostic (ImgAccept _) = None"

definition run_checks ::
  "('p, 'sh) image_api \<Rightarrow> ('p, 'sh) ImageRef \<Rightarrow> bytes \<Rightarrow> ustring \<Rightarrow> decoder \<Rightarrow> ImageBudget \<Rightarrow>
   ImageOutcome \<times> ImageBudget" where
  "run_checks A img body content_type decode budget =
     (if \<not> content_type_matches content_type (img_media_type img) then
        (ImgReject WImageContentType, budget)
      else if length body > MAX_IMAGE_BYTES then (ImgReject WImageOversize, budget)
      else if sha256_image A body \<noteq> img_sha256 img then (ImgReject WImageHashMismatch, budget)
      else case decode body (img_media_type img) of
        Inl DecodeError \<Rightarrow> (ImgReject WImageDecodeFailed, budget)
      | Inr decoded \<Rightarrow>
          if dec_animated decoded then (ImgReject WImageDecodeFailed, budget)
          else if dec_width decoded \<noteq> img_width img \<or> dec_height decoded \<noteq> img_height img then
            (ImgReject WImageDimensions, budget)
          else (case try_charge budget (dec_width decoded) (dec_height decoded) of
                  (False, budget') \<Rightarrow> (ImgReject WImageBudget, budget')
                | (True, budget') \<Rightarrow> (ImgAccept decoded, budget')))"

definition verify_image ::
  "('p, 'sh) image_api \<Rightarrow> ('p, 'sh) ImageRef \<Rightarrow> bytes \<Rightarrow> ustring \<Rightarrow> decoder \<Rightarrow> ImageBudget \<Rightarrow>
   NoRetrySet \<Rightarrow> ImageOutcome \<times> ImageBudget \<times> NoRetrySet" where
  "verify_image A img body content_type decode budget no_retry =
     (if no_retry_contains A no_retry img then (ImgReject WImageDecodeFailed, budget, no_retry)
      else (case run_checks A img body content_type decode budget of (outcome, budget') \<Rightarrow>
        (outcome, budget',
         if \<not> image_is_accepted outcome then no_retry_record A no_retry img else no_retry)))"

definition fetch_failed ::
  "('p, 'sh) image_api \<Rightarrow> ('p, 'sh) ImageRef \<Rightarrow> NoRetrySet \<Rightarrow> ImageOutcome \<times> NoRetrySet" where
  "fetch_failed A img no_retry =
     (ImgReject WImageFetchFailed, no_retry_record A no_retry img)"

section \<open>The pixel budget\<close>

definition pixels :: "32 word \<Rightarrow> 32 word \<Rightarrow> nat" where
  "pixels w h = unat w * unat h"

lemma unat_ucast_32_64 [simp]: "unat (ucast w :: 64 word) = unat w" for w :: "32 word"
  using unsigned_less [of w, where 'a = nat]
  by (simp add: unsigned_ucast_eq take_bit_nat_eq_self)

lemma unat_pixels: "unat (ucast w * ucast h :: 64 word) = pixels w h"
  for w h :: "32 word"
proof -
  have "unat w < 2 ^ 32" "unat h < 2 ^ 32"
    using unsigned_less [of w] unsigned_less [of h] by simp_all
  then have "unat w * unat h < 2 ^ 32 * 2 ^ 32"
    by (intro mult_strict_mono) simp_all
  then show ?thesis
    by (simp add: unat_word_ariths pixels_def)
qed

lemma try_charge_iff:
  "try_charge b w h = (True, b') \<longleftrightarrow>
     unat (used b) + pixels w h \<le> unat MAX_DECODED_PIXELS \<and>
     b' = b\<lparr>used := used b + ucast w * ucast h\<rparr>"
proof (cases "unat (used b) + pixels w h < 2 ^ 64")
  case True
  then have "unat (used b + ucast w * ucast h) = unat (used b) + pixels w h"
    by (simp add: unat_word_ariths(1) unat_pixels)
  with True show ?thesis
    by (auto simp: try_charge_def checked_add_u64_def Let_def unat_pixels word_le_nat_alt)
next
  case False
  then show ?thesis
    by (simp add: try_charge_def checked_add_u64_def Let_def unat_pixels MAX_DECODED_PIXELS_def)
qed

lemma try_charge_used:
  "try_charge b w h = (True, b') \<Longrightarrow> unat (used b') = unat (used b) + pixels w h"
  by (simp add: try_charge_iff MAX_DECODED_PIXELS_def unat_word_ariths(1) unat_pixels)

lemma try_charge_False: "try_charge b w h = (False, b') \<Longrightarrow> b' = b"
  by (auto simp: try_charge_def Let_def split: option.splits if_splits)

lemma try_charge_cases [case_names charged refused]:
  obtains "unat (used b) + pixels w h \<le> unat MAX_DECODED_PIXELS"
      "try_charge b w h = (True, b\<lparr>used := used b + ucast w * ucast h\<rparr>)"
  | "unat MAX_DECODED_PIXELS < unat (used b) + pixels w h" "try_charge b w h = (False, b)"
proof (cases "unat (used b) + pixels w h \<le> unat MAX_DECODED_PIXELS")
  case True
  then show thesis by (intro that(1)) (simp_all add: try_charge_iff)
next
  case False
  obtain ok b' where p: "try_charge b w h = (ok, b')" by (cases "try_charge b w h")
  with False have "\<not> ok" by (auto simp: try_charge_iff)
  with p have "try_charge b w h = (False, b)" by (auto dest: try_charge_False)
  with False show thesis by (intro that(2)) simp_all
qed

section \<open>Content types and retry keys\<close>

lemma media_type_str_inject [simp]: "media_type_str a = media_type_str b \<longleftrightarrow> a = b"
  by (cases a; cases b) simp_all

text \<open>
  What the comment of \<open>NoRetrySet::key\<close> relies on: the two renderings are unambiguous and
  free of the separator U+0000.
\<close>

definition image_api_ok :: "('p, 'sh) image_api \<Rightarrow> bool" where
  "image_api_ok A \<longleftrightarrow> inj (src_as_str A) \<and> inj (sha256_display A) \<and>
     (\<forall>p. 0 \<notin> set (src_as_str A p)) \<and> (\<forall>h. 0 \<notin> set (sha256_display A h))"

definition same_triple :: "('p, 'sh) ImageRef \<Rightarrow> ('p, 'sh) ImageRef \<Rightarrow> bool" where
  "same_triple i j \<longleftrightarrow> img_src i = img_src j \<and> img_sha256 i = img_sha256 j \<and>
     img_media_type i = img_media_type j"

lemma split_at_separator:
  "x \<notin> set as \<Longrightarrow> x \<notin> set bs \<Longrightarrow> as @ x # cs = bs @ x # ds \<longleftrightarrow> as = bs \<and> cs = ds"
proof (induction as arbitrary: bs)
  case Nil
  then show ?case by (cases bs) auto
next
  case (Cons a as)
  then show ?case by (cases bs) auto
qed

lemma no_retry_key_inject:
  assumes "image_api_ok A"
  shows "no_retry_key A i = no_retry_key A j \<longleftrightarrow> same_triple i j"
  using assms
  by (auto simp: image_api_ok_def no_retry_key_def same_triple_def split_at_separator inj_def)

lemma same_triple_refl [simp]: "same_triple i i"
  by (simp add: same_triple_def)

lemma no_retry_simps [simp]:
  "failed no_retry_new = {}"
  "failed (no_retry_record A n i) = insert (no_retry_key A i) (failed n)"
  by (simp_all add: no_retry_new_def no_retry_record_def)

section \<open>The checks as a decision table\<close>

text \<open>The bytes are authentic: type, size and hash agree, which needs no decoder.\<close>

definition authentic :: "('p, 'sh) image_api \<Rightarrow> ('p, 'sh) ImageRef \<Rightarrow> bytes \<Rightarrow> ustring \<Rightarrow> bool" where
  "authentic A img body ct \<longleftrightarrow>
     content_type_matches ct (img_media_type img) \<and> length body \<le> MAX_IMAGE_BYTES \<and>
     sha256_image A body = img_sha256 img"

definition decodes_as_declared ::
  "('p, 'sh) ImageRef \<Rightarrow> bytes \<Rightarrow> decoder \<Rightarrow> Decoded \<Rightarrow> bool" where
  "decodes_as_declared img body decode d \<longleftrightarrow>
     decode body (img_media_type img) = Inr d \<and> \<not> dec_animated d \<and>
     dec_width d = img_width img \<and> dec_height d = img_height img"

lemma run_checks_Accept:
  "run_checks A img body ct decode b = (ImgAccept d, b') \<longleftrightarrow>
     authentic A img body ct \<and> decodes_as_declared img body decode d \<and>
     try_charge b (img_width img) (img_height img) = (True, b')"
  by (auto simp: run_checks_def authentic_def decodes_as_declared_def
      split: sum.splits DecodeError.splits prod.splits bool.splits)

lemma run_checks_Reject_budget:
  "run_checks A img body ct decode b = (ImgReject c, b') \<Longrightarrow> b' = b"
  by (auto simp: run_checks_def dest: try_charge_False
      split: if_splits sum.splits DecodeError.splits prod.splits bool.splits)

lemma run_checks_unauthentic:
  "\<not> authentic A img body ct \<Longrightarrow>
     run_checks A img body ct decode b = run_checks A img body ct decode' b"
  by (auto simp: run_checks_def authentic_def)

lemma run_checks_budget_irrelevant:
  "\<not> (\<exists>d. decodes_as_declared img body decode d) \<Longrightarrow>
     fst (run_checks A img body ct decode b) = fst (run_checks A img body ct decode b2)"
  by (auto simp: run_checks_def decodes_as_declared_def
      split: sum.splits DecodeError.splits)

section \<open>A rendering session\<close>

text \<open>
  The calls of one document in one session, in order: a fetched body to verify, with the
  decoder at hand, or a fetch that failed. The policy threads the budget and the set of
  failed triples through them.
\<close>

datatype ('p, 'sh) image_event =
    Fetched "('p, 'sh) ImageRef" bytes ustring decoder
  | FetchFailed "('p, 'sh) ImageRef"

record image_session =
  ses_budget :: ImageBudget
  ses_no_retry :: NoRetrySet

fun event_image :: "('p, 'sh) image_event \<Rightarrow> ('p, 'sh) ImageRef" where
  "event_image (Fetched i _ _ _) = i"
| "event_image (FetchFailed i) = i"

fun image_step ::
  "('p, 'sh) image_api \<Rightarrow> image_session \<Rightarrow> ('p, 'sh) image_event \<Rightarrow>
   ImageOutcome \<times> image_session" where
  "image_step A s (Fetched img body ct decode) =
     (case verify_image A img body ct decode (ses_budget s) (ses_no_retry s) of
        (outcome, b, n) \<Rightarrow> (outcome, \<lparr>ses_budget = b, ses_no_retry = n\<rparr>))"
| "image_step A s (FetchFailed img) =
     (case fetch_failed A img (ses_no_retry s) of
        (outcome, n) \<Rightarrow> (outcome, s\<lparr>ses_no_retry := n\<rparr>))"

fun image_run ::
  "('p, 'sh) image_api \<Rightarrow> image_session \<Rightarrow> ('p, 'sh) image_event list \<Rightarrow>
   ImageOutcome list \<times> image_session" where
  "image_run A s [] = ([], s)"
| "image_run A s (e # es) =
     (case image_step A s e of (outcome, s') \<Rightarrow>
        (case image_run A s' es of (outcomes, s'') \<Rightarrow> (outcome # outcomes, s'')))"

definition session_new :: image_session where
  "session_new = \<lparr>ses_budget = budget_new, ses_no_retry = no_retry_new\<rparr>"

fun accepted_pixels :: "ImageOutcome \<Rightarrow> nat" where
  "accepted_pixels (ImgAccept d) = pixels (dec_width d) (dec_height d)"
| "accepted_pixels (ImgReject _) = 0"

lemma image_step_budget:
  assumes "image_step A s e = (outcome, s')"
  shows "unat (used (ses_budget s')) = unat (used (ses_budget s)) + accepted_pixels outcome"
    and "image_is_accepted outcome \<Longrightarrow>
      unat (used (ses_budget s')) \<le> unat MAX_DECODED_PIXELS"
  using assms
  by (cases e; cases outcome;
      auto simp: verify_image_def fetch_failed_def run_checks_Accept try_charge_used
        decodes_as_declared_def split: prod.splits if_splits dest: run_checks_Reject_budget;
      auto simp: try_charge_iff dest: try_charge_used)+

lemma image_step_failed:
  assumes "image_step A s e = (outcome, s')"
  shows "failed (ses_no_retry s') = failed (ses_no_retry s) \<union>
    (if image_is_accepted outcome then {} else {no_retry_key A (event_image e)})"
  using assms
  by (cases e) (auto simp: verify_image_def fetch_failed_def no_retry_contains_def
      split: prod.splits if_splits)

lemma image_step_blocked:
  assumes "image_step A s e = (outcome, s')"
    and "no_retry_key A (event_image e) \<in> failed (ses_no_retry s)"
  shows "\<not> image_is_accepted outcome"
  using assms
  by (cases e) (auto simp: verify_image_def fetch_failed_def no_retry_contains_def)

lemma image_run_length: "image_run A s es = (os, s') \<Longrightarrow> length os = length es"
  by (induction es arbitrary: s os) (auto split: prod.splits)

lemma image_run_budget:
  "image_run A s es = (os, s') \<Longrightarrow>
     unat (used (ses_budget s')) = unat (used (ses_budget s)) + sum_list (map accepted_pixels os)"
  by (induction es arbitrary: s os) (auto split: prod.splits dest!: image_step_budget(1))

lemma accepted_pixels_rejected: "\<not> image_is_accepted o' \<Longrightarrow> accepted_pixels o' = 0"
  by (cases o') simp_all

lemma image_run_bound:
  "image_run A s es = (os, s') \<Longrightarrow>
     unat (used (ses_budget s)) \<le> unat MAX_DECODED_PIXELS \<Longrightarrow>
     unat (used (ses_budget s')) \<le> unat MAX_DECODED_PIXELS"
proof (induction es arbitrary: s os)
  case Nil
  then show ?case by simp
next
  case (Cons e es)
  obtain outcome s1 where step: "image_step A s e = (outcome, s1)"
    by (cases "image_step A s e")
  with Cons.prems obtain os' where rest: "image_run A s1 es = (os', s')"
    by (auto split: prod.splits)
  have "unat (used (ses_budget s1)) \<le> unat MAX_DECODED_PIXELS"
    using image_step_budget [OF step] Cons.prems(2) accepted_pixels_rejected [of outcome]
    by (cases "image_is_accepted outcome") auto
  with rest show ?case by (rule Cons.IH)
qed

lemma image_run_failed:
  "image_run A s es = (os, s') \<Longrightarrow>
     failed (ses_no_retry s') = failed (ses_no_retry s) \<union>
       {no_retry_key A (event_image e) | e outcome.
          (e, outcome) \<in> set (zip es os) \<and> \<not> image_is_accepted outcome}"
proof (induction es arbitrary: s os)
  case Nil
  then show ?case by simp
next
  case (Cons e es)
  obtain outcome s1 where step: "image_step A s e = (outcome, s1)"
    by (cases "image_step A s e")
  with Cons.prems obtain os' where rest: "image_run A s1 es = (os', s')" and os: "os = outcome # os'"
    by (auto split: prod.splits)
  show ?case
    unfolding Cons.IH [OF rest] image_step_failed [OF step] os by auto
qed

lemma image_run_blocked:
  "image_run A s es = (os, s') \<Longrightarrow> j < length es \<Longrightarrow>
     no_retry_key A (event_image (es ! j)) \<in> failed (ses_no_retry s) \<Longrightarrow>
     \<not> image_is_accepted (os ! j)"
proof (induction es arbitrary: s os j)
  case Nil
  then show ?case by simp
next
  case (Cons e es)
  obtain outcome s1 where step: "image_step A s e = (outcome, s1)"
    by (cases "image_step A s e")
  with Cons.prems obtain os' where rest: "image_run A s1 es = (os', s')" and os: "os = outcome # os'"
    by (auto split: prod.splits)
  show ?case
  proof (cases j)
    case 0
    with Cons.prems os step show ?thesis by (auto dest: image_step_blocked)
  next
    case (Suc k)
    with Cons.prems image_step_failed [OF step] have "k < length es"
      "no_retry_key A (event_image (es ! k)) \<in> failed (ses_no_retry s1)" by auto
    with Cons.IH [OF rest] os Suc show ?thesis by simp
  qed
qed

lemma image_run_no_retry:
  "image_run A s es = (os, s') \<Longrightarrow> i < j \<Longrightarrow> j < length es \<Longrightarrow>
     \<not> image_is_accepted (os ! i) \<Longrightarrow>
     no_retry_key A (event_image (es ! j)) = no_retry_key A (event_image (es ! i)) \<Longrightarrow>
     \<not> image_is_accepted (os ! j)"
proof (induction es arbitrary: s os i j)
  case Nil
  then show ?case by simp
next
  case (Cons e es)
  obtain outcome s1 where step: "image_step A s e = (outcome, s1)"
    by (cases "image_step A s e")
  with Cons.prems obtain os' where rest: "image_run A s1 es = (os', s')" and os: "os = outcome # os'"
    by (auto split: prod.splits)
  from Cons.prems obtain k where j: "j = Suc k" and k: "k < length es" by (cases j) auto
  show ?case
  proof (cases i)
    case 0
    with Cons.prems os j have "\<not> image_is_accepted outcome"
      "no_retry_key A (event_image (es ! k)) = no_retry_key A (event_image e)" by auto
    with image_step_failed [OF step] have
      "no_retry_key A (event_image (es ! k)) \<in> failed (ses_no_retry s1)" by simp
    with image_run_blocked [OF rest k] os j show ?thesis by simp
  next
    case (Suc l)
    with Cons.prems Cons.IH [OF rest, of l k] os j k show ?thesis by simp
  qed
qed

text \<open>A refusal is not final: the budget is left as it was, and a smaller image still fits.\<close>

lemma refused_then_accepted:
  "try_charge \<lparr>used = 16777212\<rparr> 3 2 = (False, \<lparr>used = 16777212\<rparr>)"
  "try_charge \<lparr>used = 16777212\<rparr> 2 2 = (True, \<lparr>used = 16777216\<rparr>)"
  by (simp_all add: try_charge_def checked_add_u64_def MAX_DECODED_PIXELS_def)

end
