(* ===== verification/Engine_Api.thy ===== *)
theory Engine_Api
  imports Image
begin

text \<open>
  The scene types of \<open>entangled-engine\<close> as the shell reads them. The engine is not part of
  this repository: the variants are those of the exhaustive matches of
  \<open>crates/entangled-client-gui/src/main.rs\<close> (\<open>draw_node\<close>, \<open>runs_job\<close>, \<open>external_handoff\<close>,
  \<open>field_label\<close>), with the fields the shell binds; fields it skips (\<open>..\<close> or \<open>_\<close>) are left
  out.
\<close>

record RunStyle =
  style_bold :: bool
  style_italic :: bool
  style_code :: bool
  style_strikethrough :: bool

datatype InlineRun = RunText ustring RunStyle | RunLink ustring RunStyle

datatype LinkRef = Carrier ustring | Citation ustring | SameSite | Entangled

datatype FormFieldView =
  TextField ustring | TextareaField ustring | SelectField ustring | CheckboxField ustring

datatype ('p, 'sh) SceneNode =
    Paragraph "InlineRun list"
  | Heading nat "InlineRun list"
  | CodeBlock ustring
  | Quote "InlineRun list" "InlineRun list option"
  | ListNode bool "InlineRun list list"
  | Divider
  | ImageNode "('p, 'sh) ImageRef"
  | Link "InlineRun list" LinkRef
  | SubmitForm "InlineRun list" "FormFieldView list" ustring
  | Feedback "InlineRun list"
  | Note "ustring option" "InlineRun list"

record ('p, 'sh) Scene =
  scene_nodes :: "('p, 'sh) SceneNode list"

end
