(* ===== verification/Gui_Load.thy ===== *)
theory Gui_Load
  imports Pipeline Chrome Engine_Api
begin

text \<open>
  The pure load path of the shell, \<open>crates/entangled-client-gui/src/lib.rs\<close>: verify the
  manifest, resolve trust without a decision, build the chrome, verify the content, and
  \<open>apply_decision\<close> for the decision that arrives later.
\<close>

section \<open>Data\<close>

text \<open>The core together with the engine's \<open>Scene::from_content\<close>.\<close>

record ('m, 'pk, 'rk, 'ts, 'on, 'ci, 'cd, 'st, 'p, 'sh) gui_core =
  "('m, 'pk, 'rk, 'ts, 'on, 'ci, 'cd, 'st) core" +
  scene_from_content :: "'cd \<Rightarrow> ('p, 'sh) Scene"

record ('pk, 'rk, 'ts, 'on, 'p, 'sh) Loaded =
  ld_chrome :: ChromeView
  ld_scene :: "('p, 'sh) Scene option"
  ld_publisher :: 'pk
  ld_site :: 'on
  ld_retained :: "'pk RetainedIdentity option"
  ld_required_action :: RequiredAction
  ld_initial_intent :: "'pk PersistenceIntent"
  ld_record :: "('ts, 'rk) RetainedManifestRecord option"
  ld_canary_state :: CanaryState
  ld_compact_address :: ustring

datatype LoadError = LoadError ustring

fun load_error_display :: "LoadError \<Rightarrow> ustring" where
  "load_error_display (LoadError msg) = msg"

section \<open>Operations\<close>

definition apply_decision ::
  "('pk \<Rightarrow> ustring) \<Rightarrow> UserDecision \<Rightarrow> ('pk, 'rk, 'ts, 'on, 'p, 'sh) Loaded \<Rightarrow>
   'pk PersistenceIntent \<times> ('pk, 'rk, 'ts, 'on, 'p, 'sh) Loaded" where
  "apply_decision pip_of decision l =
     (let resolution = resolve (ld_publisher l) (ld_retained l) decision
      in (res_intent resolution,
          l\<lparr>ld_chrome := chrome_build pip_of (ld_publisher l) (res_state resolution)
                (ld_canary_state l) (ld_compact_address l) chrome_conditions_default,
            ld_required_action := res_action resolution\<rparr>))"

definition load ::
  "('m, 'pk, 'rk, 'ts, 'on, 'ci, 'cd, 'st, 'p, 'sh, 'z) gui_core_scheme \<Rightarrow> bytes \<Rightarrow>
   bytes option \<Rightarrow> 'on \<Rightarrow> ustring \<Rightarrow> ('c \<Rightarrow> 'ts) \<Rightarrow> 'c \<Rightarrow> 'pk RetainedIdentity option \<Rightarrow>
   ('ts, 'rk) PublisherHistory \<Rightarrow> LoadError + ('pk, 'rk, 'ts, 'on, 'p, 'sh) Loaded" where
  "load C manifest_bytes content_bytes fetched_address compact_address clock_now clock
     retained history =
     (case verify_manifest C manifest_bytes fetched_address None clock_now clock history of
        Reject d \<Rightarrow> Inl (LoadError (lit ''manifest rejected: '' @ diag_debug d))
      | Accept verified \<Rightarrow>
          (let publisher = manifest_publisher_pubkey C (vm_manifest verified);
               resolution = resolve publisher retained None_decision;
               chrome = chrome_build (derive_pip C) publisher (res_state resolution)
                 (vm_canary_state verified) compact_address chrome_conditions_default
           in result_bind
                (case content_bytes of
                   Some bytes \<Rightarrow>
                     (case verify_content C bytes verified of
                        Accept doc \<Rightarrow> Inr (Some (scene_from_content C doc))
                      | Reject d \<Rightarrow> Inl (LoadError (lit ''content rejected: '' @ diag_debug d)))
                 | None \<Rightarrow> Inr None)
                (\<lambda>scene. Inr
                  \<lparr>ld_chrome = chrome, ld_scene = scene, ld_publisher = publisher,
                   ld_site = fetched_address, ld_retained = retained,
                   ld_required_action = res_action resolution,
                   ld_initial_intent = res_intent resolution,
                   ld_record = record_for C (vm_manifest verified),
                   ld_canary_state = vm_canary_state verified,
                   ld_compact_address = compact_address\<rparr>)))"

section \<open>What a loaded document guarantees\<close>

text \<open>
  \<open>load_spec\<close>: the loaded document is what a manifest that passed the whole pipeline and
  content verified under its runtime key produce, with trust resolved without a decision.
\<close>

definition load_spec ::
  "('m, 'pk, 'rk, 'ts, 'on, 'ci, 'cd, 'st, 'p, 'sh, 'z) gui_core_scheme \<Rightarrow> bytes \<Rightarrow>
   bytes option \<Rightarrow> 'on \<Rightarrow> 'ts \<Rightarrow> 'pk RetainedIdentity option \<Rightarrow>
   ('ts, 'rk) PublisherHistory \<Rightarrow> ('pk, 'rk, 'ts, 'on, 'p, 'sh) Loaded \<Rightarrow> bool" where
  "load_spec C mb cb site now retained history l \<longleftrightarrow>
     (\<exists>m cs ix. chain_passes C mb site None now (m, cs, ix) \<and>
        check_against_history C m history = Inr () \<and>
        ld_publisher l = manifest_publisher_pubkey C m \<and>
        ld_site l = site \<and> ld_retained l = retained \<and>
        ld_record l = record_for C m \<and> ld_canary_state l = cs \<and>
        cv_canary_state (ld_chrome l) = cs \<and>
        cv_trust_state (ld_chrome l) = res_state (resolve (ld_publisher l) retained None_decision) \<and>
        cv_pip (ld_chrome l) = derive_pip C (ld_publisher l) \<and>
        (case cb of
           None \<Rightarrow> ld_scene l = None
         | Some b \<Rightarrow> \<exists>doc. parse_and_verify_content C b (canary_runtime_pubkey C m) = Inr doc \<and>
             ld_scene l = Some (scene_from_content C doc)))"

lemma load_Ok:
  assumes "load C mb cb site addr cn clk retained history = Inr l"
  shows "load_spec C mb cb site (cn clk) retained history l"
proof -
  from assms obtain v where v: "verify_manifest C mb site None cn clk history = Accept v"
    by (auto simp: load_def split: Outcome.splits)
  note acc = iffD1 [OF verify_manifest_Accept v]
  obtain scene where sc: "(case cb of
       Some bytes \<Rightarrow> (case verify_content C bytes v of
            Accept doc \<Rightarrow> Inr (Some (scene_from_content C doc))
          | Reject d \<Rightarrow> Inl (LoadError (lit ''content rejected: '' @ diag_debug d)))
     | None \<Rightarrow> Inr None) = Inr scene"
    and l: "l = \<lparr>ld_chrome = chrome_build (derive_pip C) (manifest_publisher_pubkey C (vm_manifest v))
          (res_state (resolve (manifest_publisher_pubkey C (vm_manifest v)) retained None_decision))
          (vm_canary_state v) addr chrome_conditions_default,
        ld_scene = scene, ld_publisher = manifest_publisher_pubkey C (vm_manifest v),
        ld_site = site, ld_retained = retained,
        ld_required_action =
          res_action (resolve (manifest_publisher_pubkey C (vm_manifest v)) retained None_decision),
        ld_initial_intent =
          res_intent (resolve (manifest_publisher_pubkey C (vm_manifest v)) retained None_decision),
        ld_record = record_for C (vm_manifest v), ld_canary_state = vm_canary_state v,
        ld_compact_address = addr\<rparr>"
    using assms unfolding load_def v Let_def Outcome.case result_bind_Inr by blast
  have content: "case cb of None \<Rightarrow> scene = None
     | Some b \<Rightarrow> \<exists>doc. parse_and_verify_content C b (vm_runtime_pubkey C v) = Inr doc \<and>
         scene = Some (scene_from_content C doc)"
    using sc by (cases cb)
      (auto simp: verify_content_def split: sum.splits Outcome.splits)
  have "chain_passes C mb site None (cn clk)
      (vm_manifest v, vm_canary_state v, vm_content_index v) \<and>
    check_against_history C (vm_manifest v) history = Inr ()"
    using acc by simp
  with content show ?thesis
    unfolding load_spec_def
    by (intro exI [of _ "vm_manifest v"] exI [of _ "vm_canary_state v"]
        exI [of _ "vm_content_index v"]) (cases cb, simp_all add: l vm_runtime_pubkey_def)
qed

text \<open>The prompt, the state and the intent of a load or of a decision come from one resolution.\<close>

lemma load_resolution:
  assumes "load C mb cb site addr cn clk retained history = Inr l"
  shows "ld_required_action l = res_action (resolve (ld_publisher l) retained None_decision) \<and>
    ld_initial_intent l = res_intent (resolve (ld_publisher l) retained None_decision) \<and>
    cv_trust_state (ld_chrome l) = res_state (resolve (ld_publisher l) retained None_decision)"
  using assms by (auto simp: load_def Let_def result_bind_Inr split: Outcome.splits)

lemma apply_decision_resolution:
  assumes "apply_decision pip_of d l = (i, l')"
  shows "i = res_intent (resolve (ld_publisher l) (ld_retained l) d)"
    and "cv_trust_state (ld_chrome l') = res_state (resolve (ld_publisher l) (ld_retained l) d)"
    and "ld_publisher l' = ld_publisher l" "ld_site l' = ld_site l" "ld_record l' = ld_record l"
      "ld_retained l' = ld_retained l" "ld_scene l' = ld_scene l"
      "ld_canary_state l' = ld_canary_state l" "ld_compact_address l' = ld_compact_address l"
    and "ld_chrome l' = chrome_build pip_of (ld_publisher l)
      (res_state (resolve (ld_publisher l) (ld_retained l) d)) (ld_canary_state l)
      (ld_compact_address l) chrome_conditions_default"
  using assms by (auto simp: apply_decision_def Let_def)

text \<open>
  Content is shown only under the manifest's runtime key, and a document that fails stops
  the load: there is no partial result.
\<close>

lemma load_content_rejected:
  assumes "verify_manifest C mb site None cn clk history = Accept v"
    and "parse_and_verify_content C b (vm_runtime_pubkey C v) = Inl d"
  shows "load C mb (Some b) site addr cn clk retained history =
    Inl (LoadError (lit ''content rejected: '' @ diag_debug d))"
  by (simp add: load_def assms(1) verify_content_def assms(2) Let_def)

lemma load_manifest_rejected:
  assumes "verify_manifest C mb site None cn clk history = Reject d"
  shows "load C mb cb site addr cn clk retained history =
    Inl (LoadError (lit ''manifest rejected: '' @ diag_debug d))"
  by (simp add: load_def assms)

end
