(* ===== verification/Gui_Text.thy ===== *)
theory Gui_Text
  imports Engine_Api Stores
begin

text \<open>
  Publisher text in the window, from \<open>crates/entangled-client-gui/src/main.rs\<close>: the bidi
  isolation every publisher-controlled value goes through, inline runs as styled text, form
  labels and the classification of links.
\<close>

section \<open>Bidi isolation\<close>

definition FSI :: nat where "FSI = 0x2068"

definition PDI :: nat where "PDI = 0x2069"

definition is_bidi_control :: "nat \<Rightarrow> bool" where
  "is_bidi_control ch \<longleftrightarrow>
     ch = 0x061C \<or> ch = 0x200E \<or> ch = 0x200F \<or> (0x202A \<le> ch \<and> ch \<le> 0x202E) \<or>
     (0x2066 \<le> ch \<and> ch \<le> 0x2069)"

text \<open>The formatting directive \<open>{:04X}\<close>.\<close>

definition hex_digit :: "nat \<Rightarrow> nat" where
  "hex_digit n = (if n < 10 then 48 + n else 55 + n)"

fun hex_upper :: "nat \<Rightarrow> ustring" where
  "hex_upper n = (if n < 16 then [hex_digit n] else hex_upper (n div 16) @ [hex_digit (n mod 16)])"

declare hex_upper.simps [simp del]

definition hex_04 :: "nat \<Rightarrow> ustring" where
  "hex_04 n = replicate (4 - length (hex_upper n)) 48 @ hex_upper n"

fun isolate_loop :: "ustring \<Rightarrow> ustring \<Rightarrow> ustring" where
  "isolate_loop isolated [] = isolated"
| "isolate_loop isolated (ch # chs) =
     (if is_bidi_control ch
      then isolate_loop (isolated @ lit ''<U+'' @ hex_04 ch @ lit ''>'') chs
      else isolate_loop (isolated @ [ch]) chs)"

definition isolate_publisher_text :: "ustring \<Rightarrow> ustring" where
  "isolate_publisher_text value = isolate_loop [FSI] value @ [PDI]"

text \<open>The loop against its reference: escape each character, in order.\<close>

definition escape_char :: "nat \<Rightarrow> ustring" where
  "escape_char ch = (if is_bidi_control ch then lit ''<U+'' @ hex_04 ch @ lit ''>'' else [ch])"

lemma isolate_loop_concat: "isolate_loop acc s = acc @ concat (map escape_char s)"
  by (induction s arbitrary: acc) (simp_all add: escape_char_def)

lemma isolate_publisher_text_alt:
  "isolate_publisher_text s = FSI # concat (map escape_char s) @ [PDI]"
  by (simp add: isolate_publisher_text_def isolate_loop_concat)

lemma hex_upper_no_control: "c \<in> set (hex_upper n) \<Longrightarrow> \<not> is_bidi_control c"
proof (induction n rule: hex_upper.induct)
  case (1 n)
  have digit: "\<not> is_bidi_control (hex_digit m)" if "m < 16" for m
    using that by (auto simp: is_bidi_control_def hex_digit_def)
  show ?case
  proof (cases "n < 16")
    case True
    with 1 digit show ?thesis by (auto simp: hex_upper.simps [of n])
  next
    case False
    with 1 digit [of "n mod 16"] show ?thesis by (auto simp: hex_upper.simps [of n])
  qed
qed

lemma lit_less: "c \<in> set (lit s) \<Longrightarrow> c < 256"
proof -
  assume "c \<in> set (lit s)"
  then obtain x :: char where "c = of_char x" by (auto simp: lit_def)
  then show "c < 256" by simp
qed

lemma ascii_no_control: "c \<in> set (lit s) \<Longrightarrow> \<not> is_bidi_control c"
  using lit_less [of c s] by (simp add: is_bidi_control_def)

lemma escape_char_no_control: "c \<in> set (escape_char ch) \<Longrightarrow> \<not> is_bidi_control c"
  by (auto simp: escape_char_def hex_04_def dest: hex_upper_no_control ascii_no_control
      split: if_splits) (simp add: is_bidi_control_def)

text \<open>
  A displayed line is balanced when its only bidi controls are FSI and PDI, and these nest:
  then no value can close an isolation it did not open or reorder what stands around it.
\<close>

fun bidi_balanced :: "nat \<Rightarrow> ustring \<Rightarrow> bool" where
  "bidi_balanced depth [] = (depth = 0)"
| "bidi_balanced depth (c # cs) =
     (if c = FSI then bidi_balanced (Suc depth) cs
      else if c = PDI then depth \<noteq> 0 \<and> bidi_balanced (depth - 1) cs
      else \<not> is_bidi_control c \<and> bidi_balanced depth cs)"

lemma controls_are_controls [simp]: "is_bidi_control FSI" "is_bidi_control PDI"
  by (simp_all add: is_bidi_control_def FSI_def PDI_def)

lemma bidi_balanced_plain:
  "\<forall>c \<in> set s. \<not> is_bidi_control c \<Longrightarrow> bidi_balanced d (s @ t) = bidi_balanced d t"
  by (induction s) auto

lemma bidi_balanced_isolated [simp]:
  "bidi_balanced d (isolate_publisher_text s @ t) = bidi_balanced d t"
proof -
  have "\<forall>c \<in> set (concat (map escape_char s)). \<not> is_bidi_control c"
    using escape_char_no_control by auto
  then have "bidi_balanced (Suc d) (concat (map escape_char s) @ PDI # t) = bidi_balanced d t"
    by (subst bidi_balanced_plain) (simp_all add: FSI_def PDI_def)
  then show ?thesis by (simp add: isolate_publisher_text_alt)
qed

lemma bidi_balanced_isolated_end [simp]: "bidi_balanced 0 (isolate_publisher_text s)"
  using bidi_balanced_isolated [of 0 s "[]"] by simp

lemma bidi_balanced_lit [simp]: "bidi_balanced d (lit s @ t) = bidi_balanced d t"
  by (rule bidi_balanced_plain) (auto dest: ascii_no_control)

lemma bidi_balanced_lit_end [simp]: "bidi_balanced 0 (lit s)"
  using bidi_balanced_lit [of 0 s "[]"] by simp

lemma isolate_text_plain:
  "\<forall>c \<in> set s. \<not> is_bidi_control c \<Longrightarrow> isolate_publisher_text s = FSI # s @ [PDI]"
proof -
  assume plain: "\<forall>c \<in> set s. \<not> is_bidi_control c"
  then have "concat (map escape_char s) = s"
    by (induction s) (simp_all add: escape_char_def)
  then show ?thesis by (simp add: isolate_publisher_text_alt)
qed

section \<open>Styles\<close>

text \<open>
  Colours are \<open>Color32\<close> values by their three components, with \<open>gamma_multiply\<close> (by a factor
  in tenths) left symbolic; sizes are in tenths of a point.
\<close>

datatype color = Rgb nat nat nat | GammaMul color nat

datatype font_family = Proportional | Monospace | Bold_family

definition bold_family :: font_family where "bold_family = Bold_family"

record text_section =
  sec_text :: ustring
  sec_size :: nat
  sec_family :: font_family
  sec_color :: color
  sec_italics :: bool
  sec_strikethrough :: bool
  sec_underline :: bool

type_synonym layout_job = "text_section list"

definition LINK_COLOR :: color where "LINK_COLOR = Rgb 0x6c 0xa8 0xff"

text \<open>The body of the loop of \<open>runs_job\<close>.\<close>

definition run_section :: "nat \<Rightarrow> color \<Rightarrow> InlineRun \<Rightarrow> text_section" where
  "run_section base_size base_color run =
     (case (case run of RunText text style \<Rightarrow> (text, style, False)
            | RunLink text style \<Rightarrow> (text, style, True)) of
        (text, style, is_link) \<Rightarrow>
          \<lparr>sec_text = isolate_publisher_text text,
           sec_size = base_size,
           sec_family = (if style_code style then Monospace
                         else if style_bold style then bold_family else Proportional),
           sec_color = (if is_link then LINK_COLOR else base_color),
           sec_italics = style_italic style,
           sec_strikethrough = style_strikethrough style,
           sec_underline = is_link\<rparr>)"

fun runs_job :: "InlineRun list \<Rightarrow> nat \<Rightarrow> color \<Rightarrow> layout_job" where
  "runs_job [] base_size base_color = []"
| "runs_job (run # runs) base_size base_color =
     run_section base_size base_color run # runs_job runs base_size base_color"

fun run_text :: "InlineRun \<Rightarrow> ustring" where
  "run_text (RunText text _) = text"
| "run_text (RunLink text _) = text"

fun runs_text :: "InlineRun list \<Rightarrow> ustring" where
  "runs_text [] = []"
| "runs_text (run # runs) = isolate_publisher_text (run_text run) @ runs_text runs"

definition job_text :: "layout_job \<Rightarrow> ustring" where
  "job_text job = concat (map sec_text job)"

lemma job_text_simps [simp]:
  "job_text [] = []" "job_text (s # job) = sec_text s @ job_text job"
  by (simp_all add: job_text_def)

lemma run_section_text [simp]:
  "sec_text (run_section sz color run) = isolate_publisher_text (run_text run)"
  by (cases run) (simp_all add: run_section_def)

text \<open>The styled rendering shows the text of the plain one.\<close>

lemma runs_job_text: "job_text (runs_job runs sz color) = runs_text runs"
  by (induction runs) simp_all

lemma bidi_balanced_runs [simp]: "bidi_balanced d (runs_text runs @ t) = bidi_balanced d t"
  by (induction runs) simp_all

lemma bidi_balanced_runs_end [simp]: "bidi_balanced 0 (runs_text runs)"
  using bidi_balanced_runs [of 0 runs "[]"] by simp

section \<open>Links and form fields\<close>

datatype HandoffKind = CarrierKind | CitationKind

record Handoff =
  ho_url :: ustring
  ho_kind :: HandoffKind

fun external_handoff :: "LinkRef \<Rightarrow> Handoff option" where
  "external_handoff (Carrier url) = Some \<lparr>ho_url = url, ho_kind = CarrierKind\<rparr>"
| "external_handoff (Citation url) = Some \<lparr>ho_url = url, ho_kind = CitationKind\<rparr>"
| "external_handoff SameSite = None"
| "external_handoff Entangled = None"

definition field_label :: "FormFieldView \<Rightarrow> ustring" where
  "field_label field =
     (case (case field of
              TextField label \<Rightarrow> (lit ''text'', label)
            | TextareaField label \<Rightarrow> (lit ''textarea'', label)
            | SelectField label \<Rightarrow> (lit ''select'', label)
            | CheckboxField label \<Rightarrow> (lit ''checkbox'', label)) of
        (kind, label) \<Rightarrow> lit ''['' @ kind @ lit ''] '' @ isolate_publisher_text label)"

lemma bidi_balanced_field_label [simp]: "bidi_balanced 0 (field_label field)"
  by (cases field) (simp_all add: field_label_def)

text \<open>The per-frame gate of the content area.\<close>

definition render_block_active :: "bool \<Rightarrow> bool \<Rightarrow> bool" where
  "render_block_active canary_expired override_active \<longleftrightarrow> canary_expired \<and> \<not> override_active"

end
