(* ===== verification/Gui_Draw.thy ===== *)
theory Gui_Draw
  imports Gui_Text Chrome Protect
begin

text \<open>
  What the shell draws, the \<open>draw_*\<close> functions of
  \<open>crates/entangled-client-gui/src/main.rs\<close>. The toolkit (egui) is immediate-mode: a drawing
  function emits widgets and reads, in the same pass, which of them were clicked. So a
  drawing function is a function from the frame's input to the widgets it emits, in order,
  and to the effects of clicks. Texts, their styles and colours, frames by their fill, lines
  and tick marks, and the order are modelled; spacing, margins, rounding, the borders of
  frames and cursor shapes are not.
\<close>

section \<open>Widgets and input\<close>

record rich_style =
  rt_size :: "nat option"
  rt_strong :: bool
  rt_monospace :: bool
  rt_italics :: bool
  rt_color :: "color option"

datatype widget =
    Text ustring rich_style
  | Job layout_job
  | ClickableJob layout_job
  | ClickableText ustring rich_style
  | Button ustring bool
  | Dot color
  | Hairline color
  | Tick color
  | Separator
  | Frame color "widget list"
  | Collapsing ustring "widget list"

definition rich :: "nat \<Rightarrow> bool \<Rightarrow> color \<Rightarrow> rich_style" where
  "rich sz strong col = \<lparr>rt_size = Some sz, rt_strong = strong, rt_monospace = False,
     rt_italics = False, rt_color = Some col\<rparr>"

definition plain :: rich_style where
  "plain = \<lparr>rt_size = None, rt_strong = False, rt_monospace = False, rt_italics = False,
     rt_color = None\<rparr>"

text \<open>Every text a widget puts on the screen, in order.\<close>

primrec texts :: "widget \<Rightarrow> ustring list" where
  "texts (Text s st) = [s]"
| "texts (Job job) = [job_text job]"
| "texts (ClickableJob job) = [job_text job]"
| "texts (ClickableText s st) = [s]"
| "texts (Button s strong) = [s]"
| "texts (Dot c) = []"
| "texts (Hairline c) = []"
| "texts (Tick c) = []"
| "texts Separator = []"
| "texts (Frame c ws) = concat (map texts ws)"
| "texts (Collapsing s ws) = s # concat (map texts ws)"

definition all_texts :: "widget list \<Rightarrow> ustring list" where
  "all_texts ws = concat (map texts ws)"

lemma all_texts_simps [simp]:
  "all_texts [] = []" "all_texts (w # ws) = texts w @ all_texts ws"
  "all_texts (ws @ vs) = all_texts ws @ all_texts vs"
  by (simp_all add: all_texts_def)

text \<open>
  The input of one frame: the buttons clicked, by their text (which are all different), the
  link labels and link tags clicked, by the position of their node in the scene, and
  whether the close control of the dialog window was used.
\<close>

record frame_input =
  fi_button :: "ustring \<Rightarrow> bool"
  fi_link :: "nat \<Rightarrow> bool"
  fi_tag :: "nat \<Rightarrow> bool"
  fi_close_window :: bool

definition no_input :: frame_input where
  "no_input = \<lparr>fi_button = (\<lambda>_. False), fi_link = (\<lambda>_. False), fi_tag = (\<lambda>_. False),
     fi_close_window = False\<rparr>"

section \<open>Severities\<close>

datatype Severity = Good | Caution | Alert | Neutral

fun pill_colors :: "Severity \<Rightarrow> color \<times> color" where
  "pill_colors Good = (Rgb 0xB6 0xF0 0xC4, Rgb 0x1c 0x3a 0x28)"
| "pill_colors Caution = (Rgb 0xF2 0xDC 0xA0, Rgb 0x3c 0x30 0x12)"
| "pill_colors Alert = (Rgb 0xF6 0xC0 0xC0, Rgb 0x40 0x1c 0x1c)"
| "pill_colors Neutral = (Rgb 0xC4 0xCC 0xD6, Rgb 0x24 0x2b 0x36)"

fun accent :: "Severity \<Rightarrow> color" where
  "accent Good = Rgb 0x4c 0xc0 0x6a"
| "accent Caution = Rgb 0xd0 0xa0 0x30"
| "accent Alert = Rgb 0xe0 0x50 0x50"
| "accent Neutral = Rgb 0x90 0x98 0xa4"

fun trust_badge :: "TrustState \<Rightarrow> ustring \<times> Severity" where
  "trust_badge ExternallyVerified = (lit ''externally verified'', Good)"
| "trust_badge TofuPinned = (lit ''TOFU pinned'', Good)"
| "trust_badge FirstContact = (lit ''first contact'', Caution)"
| "trust_badge ChangedMismatch = (lit ''CHANGED / MISMATCH'', Alert)"

fun canary_badge :: "CanaryState \<Rightarrow> ustring \<times> Severity" where
  "canary_badge Fresh = (lit ''fresh'', Good)"
| "canary_badge NearExpiration = (lit ''near expiration'', Caution)"
| "canary_badge Expired = (lit ''expired'', Alert)"
| "canary_badge Invalid = (lit ''invalid'', Alert)"
| "canary_badge Unavailable = (lit ''unavailable'', Neutral)"

definition to_ascii_uppercase :: "ustring \<Rightarrow> ustring" where
  "to_ascii_uppercase s = map (\<lambda>c. if 97 \<le> c \<and> c \<le> 122 then c - 32 else c) s"

section \<open>The chrome\<close>

definition NOT_A_CLIENT :: ustring where
  "NOT_A_CLIENT = lit ''entangled-client-gui - work in progress (live pinning; NOT yet a fully conforming client)''"

definition status_pill :: "ustring \<Rightarrow> ustring \<Rightarrow> Severity \<Rightarrow> widget" where
  "status_pill category v severity =
     (case pill_colors severity of (fg, bg) \<Rightarrow>
        Frame bg [Dot (accent severity),
          Text (to_ascii_uppercase category) (rich 105 True (GammaMul fg 8)),
          Text v (rich 130 True fg)])"

definition pip_chip :: "ustring \<Rightarrow> ustring \<Rightarrow> widget" where
  "pip_chip label pip =
     Frame (Rgb 0x15 0x1a 0x22)
       [Text label (rich 110 True (Rgb 0x9a 0xB6 0xD8)),
        Text (isolate_publisher_text pip)
          ((rich 140 False (Rgb 0xE8 0xEC 0xF2))\<lparr>rt_monospace := True\<rparr>)]"

definition draw_pip_card :: "ChromeView \<Rightarrow> widget list" where
  "draw_pip_card chrome =
     (let pip_text = Text (isolate_publisher_text (cv_pip chrome))
            ((rich 150 False (Rgb 0xE8 0xEC 0xF2))\<lparr>rt_monospace := True\<rparr>)
      in [Hairline (Rgb 0x2c 0x34 0x42), Tick (Rgb 0x6c 0xa8 0xff),
          Text (cv_pip_label chrome @ lit '' (PIP)'') (rich 110 True (Rgb 0x9a 0xB6 0xD8)),
          Text (lit ''- compare these words out of band'')
            ((rich 110 False (Rgb 0x6c 0x78 0x88))\<lparr>rt_italics := True\<rparr>),
          (if cv_pip_must_be_fully_shown chrome then pip_text
           else Collapsing (lit ''show identity phrase'') [pip_text])])"

definition WARNING_SIGN :: ustring where "WARNING_SIGN = [0x26A0]"

definition CLOCK_FACE :: ustring where "CLOCK_FACE = [0x1F552]"

fun warning_content :: "Warning \<Rightarrow> ustring \<times> ustring \<times> Severity" where
  "warning_content TrustMismatch =
     (WARNING_SIGN, lit ''Publisher identity changed / mismatch'', Alert)"
| "warning_content CanaryConflict = (WARNING_SIGN, lit ''Canary conflict'', Alert)"
| "warning_content CanaryExpired = (WARNING_SIGN, lit ''Canary expired'', Alert)"
| "warning_content CanaryInvalid = (WARNING_SIGN, lit ''Canary invalid'', Alert)"
| "warning_content CanaryGap = (WARNING_SIGN, lit ''Canary gap observed'', Caution)"
| "warning_content HistoricalContent = (CLOCK_FACE, lit ''Historical content'', Caution)"
| "warning_content StaleCachedContent = (CLOCK_FACE, lit ''Stale cached content'', Caution)"

definition draw_warning_banner :: "Warning \<Rightarrow> widget" where
  "draw_warning_banner w =
     (case warning_content w of (glyph, text, severity) \<Rightarrow>
      case pill_colors severity of (fg, bg) \<Rightarrow>
        Frame bg [Text glyph (rich 140 False (accent severity)), Text text (rich 130 True fg)])"

definition draw_chrome :: "ChromeView \<Rightarrow> widget list" where
  "draw_chrome chrome =
     (case trust_badge (cv_trust_state chrome) of (tlabel, tsev) \<Rightarrow>
      case canary_badge (cv_canary_state chrome) of (clabel, csev) \<Rightarrow>
        [Text NOT_A_CLIENT (rich 110 False (Rgb 0x8a 0x7a 0x40)),
         status_pill (lit ''trust'') tlabel tsev,
         status_pill (lit ''canary'') clabel csev,
         Frame (Rgb 0x15 0x1a 0x22)
           [Text (isolate_publisher_text (cv_carrier_address_compact chrome))
             ((rich 125 False (Rgb 0x9a 0xB0 0xC8))\<lparr>rt_monospace := True\<rparr>)]] @
        (if cv_request_state_active chrome
         then [status_pill (lit ''request'') (lit ''active'') Caution] else []) @
        draw_pip_card chrome @
        map draw_warning_banner (cv_warnings chrome))"

section \<open>The trust-decision panels\<close>

definition action_frame_fill :: "Severity \<Rightarrow> color" where
  "action_frame_fill severity = snd (pill_colors severity)"

definition BTN_PIN :: ustring where "BTN_PIN = lit ''Pin this identity (TOFU)''"
definition BTN_VERIFIED :: ustring where
  "BTN_VERIFIED = lit ''I have verified the PIP out of band''"
definition BTN_NOT_NOW :: ustring where "BTN_NOT_NOW = lit ''Not now''"
definition BTN_CONFIRM_NEW :: ustring where "BTN_CONFIRM_NEW = lit ''Confirm the new identity''"
definition BTN_VERIFIED_NEW :: ustring where
  "BTN_VERIFIED_NEW = lit ''I have verified the new PIP out of band''"
definition BTN_STAY :: ustring where "BTN_STAY = lit ''Cancel (stay in mismatch)''"

lemmas button_defs = BTN_PIN_def BTN_VERIFIED_def BTN_NOT_NOW_def BTN_CONFIRM_NEW_def
  BTN_VERIFIED_NEW_def BTN_STAY_def

definition PIN_NOTICE :: ustring where
  "PIN_NOTICE = lit ''You have not seen this publisher before, and its identity is not externally verified. Retaining (pinning) it lets this client alert you when the publisher's key later changes. The 24-word PIP is shown above - compare it out of band before you trust it.''"

definition MISMATCH_NOTICE :: ustring where
  "MISMATCH_NOTICE = lit ''The key presented by this site does not match the identity you previously retained. This is expected after a deliberate key rotation, but it is also what impersonation or compromise looks like. The stored identity is not replaced unless you confirm. Compare both PIPs out of band:''"

text \<open>The panels take and return the two flags \<open>decision\<close> and \<open>decline\<close> of the frame.\<close>

definition draw_pin_panel ::
  "frame_input \<Rightarrow> ustring \<Rightarrow> UserDecision option \<times> bool \<Rightarrow>
   widget list \<times> UserDecision option \<times> bool" where
  "draw_pin_panel inp pip flags =
     (case flags of (decision, decline) \<Rightarrow>
        let decision = (if fi_button inp BTN_PIN then Some PinFirstContact else decision);
            decision = (if fi_button inp BTN_VERIFIED then Some ConfirmPip else decision);
            decline = (if fi_button inp BTN_NOT_NOW then True else decline)
        in ([Frame (action_frame_fill Caution)
               [Text (lit ''First contact - retain this publisher's identity?'')
                  \<lparr>rt_size = None, rt_strong = True, rt_monospace = False, rt_italics = False,
                   rt_color = Some (Rgb 0xF2 0xDC 0xA0)\<rparr>,
                Text PIN_NOTICE (rich 130 False (Rgb 0xD0 0xD6 0xDE)),
                Button BTN_PIN True, Button BTN_VERIFIED False, Button BTN_NOT_NOW False]],
            decision, decline))"

definition draw_mismatch_panel ::
  "frame_input \<Rightarrow> ustring \<Rightarrow> ustring \<Rightarrow> UserDecision option \<times> bool \<Rightarrow>
   widget list \<times> UserDecision option \<times> bool" where
  "draw_mismatch_panel inp retained_pip presented_pip flags =
     (case flags of (decision, decline) \<Rightarrow>
        let decision = (if fi_button inp BTN_CONFIRM_NEW then Some ConfirmNewIdentity else decision);
            decision = (if fi_button inp BTN_VERIFIED_NEW then Some ConfirmPip else decision);
            decline = (if fi_button inp BTN_STAY then True else decline)
        in ([Frame (action_frame_fill Alert)
               [Text WARNING_SIGN (rich 160 False (accent Alert)),
                Text (lit ''Publisher identity changed - resolve before trusting'')
                  \<lparr>rt_size = None, rt_strong = True, rt_monospace = False, rt_italics = False,
                   rt_color = Some (Rgb 0xF0 0xD8 0xD8)\<rparr>,
                Text MISMATCH_NOTICE (rich 130 False (Rgb 0xF0 0xD8 0xD8)),
                pip_chip (lit ''Previously retained identity'') retained_pip,
                pip_chip (lit ''Newly presented identity'') presented_pip,
                Button BTN_CONFIRM_NEW True, Button BTN_VERIFIED_NEW False, Button BTN_STAY False]],
            decision, decline))"

section \<open>The content area\<close>

definition BTN_SHOW :: ustring where "BTN_SHOW = lit ''Show content for this session''"

definition BLOCK_NOTICE :: ustring where
  "BLOCK_NOTICE = lit ''The publisher missed a committed canary refresh. The content is not shown as current because an expired canary can signal an operational pause or a compromise. You may proceed for this session only.''"

definition draw_canary_block :: "frame_input \<Rightarrow> widget list \<times> bool" where
  "draw_canary_block inp =
     ([Frame (Rgb 0x20 0x18 0x14)
        [Text WARNING_SIGN (rich 180 False (accent Alert)),
         Text (lit ''Content blocked: the publisher's canary has expired'')
           (rich 160 True (Rgb 0xF0 0xE0 0xD8)),
         Text BLOCK_NOTICE (plain\<lparr>rt_color := Some (Rgb 0xD0 0xC0 0xB8)\<rparr>),
         Button BTN_SHOW True]],
      fi_button inp BTN_SHOW)"

definition draw_override_active_notice :: "widget list" where
  "draw_override_active_notice =
     [Frame (Rgb 0x3c 0x30 0x12)
        [Text WARNING_SIGN (rich 140 False (accent Caution)),
         Text (lit ''Expired-canary content is shown by your override for this session.'')
           (rich 130 True (Rgb 0xF2 0xDC 0xA0))]]"

definition BODY :: nat where "BODY = 150"

definition body_color :: color where "body_color = Rgb 0xCC 0xD2 0xDA"

definition muted :: color where "muted = Rgb 0x90 0x98 0xA4"

definition heading_size :: "nat \<Rightarrow> nat" where
  "heading_size level = (if level = 1 then 260 else if level = 2 then 210
     else if level = 3 then 180 else 160)"

text \<open>The enumerated loop over list items, from index \<open>i\<close>.\<close>

fun draw_items :: "bool \<Rightarrow> nat \<Rightarrow> InlineRun list list \<Rightarrow> widget list" where
  "draw_items ordered i [] = []"
| "draw_items ordered i (item # items) =
     (let bullet = (if ordered then decimal (i + 1) @ lit ''.'' else [0x2022])
      in Text bullet (rich BODY False muted) # Job (runs_job item BODY body_color) #
         draw_items ordered (i + 1) items)"

fun handoff_tag :: "HandoffKind \<Rightarrow> ustring" where
  "handoff_tag CarrierKind = lit '' [carrier '' @ [0x2197] @ lit '']''"
| "handoff_tag CitationKind = lit '' [clearnet '' @ [0x2197] @ lit '']''"

text \<open>
  One node, at position \<open>i\<close> of the scene. A clicked external link replaces the pending
  handoff request; nothing else changes it.
\<close>

definition draw_link ::
  "frame_input \<Rightarrow> nat \<Rightarrow> InlineRun list \<Rightarrow> LinkRef \<Rightarrow> Handoff option \<Rightarrow>
   widget list \<times> Handoff option" where
  "draw_link inp i label link handoff =
     (let job = map (\<lambda>s. s\<lparr>sec_underline := True\<rparr>) (runs_job label BODY LINK_COLOR)
      in case external_handoff link of
           Some target \<Rightarrow>
             ([ClickableJob job,
               ClickableText (handoff_tag (ho_kind target)) (rich (BODY - 20) False muted)],
              if fi_link inp i \<or> fi_tag inp i then Some target else handoff)
         | None \<Rightarrow> ([Job job], handoff))"

definition draw_submit_form :: "InlineRun list \<Rightarrow> FormFieldView list \<Rightarrow> ustring \<Rightarrow> widget list" where
  "draw_submit_form label form_fields submit_label =
     Job (runs_job label (BODY + 10) (Rgb 0xF0 0xF2 0xF5)) #
     map (\<lambda>field. Text (field_label field) (rich BODY False muted)) form_fields @
     [Text (lit ''[ '' @ isolate_publisher_text submit_label @ lit '' ]'')
        (rich BODY False body_color)]"

definition draw_note :: "ustring option \<Rightarrow> InlineRun list \<Rightarrow> widget list" where
  "draw_note title runs =
     [Frame (Rgb 0x18 0x20 0x18)
        ((case title of
            Some t \<Rightarrow> [Text (isolate_publisher_text t) (rich BODY True (Rgb 0xF0 0xF2 0xF5))]
          | None \<Rightarrow> []) @
         [Job (runs_job runs BODY body_color)])]"

lemmas draw_arms [simp] = draw_link_def draw_submit_form_def draw_note_def

fun draw_node ::
  "frame_input \<Rightarrow> nat \<Rightarrow> ('p, 'sh) SceneNode \<Rightarrow> Handoff option \<Rightarrow> widget list \<times> Handoff option"
where
  "draw_node inp i (Paragraph runs) handoff = ([Job (runs_job runs BODY body_color)], handoff)"
| "draw_node inp i (Heading level runs) handoff =
     ([Job (runs_job runs (heading_size level) (Rgb 0xF0 0xF2 0xF5))], handoff)"
| "draw_node inp i (CodeBlock text) handoff =
     ([Frame (Rgb 0x16 0x1a 0x20)
        [Text (isolate_publisher_text text)
          ((rich (BODY - 10) False body_color)\<lparr>rt_monospace := True\<rparr>)]], handoff)"
| "draw_node inp i (Quote runs attribution) handoff =
     (Job (map (\<lambda>s. s\<lparr>sec_italics := True\<rparr>) (runs_job runs BODY muted)) #
      (case attribution of
         Some attr \<Rightarrow> [Text (lit ''-- '' @ runs_text attr) (rich (BODY - 20) False muted)]
       | None \<Rightarrow> []), handoff)"
| "draw_node inp i (ListNode ordered items) handoff = (draw_items ordered 0 items, handoff)"
| "draw_node inp i Divider handoff = ([Separator], handoff)"
| "draw_node inp i (ImageNode img) handoff =
     (let display = (if img_alt img = [] then lit ''[image]''
                     else lit ''[image: '' @ isolate_publisher_text (img_alt img) @ lit '']'')
      in ([Frame (Rgb 0x16 0x1a 0x20)
             (Text display (plain\<lparr>rt_color := Some muted\<rparr>) #
              (case img_caption img of
                 Some caption \<Rightarrow>
                   [Text (isolate_publisher_text caption) (rich (BODY - 20) False muted)]
               | None \<Rightarrow> []))], handoff))"
| "draw_node inp i (Link label link) handoff = draw_link inp i label link handoff"
| "draw_node inp i (SubmitForm label form_fields submit_label) handoff =
     (draw_submit_form label form_fields submit_label, handoff)"
| "draw_node inp i (Feedback runs) handoff = ([Job (runs_job runs BODY body_color)], handoff)"
| "draw_node inp i (Note title runs) handoff = (draw_note title runs, handoff)"

fun draw_nodes ::
  "frame_input \<Rightarrow> nat \<Rightarrow> ('p, 'sh) SceneNode list \<Rightarrow> Handoff option \<Rightarrow>
   widget list \<times> Handoff option" where
  "draw_nodes inp i [] handoff = ([], handoff)"
| "draw_nodes inp i (node # nodes) handoff =
     (case draw_node inp i node handoff of (ws, handoff) \<Rightarrow>
      case draw_nodes inp (i + 1) nodes handoff of (ws', handoff) \<Rightarrow> (ws @ ws', handoff))"

definition draw_scene ::
  "frame_input \<Rightarrow> ('p, 'sh) Scene \<Rightarrow> Handoff option \<Rightarrow> widget list \<times> Handoff option" where
  "draw_scene inp scene handoff = draw_nodes inp 0 (scene_nodes scene) handoff"

section \<open>Everything drawn is balanced\<close>

lemma decimal_no_control: "c \<in> set (decimal n) \<Longrightarrow> \<not> is_bidi_control c"
proof (induction n rule: decimal.induct)
  case (1 n)
  then show ?case
    by (cases "n < 10") (auto simp: decimal.simps [of n] is_bidi_control_def)
qed

lemma bidi_balanced_decimal [simp]: "bidi_balanced d (decimal n @ t) = bidi_balanced d t"
  by (rule bidi_balanced_plain) (blast dest: decimal_no_control)

lemma bidi_balanced_glyphs [simp]:
  "bidi_balanced 0 WARNING_SIGN" "bidi_balanced 0 CLOCK_FACE" "bidi_balanced 0 [0x2022]"
  "bidi_balanced 0 (handoff_tag k)"
  by (cases k; simp add: WARNING_SIGN_def CLOCK_FACE_def is_bidi_control_def FSI_def PDI_def
      bidi_balanced_plain)+

lemma bidi_balanced_client_texts [simp]:
  "bidi_balanced 0 NOT_A_CLIENT" "bidi_balanced 0 PIN_NOTICE" "bidi_balanced 0 MISMATCH_NOTICE"
  "bidi_balanced 0 BLOCK_NOTICE" "bidi_balanced 0 BTN_PIN" "bidi_balanced 0 BTN_VERIFIED"
  "bidi_balanced 0 BTN_NOT_NOW" "bidi_balanced 0 BTN_CONFIRM_NEW"
  "bidi_balanced 0 BTN_VERIFIED_NEW" "bidi_balanced 0 BTN_STAY" "bidi_balanced 0 BTN_SHOW"
  unfolding NOT_A_CLIENT_def PIN_NOTICE_def MISMATCH_NOTICE_def BLOCK_NOTICE_def BTN_SHOW_def
    button_defs
  by (rule bidi_balanced_lit_end)+

lemma job_text_map [simp]:
  "job_text (map (\<lambda>s. s\<lparr>sec_italics := b\<rparr>) job) = job_text job"
  "job_text (map (\<lambda>s. s\<lparr>sec_underline := b\<rparr>) job) = job_text job"
  by (induction job) simp_all

lemma bidi_balanced_job [simp]: "bidi_balanced 0 (job_text (runs_job runs sz c))"
  by (simp add: runs_job_text)

text \<open>\<open>safe ws\<close>: every text of \<open>ws\<close> is balanced on its own.\<close>

definition safe :: "widget list \<Rightarrow> bool" where
  "safe ws \<longleftrightarrow> list_all (bidi_balanced 0) (all_texts ws)"

lemma safe_simps [simp]:
  "safe []" "safe (w # ws) \<longleftrightarrow> list_all (bidi_balanced 0) (texts w) \<and> safe ws"
  "safe (ws @ vs) \<longleftrightarrow> safe ws \<and> safe vs"
  "list_all (bidi_balanced 0) (concat (map texts ws)) \<longleftrightarrow> safe ws"
  by (simp_all add: safe_def all_texts_def)

lemma draw_items_safe: "safe (draw_items ordered i items)"
  by (induction items arbitrary: i)
    (simp_all add: Let_def is_bidi_control_def FSI_def PDI_def)

lemma safe_map: "(\<And>x. x \<in> set xs \<Longrightarrow> list_all (bidi_balanced 0) (texts (f x))) \<Longrightarrow> safe (map f xs)"
  by (induction xs) simp_all

lemma draw_node_safe: "safe (fst (draw_node inp i node handoff))"
  by (cases node)
    (simp_all add: draw_items_safe safe_map Let_def split: option.splits)

lemma draw_nodes_safe: "safe (fst (draw_nodes inp i nodes handoff))"
proof (induction nodes arbitrary: i handoff)
  case (Cons node nodes)
  then show ?case
    using draw_node_safe [of inp i node handoff] Cons.IH
    by (simp split: prod.split) (metis fst_conv)
qed simp

lemma draw_scene_safe: "safe (fst (draw_scene inp scene handoff))"
  by (simp add: draw_scene_def draw_nodes_safe)

lemma bidi_balanced_uppercase [simp]: "bidi_balanced 0 (to_ascii_uppercase (lit s))"
proof -
  have "c < 256" if "c \<in> set (to_ascii_uppercase (lit s))" for c
    using that by (auto simp: to_ascii_uppercase_def dest!: lit_less)
  then have "\<forall>c \<in> set (to_ascii_uppercase (lit s)). \<not> is_bidi_control c"
    by (fastforce simp: is_bidi_control_def)
  from bidi_balanced_plain [OF this, of 0 "[]"] show ?thesis by simp
qed

lemma status_pill_safe: "bidi_balanced 0 v \<Longrightarrow> safe [status_pill (lit cat) v sev]"
  by (cases sev) (simp_all add: status_pill_def)

lemma warning_banner_safe: "safe [draw_warning_banner w]"
  by (cases w) (simp_all add: draw_warning_banner_def)

lemma badge_safe:
  "bidi_balanced 0 (fst (trust_badge t))" "bidi_balanced 0 (fst (canary_badge c))"
  by (cases t; simp) (cases c; simp)

lemma draw_pip_card_safe:
  "bidi_balanced 0 (cv_pip_label chrome @ lit '' (PIP)'') \<Longrightarrow> safe (draw_pip_card chrome)"
  by (simp add: draw_pip_card_def Let_def)

lemma draw_chrome_safe:
  assumes "cv_pip_label chrome = PIP_LABEL"
  shows "safe (draw_chrome chrome)"
proof -
  have "safe (map draw_warning_banner ws)" for ws
    by (rule safe_map) (use warning_banner_safe in simp)
  moreover have "safe (draw_pip_card chrome)"
    by (rule draw_pip_card_safe) (simp add: assms PIP_LABEL_def)
  moreover have "safe [status_pill (lit cat) (fst (trust_badge t)) sev]"
    "safe [status_pill (lit cat) (fst (canary_badge c)) sev]"
    "safe [status_pill (lit cat) (lit x) sev]" for cat t c x sev
    by (simp_all only: status_pill_safe badge_safe bidi_balanced_lit_end)
  ultimately show ?thesis
    by (auto simp: draw_chrome_def split: prod.split) (metis fst_conv safe_simps(2))+
qed

lemma draw_panels_safe:
  "safe (fst (draw_pin_panel inp pip flags))"
  "safe (fst (draw_mismatch_panel inp rp pp flags))"
  by (simp_all add: draw_pin_panel_def draw_mismatch_panel_def pip_chip_def Let_def
      split: prod.split)

end
