(* ===== verification/App.thy ===== *)
theory App
  imports File_Stores Gui_Load Gui_Draw
begin

text \<open>
  The application object of \<open>crates/entangled-client-gui/src/main.rs\<close>: \<open>App::new\<close>, the
  decision path \<open>apply_and_persist\<close> and \<open>persist\<close> over the file stores, the link dialog and
  \<open>update\<close>, one frame. A frame maps the user's input and the state to the widgets drawn, the
  new state and the new world. Messages written with \<open>eprintln!\<close> are returned.
\<close>

section \<open>State\<close>

record StoreHandle =
  sh_identities :: FileIdentityStore
  sh_history :: FileHistoryStore

definition store_handle_open :: "StoreRoot \<Rightarrow> StoreHandle" where
  "store_handle_open root = \<lparr>sh_identities = fis_new root, sh_history = fhs_new root\<rparr>"

record PinPromptState =
  pps_pip :: ustring

record MismatchState =
  ms_presented_pip :: ustring
  ms_retained_pip :: ustring

record ('pk, 'rk, 'ts, 'on, 'p, 'sh) App =
  app_loaded :: "('pk, 'rk, 'ts, 'on, 'p, 'sh) Loaded"
  app_store :: StoreHandle
  app_handoff :: "Handoff option"
  app_canary_override :: bool
  app_pin_prompt :: "PinPromptState option"
  app_mismatch_prompt :: "MismatchState option"

section \<open>Persisting\<close>

text \<open>The publisher an intent retains, \<open>None\<close> where \<open>persist\<close> returns early.\<close>

fun intent_publisher :: "'pk PersistenceIntent \<Rightarrow> 'pk option" where
  "intent_publisher None_intent = None"
| "intent_publisher (RecordObservation k) = Some k"
| "intent_publisher (PinIdentity k) = Some k"
| "intent_publisher (MarkExternallyVerified k) = Some k"
| "intent_publisher (ReplaceIdentity n old v) = Some n"

definition app_persist ::
  "('on, 'pk, 'ts, 'rk, 'z) store_deps_scheme \<Rightarrow> ('pk, 'rk, 'ts, 'on, 'p, 'sh) App \<Rightarrow>
   'pk PersistenceIntent \<Rightarrow> (world, StoreError, unit) action" where
  "app_persist D app intent =
     act_bind (fis_apply D (sh_identities (app_store app)) (ld_site (app_loaded app)) intent) (\<lambda>_.
       case intent_publisher intent of
         None \<Rightarrow> act_return ()
       | Some publisher \<Rightarrow>
           (case ld_record (app_loaded app) of
              Some record \<Rightarrow>
                act_bind (fhs_append_record D (sh_history (app_store app)) publisher record)
                  (\<lambda>_. act_return ())
            | None \<Rightarrow> act_return ()))"

fun store_error_display :: "StoreError \<Rightarrow> ustring" where
  "store_error_display (StoreError e) = e"

text \<open>The \<open>if let Err\<close> after \<open>persist\<close> and the \<open>match\<close> on the reloaded identity.\<close>

definition persist_and_reload ::
  "('on, 'pk, 'ts, 'rk, 'z) store_deps_scheme \<Rightarrow> string \<Rightarrow> 'pk PersistenceIntent \<Rightarrow>
   ('pk, 'rk, 'ts, 'on, 'p, 'sh) App \<Rightarrow> world \<Rightarrow>
   ('pk, 'rk, 'ts, 'on, 'p, 'sh) App \<times> ustring list \<times> world" where
  "persist_and_reload D msg intent app w =
     (case app_persist D app intent w of (r, w1) \<Rightarrow>
      case fis_load_identity D (sh_identities (app_store app)) (ld_site (app_loaded app)) w1 of
        (l, w2) \<Rightarrow>
          ((case l of
              Inr retained \<Rightarrow> app\<lparr>app_loaded := (app_loaded app)\<lparr>ld_retained := retained\<rparr>\<rparr>
            | Inl _ \<Rightarrow> app),
           (case r of Inl e \<Rightarrow> [lit msg @ store_error_display e] | Inr _ \<Rightarrow> []) @
           (case l of Inl e \<Rightarrow>
              [lit ''error: reloading retained identity: '' @ store_error_display e] | Inr _ \<Rightarrow> []),
           w2))"

definition prompts_for ::
  "('pk \<Rightarrow> ustring) \<Rightarrow> ('pk, 'rk, 'ts, 'on, 'p, 'sh) Loaded \<Rightarrow>
   PinPromptState option \<times> MismatchState option" where
  "prompts_for pip_of l =
     (case ld_required_action l of
        PinPrompt \<Rightarrow> (Some \<lparr>pps_pip = cv_pip (ld_chrome l)\<rparr>, None)
      | MismatchWarning \<Rightarrow>
          (None, Some \<lparr>ms_presented_pip = cv_pip (ld_chrome l),
                       ms_retained_pip = (case ld_retained l of
                          None \<Rightarrow> [] | Some r \<Rightarrow> pip_of (pubkey r))\<rparr>)
      | None_action \<Rightarrow> (None, None))"

definition app_new ::
  "('on, 'pk, 'ts, 'rk, 'z) store_deps_scheme \<Rightarrow> ('pk \<Rightarrow> ustring) \<Rightarrow>
   ('pk, 'rk, 'ts, 'on, 'p, 'sh) Loaded \<Rightarrow> StoreHandle \<Rightarrow> world \<Rightarrow>
   ('pk, 'rk, 'ts, 'on, 'p, 'sh) App \<times> ustring list \<times> world" where
  "app_new D pip_of loaded store w =
     (case prompts_for pip_of loaded of (pin_prompt, mismatch_prompt) \<Rightarrow>
        persist_and_reload D ''error: persisting first-contact observation: ''
          (ld_initial_intent loaded)
          \<lparr>app_loaded = loaded, app_store = store, app_handoff = None,
           app_canary_override = False, app_pin_prompt = pin_prompt,
           app_mismatch_prompt = mismatch_prompt\<rparr> w)"

definition apply_and_persist ::
  "('on, 'pk, 'ts, 'rk, 'z) store_deps_scheme \<Rightarrow> ('pk \<Rightarrow> ustring) \<Rightarrow> UserDecision \<Rightarrow>
   ('pk, 'rk, 'ts, 'on, 'p, 'sh) App \<Rightarrow> world \<Rightarrow>
   ('pk, 'rk, 'ts, 'on, 'p, 'sh) App \<times> ustring list \<times> world" where
  "apply_and_persist D pip_of decision app w =
     (case apply_decision pip_of decision (app_loaded app) of (intent, loaded) \<Rightarrow>
      case persist_and_reload D ''error: persisting trust decision: '' intent
             (app\<lparr>app_loaded := loaded\<rparr>) w of
        (app, msgs, w) \<Rightarrow>
          (app\<lparr>app_pin_prompt := None, app_mismatch_prompt := None\<rparr>, msgs, w))"

section \<open>One frame\<close>

definition draw_action_panel ::
  "frame_input \<Rightarrow> ('pk, 'rk, 'ts, 'on, 'p, 'sh) App \<Rightarrow> UserDecision option \<times> bool \<Rightarrow>
   widget list \<times> UserDecision option \<times> bool" where
  "draw_action_panel inp app flags =
     (case app_pin_prompt app of
        Some state \<Rightarrow> draw_pin_panel inp (pps_pip state) flags
      | None \<Rightarrow>
          (case app_mismatch_prompt app of
             Some state \<Rightarrow>
               draw_mismatch_panel inp (ms_retained_pip state) (ms_presented_pip state) flags
           | None \<Rightarrow> ([], flags)))"

definition BTN_COPY :: ustring where "BTN_COPY = lit ''Copy URL''"
definition BTN_CANCEL :: ustring where "BTN_CANCEL = lit ''Cancel''"

definition CARRIER_NOTICE :: ustring where
  "CARRIER_NOTICE = lit ''This link points outside Entangled to a service reachable over the carrier (Tor), not the clearnet. It is not auto-opened: copying it lets you open it in a carrier-aware browser (such as Tor Browser). Do not open it in a browser that would resolve the host over public DNS or the clearnet, which would leak the request and defeat the carrier's confidentiality.''"

definition CITATION_NOTICE :: ustring where
  "CITATION_NOTICE = lit ''This link leaves Entangled for the clearnet. Opening or copying it transmits the URL outside the carrier; the destination and any in-path observer on the clearnet may learn it was reached from here.''"

fun handoff_texts :: "HandoffKind \<Rightarrow> ustring \<times> ustring" where
  "handoff_texts CarrierKind = (lit ''Open carrier link?'', CARRIER_NOTICE)"
| "handoff_texts CitationKind = (lit ''Open clearnet link?'', CITATION_NOTICE)"

text \<open>The dialog: its title and widgets when open, what was copied, the dialog afterwards.\<close>

definition show_handoff ::
  "frame_input \<Rightarrow> Handoff option \<Rightarrow> (ustring \<times> widget list) option \<times> ustring option \<times> Handoff option"
where
  "show_handoff inp handoff =
     (case handoff of
        None \<Rightarrow> (None, None, None)
      | Some target \<Rightarrow>
          (case handoff_texts (ho_kind target) of (title, notice) \<Rightarrow>
            (Some (title,
               [Text WARNING_SIGN (rich 160 False (accent Caution)),
                Text (lit ''Trust boundary'')
                  (plain\<lparr>rt_strong := True, rt_color := Some (accent Caution)\<rparr>),
                Text notice (plain\<lparr>rt_color := Some (Rgb 0xE6 0xCF 0x9a)\<rparr>),
                Frame (Rgb 0x15 0x1a 0x22)
                  [Text (isolate_publisher_text (ho_url target))
                    (plain\<lparr>rt_monospace := True, rt_color := Some (Rgb 0x9a 0xB0 0xC8)\<rparr>)],
                Button BTN_COPY True, Button BTN_CANCEL False]),
             (if fi_button inp BTN_COPY then Some (ho_url target) else None),
             (if fi_button inp BTN_COPY \<or> fi_button inp BTN_CANCEL \<or> fi_close_window inp
              then None else Some target))))"

record frame_output =
  fo_chrome :: "widget list"
  fo_content :: "widget list"
  fo_window :: "(ustring \<times> widget list) option"
  fo_copied :: "ustring option"
  fo_messages :: "ustring list"

text \<open>The central panel: what it draws, the link requested, whether the override was clicked.\<close>

definition draw_content ::
  "frame_input \<Rightarrow> ('pk, 'rk, 'ts, 'on, 'p, 'sh) App \<Rightarrow> widget list \<times> Handoff option \<times> bool" where
  "draw_content inp app =
     (let canary_expired = (cv_canary_state (ld_chrome (app_loaded app)) = Expired);
          render_blocked = render_block_active canary_expired (app_canary_override app)
      in if render_blocked then
           (case draw_canary_block inp of (ws, clicked) \<Rightarrow> (ws, None, clicked))
         else
           (let notice = (if canary_expired \<and> app_canary_override app
                          then draw_override_active_notice else [])
            in case ld_scene (app_loaded app) of
                 Some scene \<Rightarrow>
                   (case draw_scene inp scene None of (ws, requested) \<Rightarrow>
                      (notice @ ws, requested, False))
               | None \<Rightarrow>
                   (notice @ [Text (lit ''(manifest only - no content document loaded)'') plain],
                    None, False)))"

definition update ::
  "('on, 'pk, 'ts, 'rk, 'z) store_deps_scheme \<Rightarrow> ('pk \<Rightarrow> ustring) \<Rightarrow> frame_input \<Rightarrow>
   ('pk, 'rk, 'ts, 'on, 'p, 'sh) App \<Rightarrow> world \<Rightarrow>
   frame_output \<times> ('pk, 'rk, 'ts, 'on, 'p, 'sh) App \<times> world" where
  "update D pip_of inp app w =
     (case draw_action_panel inp app (None, False) of (panel, chrome_decision, chrome_decline) \<Rightarrow>
      let chrome_widgets = draw_chrome (ld_chrome (app_loaded app)) @ panel
      in case (case chrome_decision of
                 Some d \<Rightarrow> apply_and_persist D pip_of d app w
               | None \<Rightarrow>
                   ((if chrome_decline then app\<lparr>app_pin_prompt := None, app_mismatch_prompt := None\<rparr>
                     else app), [], w)) of
        (app, msgs, w) \<Rightarrow>
          (case draw_content inp app of (content_widgets, requested, override_clicked) \<Rightarrow>
           let app = (if override_clicked then app\<lparr>app_canary_override := True\<rparr> else app);
               app = (case requested of Some target \<Rightarrow> app\<lparr>app_handoff := Some target\<rparr> | None \<Rightarrow> app)
           in case show_handoff inp (app_handoff app) of (window, copied, handoff) \<Rightarrow>
                (\<lparr>fo_chrome = chrome_widgets, fo_content = content_widgets, fo_window = window,
                  fo_copied = copied, fo_messages = msgs\<rparr>,
                 app\<lparr>app_handoff := handoff\<rparr>, w)))"

text \<open>The frames of a window, in order, with the outputs.\<close>

fun app_run ::
  "('on, 'pk, 'ts, 'rk, 'z) store_deps_scheme \<Rightarrow> ('pk \<Rightarrow> ustring) \<Rightarrow> frame_input list \<Rightarrow>
   ('pk, 'rk, 'ts, 'on, 'p, 'sh) App \<Rightarrow> world \<Rightarrow>
   frame_output list \<times> ('pk, 'rk, 'ts, 'on, 'p, 'sh) App \<times> world" where
  "app_run D pip_of [] app w = ([], app, w)"
| "app_run D pip_of (inp # inps) app w =
     (case update D pip_of inp app w of (out, app, w) \<Rightarrow>
      case app_run D pip_of inps app w of (outs, app, w) \<Rightarrow> (out # outs, app, w))"

end
