(* ===== verification/App_Safety.thy ===== *)
theory App_Safety
  imports App
begin

text \<open>
  What the window guarantees: the decisions a session persists refine the trust ledger, so
  no identity is replaced without its button; the content area shows nothing of a blocked
  document; every text drawn is bidi-balanced; a link is only ever copied.
\<close>

section \<open>Persisting a decision\<close>

lemma app_persist_content:
  assumes inv: "fis_inv D (sh_identities (app_store app)) w"
    and p: "app_persist D app i w = (r, w')"
  shows "fis_inv D (sh_identities (app_store app)) w'"
    and "fis_content D (sh_identities (app_store app)) w' =
        fis_content D (sh_identities (app_store app)) w \<or>
      fis_content D (sh_identities (app_store app)) w' =
        (fis_content D (sh_identities (app_store app)) w)(ld_site (app_loaded app) :=
          intent_effect i (fis_content D (sh_identities (app_store app)) w
            (ld_site (app_loaded app))))"
proof -
  let ?st = "sh_identities (app_store app)" and ?site = "ld_site (app_loaded app)"
  have D: "store_deps_ok D" using inv by (simp add: fis_inv_def)
  obtain q w1 where a: "fis_apply D ?st ?site i w = (q, w1)" by (cases "fis_apply D ?st ?site i w")
  have inv1: "fis_inv D ?st w1" by (rule fis.apply_inv [OF inv a])
  have c1: "fis_content D ?st w1 = fis_content D ?st w \<or>
      fis_content D ?st w1 = (fis_content D ?st w)(?site := intent_effect i (fis_content D ?st w ?site))"
    using fis.apply_Ok [OF inv, of ?site i _ w1] fis.apply_Err [OF inv, of ?site i _ w1] a
    by (cases q) auto
  have "(r, w') = (q, w1) \<or> (\<exists>k rec s. fhs_append_record D (sh_history (app_store app)) k rec w1 = (s, w'))
    \<or> w' = w1"
    using p a by (auto simp: app_persist_def act_bind_def split: sum.splits option.splits prod.splits)
  then have "fis_content D ?st w' = fis_content D ?st w1 \<and> fis_inv D ?st w'"
    using inv1 fhs_append_keeps_identities [OF D] by (metis prod.inject)
  with c1 show "fis_inv D ?st w'"
    and "fis_content D ?st w' = fis_content D ?st w \<or>
      fis_content D ?st w' =
        (fis_content D ?st w)(?site := intent_effect i (fis_content D ?st w ?site))"
    by simp_all
qed

text \<open>The history after a persisted decision: one more record for every intent but none.\<close>

lemma app_persist_history:
  assumes inv: "fhs_inv D (sh_history (app_store app)) w"
    and p: "app_persist D app i w = (Inr u, w')"
    and ok: "\<forall>r. ld_record (app_loaded app) = Some r \<longrightarrow> record_ok r"
  shows "fhs_inv D (sh_history (app_store app)) w' \<and>
    fhs_content D (sh_history (app_store app)) w' =
      (case (intent_publisher i, ld_record (app_loaded app)) of
         (Some k, Some r) \<Rightarrow> (fhs_content D (sh_history (app_store app)) w)(k :=
            r # fhs_content D (sh_history (app_store app)) w k)
       | _ \<Rightarrow> fhs_content D (sh_history (app_store app)) w)"
proof -
  let ?st = "sh_history (app_store app)"
  have D: "store_deps_ok D" using inv by (simp add: fhs_inv_def)
  obtain q w1 where a: "fis_apply D (sh_identities (app_store app)) (ld_site (app_loaded app)) i w =
      (Inr q, w1)" and rest: "(case intent_publisher i of None \<Rightarrow> act_return ()
       | Some publisher \<Rightarrow> (case ld_record (app_loaded app) of
              Some record \<Rightarrow> act_bind (fhs_append_record D ?st publisher record) (\<lambda>_. act_return ())
            | None \<Rightarrow> act_return ())) w1 = (Inr u, w')"
    using p by (auto simp: app_persist_def act_bind_Inr)
  from fis_apply_keeps_history [OF D a, of ?st]
  have c: "fhs_content D ?st w1 = fhs_content D ?st w" and i1: "fhs_inv D ?st w1"
    using inv by simp_all
  show ?thesis
  proof (cases "intent_publisher i = None \<or> ld_record (app_loaded app) = None")
    case True
    with rest have "w' = w1" by (auto split: option.splits)
    with True c i1 show ?thesis by (auto split: option.splits)
  next
    case False
    then obtain k r where kr: "intent_publisher i = Some k" "ld_record (app_loaded app) = Some r"
      by auto
    with rest have ap: "fhs_append_record D ?st k r w1 = (Inr (), w')"
      by (auto simp: act_bind_Inr)
    have r: "record_ok r" using ok kr(2) by simp
    from fhs.append_Ok [OF i1 r ap] fhs.append_inv [OF i1 r ap] c kr show ?thesis by simp
  qed
qed

lemma persist_and_reload_facts:
  assumes inv: "fis_inv D (sh_identities (app_store app)) w"
    and p: "persist_and_reload D msg i app w = (app', msgs, w')"
  shows "fis_inv D (sh_identities (app_store app)) w'"
    and "fis_content D (sh_identities (app_store app)) w' =
        fis_content D (sh_identities (app_store app)) w \<or>
      fis_content D (sh_identities (app_store app)) w' =
        (fis_content D (sh_identities (app_store app)) w)(ld_site (app_loaded app) :=
          intent_effect i (fis_content D (sh_identities (app_store app)) w
            (ld_site (app_loaded app))))"
    and "app' = app \<or> app' = app\<lparr>app_loaded := (app_loaded app)\<lparr>ld_retained :=
        map_option fst (fis_content D (sh_identities (app_store app)) w' (ld_site (app_loaded app)))\<rparr>\<rparr>"
proof -
  let ?st = "sh_identities (app_store app)" and ?site = "ld_site (app_loaded app)"
  obtain r w1 where a: "app_persist D app i w = (r, w1)" by (cases "app_persist D app i w")
  obtain l w2 where l: "fis_load_identity D ?st ?site w1 = (l, w2)"
    by (cases "fis_load_identity D ?st ?site w1")
  have w': "w' = w2" using p a l by (simp add: persist_and_reload_def)
  note inv1 = app_persist_content(1) [OF inv a] and c1 = app_persist_content(2) [OF inv a]
  note inv2 = fis.load_inv [OF inv1 l] and c2 = fis.load_frame [OF inv1 l]
  show "fis_inv D ?st w'" using inv2 w' by simp
  show "fis_content D ?st w' = fis_content D ?st w \<or> fis_content D ?st w' =
      (fis_content D ?st w)(?site := intent_effect i (fis_content D ?st w ?site))"
    using c1 c2 w' by simp
  show "app' = app \<or> app' = app\<lparr>app_loaded := (app_loaded app)\<lparr>ld_retained :=
      map_option fst (fis_content D ?st w' ?site)\<rparr>\<rparr>"
  proof (cases l)
    case (Inl e)
    with p a l show ?thesis by (simp add: persist_and_reload_def)
  next
    case (Inr x)
    with p a l fis.load_Ok [OF inv1, of ?site x w2] c2 w' show ?thesis
      by (simp add: persist_and_reload_def)
  qed
qed

section \<open>The application's view of the store\<close>

text \<open>
  What the retained identity in memory may be, given the site's record: the record's, or none
  while the record is of the presented key (its observation was written and the reload
  failed).
\<close>

definition view_agrees :: "'pk \<Rightarrow> 'pk RetainedIdentity option \<Rightarrow> 'pk site_record \<Rightarrow> bool" where
  "view_agrees publisher retained rec \<longleftrightarrow>
     (case rec of
        None \<Rightarrow> retained = None
      | Some (r, _) \<Rightarrow> retained = Some r \<or> (retained = None \<and> pubkey r = publisher))"

lemma view_agrees_effect:
  assumes "view_agrees publisher retained rec"
  shows "intent_effect (res_intent (resolve publisher retained d)) rec = visit_effect publisher d rec"
proof (cases rec)
  case None
  with assms show ?thesis by (simp add: view_agrees_def visit_effect_def)
next
  case (Some x)
  obtain r ks where rec: "rec = Some (r, ks)" using Some by (cases x) auto
  consider "retained = Some r" | "retained = None" "pubkey r = publisher"
    using assms rec by (auto simp: view_agrees_def)
  then show ?thesis
  proof cases
    case 1
    with rec show ?thesis by (simp add: visit_effect_def)
  next
    case 2
    have r: "r = \<lparr>pubkey = publisher, provenance = provenance r\<rparr>" using 2(2) by (cases r) simp
    have "intent_effect (res_intent (first_contact publisher d)) (Some (r, ks)) =
      visit_effect publisher d (Some (r, ks))"
      unfolding visit_effect_same [OF 2(2)] using r
      by (cases d; cases "provenance r") (auto simp: max_def)
    with 2(1) rec show ?thesis by (simp add: resolve_def)
  qed
qed

text \<open>
  The invariant of a session: the store is readable, the view agrees with it while a prompt
  is open, and the pinning prompt is open only where it cannot replace a key.
\<close>

definition app_inv ::
  "('on, 'pk, 'ts, 'rk, 'z) store_deps_scheme \<Rightarrow> ('pk, 'rk, 'ts, 'on, 'p, 'sh) App \<Rightarrow> world \<Rightarrow> bool"
where
  "app_inv D app w \<longleftrightarrow>
     (let rec = fis_content D (sh_identities (app_store app)) w (ld_site (app_loaded app));
          publisher = ld_publisher (app_loaded app)
      in fis_inv D (sh_identities (app_store app)) w \<and>
         (app_pin_prompt app = None \<and> app_mismatch_prompt app = None \<or>
          view_agrees publisher (ld_retained (app_loaded app)) rec) \<and>
         (app_pin_prompt app \<noteq> None \<longrightarrow>
            (case rec of None \<Rightarrow> True | Some (r, _) \<Rightarrow> pubkey r = publisher)))"

text \<open>A load against the store's record, and the intents and prompts it starts with.\<close>

definition loaded_from ::
  "('on, 'pk, 'ts, 'rk, 'z) store_deps_scheme \<Rightarrow> FileIdentityStore \<Rightarrow> world \<Rightarrow>
   ('pk, 'rk, 'ts, 'on, 'p, 'sh) Loaded \<Rightarrow> bool" where
  "loaded_from D st w l \<longleftrightarrow>
     ld_retained l = map_option fst (fis_content D st w (ld_site l)) \<and>
     ld_required_action l = res_action (resolve (ld_publisher l) (ld_retained l) None_decision) \<and>
     ld_initial_intent l = res_intent (resolve (ld_publisher l) (ld_retained l) None_decision)"

lemma load_loaded_from:
  assumes "load C mb cb site addr cn clk retained history = Inr l"
    and "retained = map_option fst (fis_content D st w site)"
  shows "loaded_from D st w l"
  using load_resolution [OF assms(1)] load_Ok [OF assms(1)] assms(2)
  by (auto simp: loaded_from_def load_spec_def)

lemma view_agrees_synced: "view_agrees p (map_option fst rec) rec"
  by (auto simp: view_agrees_def split: option.splits)

lemma visit_none:
  "visit_effect k None_decision rec =
     (case rec of None \<Rightarrow> Some (\<lparr>pubkey = k, provenance = Observed\<rparr>, []) | Some x \<Rightarrow> Some x)"
  by (rule visit_effect_passive) (simp add: affirmative_def)

lemma view_agrees_after_none:
  assumes "rec' = rec \<or> rec' = visit_effect p None_decision rec"
    and "ret' = map_option fst rec \<or> ret' = map_option fst rec'"
  shows "view_agrees p ret' rec'"
  using assms by (cases rec) (auto simp: view_agrees_def visit_none)

lemma pin_prompt_key:
  assumes "res_action (resolve p (map_option fst rec) None_decision) = PinPrompt"
    and "rec' = rec \<or> rec' = visit_effect p None_decision rec"
  shows "case rec' of None \<Rightarrow> True | Some (r, _) \<Rightarrow> pubkey r = p"
  using assms
  by (cases rec)
    (auto simp: resolve_def visit_none split: if_splits option.splits prod.splits)

lemma app_new_inv:
  assumes inv: "fis_inv D (sh_identities store) w"
    and l: "loaded_from D (sh_identities store) w l"
    and n: "app_new D pip_of l store w = (app, msgs, w')"
  shows "app_inv D app w'" and "app_store app = store" "ld_site (app_loaded app) = ld_site l"
      "ld_publisher (app_loaded app) = ld_publisher l"
    and "fis_content D (sh_identities store) w' = fis_content D (sh_identities store) w \<or>
      fis_content D (sh_identities store) w' = (fis_content D (sh_identities store) w)(ld_site l :=
        visit_effect (ld_publisher l) None_decision (fis_content D (sh_identities store) w (ld_site l)))"
proof -
  let ?st = "sh_identities store" and ?site = "ld_site l"
  let ?rec = "fis_content D ?st w ?site" and ?rec' = "fis_content D ?st w' ?site"
  obtain pp mp where prompts: "prompts_for pip_of l = (pp, mp)" by (cases "prompts_for pip_of l")
  define a where "a = \<lparr>app_loaded = l, app_store = store, app_handoff = None,
    app_canary_override = False, app_pin_prompt = pp, app_mismatch_prompt = mp\<rparr>"
  have p: "persist_and_reload D ''error: persisting first-contact observation: ''
      (ld_initial_intent l) a w = (app, msgs, w')"
    using n by (simp add: app_new_def prompts a_def)
  have inv': "fis_inv D (sh_identities (app_store a)) w" using inv by (simp add: a_def)
  note f = persist_and_reload_facts [OF inv' p]
  have eff: "intent_effect (ld_initial_intent l) ?rec = visit_effect (ld_publisher l) None_decision ?rec"
    using l by (simp add: loaded_from_def view_agrees_effect view_agrees_synced)
  show content: "fis_content D ?st w' = fis_content D ?st w \<or> fis_content D ?st w' =
      (fis_content D ?st w)(?site := visit_effect (ld_publisher l) None_decision ?rec)"
    using f(2) eff by (simp add: a_def)
  then have rec': "?rec' = ?rec \<or> ?rec' = visit_effect (ld_publisher l) None_decision ?rec"
    by auto
  show basic: "app_store app = store" "ld_site (app_loaded app) = ?site"
    "ld_publisher (app_loaded app) = ld_publisher l"
    using f(3) by (auto simp: a_def)
  have ret: "ld_retained (app_loaded app) = map_option fst ?rec \<or>
      ld_retained (app_loaded app) = map_option fst ?rec'"
    using f(3) l by (auto simp: a_def loaded_from_def)
  have pp: "app_pin_prompt app = pp" using f(3) by (auto simp: a_def)
  have pin: "pp \<noteq> None \<Longrightarrow> res_action (resolve (ld_publisher l) (map_option fst ?rec) None_decision) = PinPrompt"
    using prompts l by (auto simp: prompts_for_def loaded_from_def split: RequiredAction.splits)
  show "app_inv D app w'"
    unfolding app_inv_def Let_def basic pp
    using f(1) view_agrees_after_none [OF rec' ret] pin_prompt_key [OF pin rec'] by (simp add: a_def)
qed

lemma app_new_prompts:
  assumes "app_new D pip_of l store w = (app, msgs, w')"
  shows "app_pin_prompt app = fst (prompts_for pip_of l)"
    and "app_mismatch_prompt app = snd (prompts_for pip_of l)"
  using assms by (auto simp: app_new_def persist_and_reload_def split: prod.splits sum.splits)

section \<open>A frame\<close>

definition frame_decision ::
  "frame_input \<Rightarrow> ('pk, 'rk, 'ts, 'on, 'p, 'sh) App \<Rightarrow> UserDecision option" where
  "frame_decision inp app = fst (snd (draw_action_panel inp app (None, False)))"

lemma update_run:
  assumes "update D pip_of inp app w = (out, app', w')"
  obtains (decided) d app1 where "frame_decision inp app = Some d"
      "apply_and_persist D pip_of d app w = (app1, fo_messages out, w')"
      "app_loaded app' = app_loaded app1" "app_store app' = app_store app1"
      "app_pin_prompt app' = app_pin_prompt app1" "app_mismatch_prompt app' = app_mismatch_prompt app1"
  | (undecided) "frame_decision inp app = None" "w' = w" "fo_messages out = []"
      "app_loaded app' = app_loaded app" "app_store app' = app_store app"
      "app_pin_prompt app' = app_pin_prompt app \<and> app_mismatch_prompt app' = app_mismatch_prompt app \<or>
       app_pin_prompt app' = None \<and> app_mismatch_prompt app' = None"
proof -
  obtain panel d dec where pan: "draw_action_panel inp app (None, False) = (panel, d, dec)"
    by (cases "draw_action_panel inp app (None, False)") auto
  define x where "x = (case d of Some d \<Rightarrow> apply_and_persist D pip_of d app w
     | None \<Rightarrow> ((if dec then app\<lparr>app_pin_prompt := None, app_mismatch_prompt := None\<rparr> else app), [], w))"
  obtain app1 msgs w1 where x: "x = (app1, msgs, w1)" by (cases x) auto
  have r: "w' = w1" "fo_messages out = msgs" "app_loaded app' = app_loaded app1"
    "app_store app' = app_store app1" "app_pin_prompt app' = app_pin_prompt app1"
    "app_mismatch_prompt app' = app_mismatch_prompt app1"
    using assms unfolding update_def pan Let_def prod.case x_def [symmetric] x
    by (auto split: prod.splits option.splits)
  have fd: "frame_decision inp app = d" by (simp add: frame_decision_def pan)
  show thesis
  proof (cases d)
    case None
    with x x_def r fd undecided show thesis by (auto split: if_splits)
  next
    case (Some e)
    with x x_def r fd decided show thesis by auto
  qed
qed

lemma apply_and_persist_facts:
  assumes inv: "app_inv D app w" and open_prompt: "app_pin_prompt app \<noteq> None \<or> app_mismatch_prompt app \<noteq> None"
    and a: "apply_and_persist D pip_of d app w = (app', msgs, w')"
  shows "app_inv D app' w'" "app_store app' = app_store app"
    "ld_site (app_loaded app') = ld_site (app_loaded app)"
    "ld_publisher (app_loaded app') = ld_publisher (app_loaded app)"
    "app_pin_prompt app' = None" "app_mismatch_prompt app' = None"
    and "fis_content D (sh_identities (app_store app)) w' = fis_content D (sh_identities (app_store app)) w \<or>
      fis_content D (sh_identities (app_store app)) w' =
        (fis_content D (sh_identities (app_store app)) w)(ld_site (app_loaded app) :=
          visit_effect (ld_publisher (app_loaded app)) d
            (fis_content D (sh_identities (app_store app)) w (ld_site (app_loaded app))))"
proof -
  let ?st = "sh_identities (app_store app)"
  obtain i l where ad: "apply_decision pip_of d (app_loaded app) = (i, l)"
    by (cases "apply_decision pip_of d (app_loaded app)")
  note ad' = apply_decision_resolution [OF ad]
  define app0 where "app0 = app\<lparr>app_loaded := l\<rparr>"
  obtain app1 where p: "persist_and_reload D ''error: persisting trust decision: '' i app0 w =
      (app1, msgs, w')" and app': "app' = app1\<lparr>app_pin_prompt := None, app_mismatch_prompt := None\<rparr>"
    using a by (auto simp: apply_and_persist_def ad app0_def split: prod.splits)
  have inv0: "fis_inv D (sh_identities (app_store app0)) w"
    using inv by (simp add: app_inv_def app0_def Let_def)
  note f = persist_and_reload_facts [OF inv0 p]
  have "view_agrees (ld_publisher (app_loaded app)) (ld_retained (app_loaded app))
      (fis_content D ?st w (ld_site (app_loaded app)))"
    using inv open_prompt by (auto simp: app_inv_def Let_def)
  from view_agrees_effect [OF this, of d]
  show "fis_content D ?st w' = fis_content D ?st w \<or> fis_content D ?st w' =
      (fis_content D ?st w)(ld_site (app_loaded app) := visit_effect (ld_publisher (app_loaded app)) d
            (fis_content D ?st w (ld_site (app_loaded app))))"
    using f(2) ad'(1,4) by (simp add: app0_def)
  show "app_store app' = app_store app" "ld_site (app_loaded app') = ld_site (app_loaded app)"
    "ld_publisher (app_loaded app') = ld_publisher (app_loaded app)"
    "app_pin_prompt app' = None" "app_mismatch_prompt app' = None"
    using f(3) ad'(3,4) by (auto simp: app' app0_def)
  then show "app_inv D app' w'"
    using f(1) by (simp add: app_inv_def Let_def app0_def)
qed

lemma frame_decision_prompt:
  "frame_decision inp app = Some d \<Longrightarrow> app_pin_prompt app \<noteq> None \<or> app_mismatch_prompt app \<noteq> None"
  by (auto simp: frame_decision_def draw_action_panel_def split: option.splits)

text \<open>Which buttons a decision needs.\<close>

lemma frame_decision_buttons:
  assumes "frame_decision inp app = Some d"
  shows "(app_pin_prompt app \<noteq> None \<and>
       (d = PinFirstContact \<and> fi_button inp BTN_PIN \<or> d = ConfirmPip \<and> fi_button inp BTN_VERIFIED)) \<or>
    (app_pin_prompt app = None \<and> app_mismatch_prompt app \<noteq> None \<and>
       (d = ConfirmNewIdentity \<and> fi_button inp BTN_CONFIRM_NEW \<or>
        d = ConfirmPip \<and> fi_button inp BTN_VERIFIED_NEW))"
  using assms
  by (auto simp: frame_decision_def draw_action_panel_def draw_pin_panel_def
      draw_mismatch_panel_def Let_def split: option.splits if_splits)

lemma update_facts:
  assumes inv: "app_inv D app w" and u: "update D pip_of inp app w = (out, app', w')"
  shows "app_inv D app' w'" "app_store app' = app_store app"
    "ld_site (app_loaded app') = ld_site (app_loaded app)"
    "ld_publisher (app_loaded app') = ld_publisher (app_loaded app)"
    and "fis_content D (sh_identities (app_store app)) w' = fis_content D (sh_identities (app_store app)) w \<or>
      (\<exists>d. frame_decision inp app = Some d \<and> fis_content D (sh_identities (app_store app)) w' =
        (fis_content D (sh_identities (app_store app)) w)(ld_site (app_loaded app) :=
          visit_effect (ld_publisher (app_loaded app)) d
            (fis_content D (sh_identities (app_store app)) w (ld_site (app_loaded app)))))"
proof -
  have "app_inv D app' w' \<and> app_store app' = app_store app \<and>
    ld_site (app_loaded app') = ld_site (app_loaded app) \<and>
    ld_publisher (app_loaded app') = ld_publisher (app_loaded app) \<and>
    (fis_content D (sh_identities (app_store app)) w' = fis_content D (sh_identities (app_store app)) w \<or>
      (\<exists>d. frame_decision inp app = Some d \<and> fis_content D (sh_identities (app_store app)) w' =
        (fis_content D (sh_identities (app_store app)) w)(ld_site (app_loaded app) :=
          visit_effect (ld_publisher (app_loaded app)) d
            (fis_content D (sh_identities (app_store app)) w (ld_site (app_loaded app))))))"
    using u
  proof (cases rule: update_run)
    case (decided d app1)
    note f = apply_and_persist_facts [OF inv frame_decision_prompt [OF decided(1)] decided(2)]
    have "app_inv D app' w'"
      using f(1) by (simp add: app_inv_def decided(3-6))
    with f decided show ?thesis by auto
  next
    case undecided
    have "app_inv D app' w'"
      using inv undecided(6) by (auto simp: app_inv_def Let_def undecided(2,4,5))
    with undecided show ?thesis by simp
  qed
  then show "app_inv D app' w'" "app_store app' = app_store app"
    "ld_site (app_loaded app') = ld_site (app_loaded app)"
    "ld_publisher (app_loaded app') = ld_publisher (app_loaded app)"
    "fis_content D (sh_identities (app_store app)) w' = fis_content D (sh_identities (app_store app)) w \<or>
      (\<exists>d. frame_decision inp app = Some d \<and> fis_content D (sh_identities (app_store app)) w' =
        (fis_content D (sh_identities (app_store app)) w)(ld_site (app_loaded app) :=
          visit_effect (ld_publisher (app_loaded app)) d
            (fis_content D (sh_identities (app_store app)) w (ld_site (app_loaded app)))))"
    by blast+
qed

section \<open>A session\<close>

text \<open>The identity of a site as the application's store holds it.\<close>

definition app_record ::
  "('on, 'pk, 'ts, 'rk, 'z) store_deps_scheme \<Rightarrow> StoreHandle \<Rightarrow> world \<Rightarrow> 'on \<Rightarrow> 'pk site_record" where
  "app_record D store w site = fis_content D (sh_identities store) w site"

lemma update_record:
  assumes "app_inv D app w" and "update D pip_of inp app w = (out, app', w')"
  shows "app_record D (app_store app) w' site = app_record D (app_store app) w site \<or>
    (site = ld_site (app_loaded app) \<and> (\<exists>d. frame_decision inp app = Some d \<and>
      app_record D (app_store app) w' site =
        visit_effect (ld_publisher (app_loaded app)) d (app_record D (app_store app) w site)))"
  using update_facts(5) [OF assms]
  by (cases "site = ld_site (app_loaded app)") (auto simp: app_record_def)

lemma update_keeps:
  assumes inv: "app_inv D app w" and u: "update D pip_of inp app w = (out, app', w')"
    and rec: "app_record D (app_store app) w site = Some (r, ks)"
    and no: "\<not> fi_button inp BTN_CONFIRM_NEW" "\<not> fi_button inp BTN_VERIFIED_NEW"
  shows "\<exists>r'. app_record D (app_store app) w' site = Some (r', ks) \<and> pubkey r' = pubkey r \<and>
    provenance r \<le> provenance r'"
  using update_record [OF inv u, of site]
proof (elim disjE conjE exE)
  fix d assume site: "site = ld_site (app_loaded app)" and d: "frame_decision inp app = Some d"
    and eff: "app_record D (app_store app) w' site =
      visit_effect (ld_publisher (app_loaded app)) d (app_record D (app_store app) w site)"
  from frame_decision_buttons [OF d] no have "app_pin_prompt app \<noteq> None" by auto
  with inv rec site have "pubkey r = ld_publisher (app_loaded app)"
    by (auto simp: app_inv_def Let_def app_record_def)
  then show ?thesis
    unfolding eff rec by (intro visit_effect_keeps) simp
qed (use rec in auto)

lemma app_run_inv:
  "app_inv D app w \<Longrightarrow> app_run D pip_of inps app w = (outs, app', w') \<Longrightarrow>
     app_inv D app' w' \<and> app_store app' = app_store app \<and>
     ld_site (app_loaded app') = ld_site (app_loaded app) \<and>
     ld_publisher (app_loaded app') = ld_publisher (app_loaded app)"
proof (induction inps arbitrary: app w outs)
  case (Cons inp inps)
  obtain out app1 w1 where u: "update D pip_of inp app w = (out, app1, w1)"
    by (cases "update D pip_of inp app w") auto
  with Cons.prems(2) obtain outs1 where "app_run D pip_of inps app1 w1 = (outs1, app', w')"
    by (auto split: prod.splits)
  with Cons.IH update_facts(1-4) [OF Cons.prems(1) u] show ?case by metis
qed simp

lemma app_run_keeps:
  "app_inv D app w \<Longrightarrow> app_run D pip_of inps app w = (outs, app', w') \<Longrightarrow>
     app_record D (app_store app) w site = Some (r, ks) \<Longrightarrow>
     \<forall>inp \<in> set inps. \<not> fi_button inp BTN_CONFIRM_NEW \<and> \<not> fi_button inp BTN_VERIFIED_NEW \<Longrightarrow>
     \<exists>r'. app_record D (app_store app) w' site = Some (r', ks) \<and> pubkey r' = pubkey r \<and>
       provenance r \<le> provenance r'"
proof (induction inps arbitrary: app w outs r)
  case (Cons inp inps)
  obtain out app1 w1 where u: "update D pip_of inp app w = (out, app1, w1)"
    by (cases "update D pip_of inp app w") auto
  with Cons.prems(2) obtain outs1 where rest: "app_run D pip_of inps app1 w1 = (outs1, app', w')"
    by (auto split: prod.splits)
  note f = update_facts(1,2) [OF Cons.prems(1) u]
  from update_keeps [OF Cons.prems(1) u Cons.prems(3)] Cons.prems(4)
  obtain r1 where r1: "app_record D (app_store app1) w1 site = Some (r1, ks)"
    "pubkey r1 = pubkey r" "provenance r \<le> provenance r1" by (auto simp: f(2))
  from Cons.IH [OF f(1) rest r1(1)] Cons.prems(4) r1(2,3) show ?case
    unfolding f(2) by (auto intro: order_trans)
qed simp

lemma update_log:
  assumes "app_inv D app w" and "update D pip_of inp app w = (out, app', w')"
  shows "suffix (identity_log (app_record D (app_store app) w site))
    (identity_log (app_record D (app_store app) w' site))"
  using update_record [OF assms, of site] visit_effect_log by fastforce

lemma app_run_log:
  "app_inv D app w \<Longrightarrow> app_run D pip_of inps app w = (outs, app', w') \<Longrightarrow>
     suffix (identity_log (app_record D (app_store app) w site))
       (identity_log (app_record D (app_store app) w' site))"
proof (induction inps arbitrary: app w outs)
  case (Cons inp inps)
  obtain out app1 w1 where u: "update D pip_of inp app w = (out, app1, w1)"
    by (cases "update D pip_of inp app w") auto
  with Cons.prems(2) obtain outs1 where rest: "app_run D pip_of inps app1 w1 = (outs1, app', w')"
    by (auto split: prod.splits)
  note f = update_facts(1,2) [OF Cons.prems(1) u]
  from Cons.IH [OF f(1) rest] update_log [OF Cons.prems(1) u, of site] show ?case
    unfolding f(2) by (rule suffix_order.trans [rotated])
qed simp

lemma app_run_other_sites:
  "app_inv D app w \<Longrightarrow> app_run D pip_of inps app w = (outs, app', w') \<Longrightarrow>
     site \<noteq> ld_site (app_loaded app) \<Longrightarrow>
     app_record D (app_store app) w' site = app_record D (app_store app) w site"
proof (induction inps arbitrary: app w outs)
  case (Cons inp inps)
  obtain out app1 w1 where u: "update D pip_of inp app w = (out, app1, w1)"
    by (cases "update D pip_of inp app w") auto
  with Cons.prems(2) obtain outs1 where rest: "app_run D pip_of inps app1 w1 = (outs1, app', w')"
    by (auto split: prod.splits)
  note f = update_facts(1-3) [OF Cons.prems(1) u]
  from Cons.IH [OF f(1) rest] update_record [OF Cons.prems(1) u, of site] Cons.prems(3) show ?case
    unfolding f(2,3) by auto
qed simp

text \<open>The start of a session keeps what is retained, whatever is presented.\<close>

lemma app_new_keeps:
  assumes "fis_inv D (sh_identities store) w" and "loaded_from D (sh_identities store) w l"
    and "app_new D pip_of l store w = (app, msgs, w')"
    and "app_record D store w site = Some x"
  shows "app_record D store w' site = Some x"
  using app_new_inv(5) [OF assms(1-3)] assms(4) by (auto simp: app_record_def visit_none)

lemma app_new_log:
  assumes "fis_inv D (sh_identities store) w" and "loaded_from D (sh_identities store) w l"
    and "app_new D pip_of l store w = (app, msgs, w')"
  shows "suffix (identity_log (app_record D store w site)) (identity_log (app_record D store w' site))"
  using app_new_inv(5) [OF assms(1-3)] visit_effect_log by (auto simp: app_record_def)

text \<open>
  A session that starts at a site with a retained identity persists nothing when it starts:
  in particular no history record, although a manifest was accepted.
\<close>

lemma resolve_known_passive: "res_intent (resolve k (Some r) None_decision) = None_intent"
  by (cases "provenance r") (simp_all add: resolve_def matched_def)

lemma app_new_known:
  assumes l: "loaded_from D (sh_identities store) w l"
    and known: "app_record D store w (ld_site l) = Some x"
    and n: "app_new D pip_of l store w = (app, msgs, w')"
  shows "w_files w' = w_files w"
proof -
  have "ld_initial_intent l = None_intent"
    using l known by (cases x) (simp add: loaded_from_def app_record_def resolve_known_passive)
  then have "app_persist D a (ld_initial_intent l) w = (Inr (), w)" for a :: "('b, 'd, 'c, 'a, 'f, 'g) App"
    by (simp add: app_persist_def act_bind_def)
  with n show ?thesis
    by (auto simp: app_new_def persist_and_reload_def dest!: fis_load_identity_run(1)
        split: prod.splits)
qed

text \<open>Frames without a click on a decision button write nothing at all.\<close>

definition no_decision_clicked :: "frame_input \<Rightarrow> bool" where
  "no_decision_clicked inp \<longleftrightarrow>
     \<not> fi_button inp BTN_PIN \<and> \<not> fi_button inp BTN_VERIFIED \<and>
     \<not> fi_button inp BTN_CONFIRM_NEW \<and> \<not> fi_button inp BTN_VERIFIED_NEW"

lemma no_decision_clicked_frame:
  "no_decision_clicked inp \<Longrightarrow> frame_decision inp app = None"
  using frame_decision_buttons [of inp app]
  by (cases "frame_decision inp app") (auto simp: no_decision_clicked_def)

lemma update_passive:
  assumes "no_decision_clicked inp" and "update D pip_of inp app w = (out, app', w')"
  shows "w' = w \<and> app_loaded app' = app_loaded app"
  using assms(2) no_decision_clicked_frame [OF assms(1), of app]
  by (cases rule: update_run) simp_all

lemma app_run_passive:
  "\<forall>inp \<in> set inps. no_decision_clicked inp \<Longrightarrow>
     app_run D pip_of inps app w = (outs, app', w') \<Longrightarrow>
     w' = w \<and> app_loaded app' = app_loaded app"
proof (induction inps arbitrary: app w outs)
  case (Cons inp inps)
  obtain out app1 w1 where u: "update D pip_of inp app w = (out, app1, w1)"
    by (cases "update D pip_of inp app w") auto
  with Cons.prems(2) obtain outs1 where rest: "app_run D pip_of inps app1 w1 = (outs1, app', w')"
    by (auto split: prod.splits)
  with Cons.IH [OF _ rest] update_passive [OF _ u] Cons.prems(1) show ?case by simp
qed simp

section \<open>What a frame shows\<close>

text \<open>
  An expired canary without the override blocks the content area: the block is drawn, no link
  of the document can be requested, and nothing depends on the document.
\<close>

definition content_blocked :: "('pk, 'rk, 'ts, 'on, 'p, 'sh) App \<Rightarrow> bool" where
  "content_blocked app \<longleftrightarrow>
     cv_canary_state (ld_chrome (app_loaded app)) = Expired \<and> \<not> app_canary_override app"

definition with_scene ::
  "('p, 'sh) Scene option \<Rightarrow> ('pk, 'rk, 'ts, 'on, 'p, 'sh) App \<Rightarrow>
   ('pk, 'rk, 'ts, 'on, 'p, 'sh) App" where
  "with_scene s app = app\<lparr>app_loaded := (app_loaded app)\<lparr>ld_scene := s\<rparr>\<rparr>"

lemma with_scene_simps [simp]:
  "app_store (with_scene s app) = app_store app"
  "app_handoff (with_scene s app) = app_handoff app"
  "app_canary_override (with_scene s app) = app_canary_override app"
  "app_pin_prompt (with_scene s app) = app_pin_prompt app"
  "app_mismatch_prompt (with_scene s app) = app_mismatch_prompt app"
  "ld_chrome (app_loaded (with_scene s app)) = ld_chrome (app_loaded app)"
  "ld_scene (app_loaded (with_scene s app)) = s"
  "ld_site (app_loaded (with_scene s app)) = ld_site (app_loaded app)"
  "ld_record (app_loaded (with_scene s app)) = ld_record (app_loaded app)"
  by (simp_all add: with_scene_def)

lemma draw_content_blocked:
  "content_blocked app \<Longrightarrow> draw_content inp app =
     (fst (draw_canary_block inp), None, fi_button inp BTN_SHOW)"
  by (simp add: draw_content_def content_blocked_def render_block_active_def draw_canary_block_def)

lemma app_persist_scene: "app_persist D (with_scene s app) i = app_persist D app i"
  unfolding app_persist_def with_scene_simps by (rule refl)

lemma persist_and_reload_scene:
  "persist_and_reload D msg i (with_scene s app) w =
     (case persist_and_reload D msg i app w of (a, m, w') \<Rightarrow> (with_scene s a, m, w'))"
proof -
  obtain r w1 where p: "app_persist D app i w = (r, w1)" by (cases "app_persist D app i w")
  obtain l w2 where l: "fis_load_identity D (sh_identities (app_store app)) (ld_site (app_loaded app))
      w1 = (l, w2)"
    by (cases "fis_load_identity D (sh_identities (app_store app)) (ld_site (app_loaded app)) w1")
  show ?thesis
    unfolding persist_and_reload_def app_persist_scene with_scene_simps p prod.case l
    by (cases l) (simp_all add: with_scene_def)
qed

lemma apply_and_persist_scene:
  "apply_and_persist D pip_of d (with_scene s app) w =
     (case apply_and_persist D pip_of d app w of (a, m, w') \<Rightarrow> (with_scene s a, m, w'))"
proof -
  obtain i l where ad: "apply_decision pip_of d (app_loaded app) = (i, l)"
    by (cases "apply_decision pip_of d (app_loaded app)")
  have ad': "apply_decision pip_of d (app_loaded (with_scene s app)) = (i, l\<lparr>ld_scene := s\<rparr>)"
    using ad by (auto simp: apply_decision_def with_scene_def Let_def)
  have ws: "(with_scene s app)\<lparr>app_loaded := l\<lparr>ld_scene := s\<rparr>\<rparr> = with_scene s (app\<lparr>app_loaded := l\<rparr>)"
    by (simp add: with_scene_def)
  obtain a m w' where p: "persist_and_reload D ''error: persisting trust decision: '' i
      (app\<lparr>app_loaded := l\<rparr>) w = (a, m, w')"
    by (cases "persist_and_reload D ''error: persisting trust decision: '' i (app\<lparr>app_loaded := l\<rparr>) w")
      auto
  show ?thesis
    unfolding apply_and_persist_def ad ad' prod.case ws persist_and_reload_scene p
    by (simp add: with_scene_def)
qed

text \<open>The state before the content area is drawn: the outcome of the chrome's decision.\<close>

definition after_chrome ::
  "('on, 'pk, 'ts, 'rk, 'z) store_deps_scheme \<Rightarrow> ('pk \<Rightarrow> ustring) \<Rightarrow> frame_input \<Rightarrow>
   ('pk, 'rk, 'ts, 'on, 'p, 'sh) App \<Rightarrow> world \<Rightarrow>
   ('pk, 'rk, 'ts, 'on, 'p, 'sh) App \<times> ustring list \<times> world" where
  "after_chrome D pip_of inp app w =
     (case draw_action_panel inp app (None, False) of (_, d, dec) \<Rightarrow>
        (case d of
           Some d \<Rightarrow> apply_and_persist D pip_of d app w
         | None \<Rightarrow> ((if dec then app\<lparr>app_pin_prompt := None, app_mismatch_prompt := None\<rparr>
                    else app), [], w)))"

lemma update_alt:
  "update D pip_of inp app w =
     (case after_chrome D pip_of inp app w of (app1, msgs, w') \<Rightarrow>
      case draw_content inp app1 of (content_widgets, requested, clicked) \<Rightarrow>
      case show_handoff inp (case requested of Some t \<Rightarrow> Some t | None \<Rightarrow> app_handoff app1) of
        (window, copied, handoff) \<Rightarrow>
       (\<lparr>fo_chrome = draw_chrome (ld_chrome (app_loaded app)) @
           fst (draw_action_panel inp app (None, False)),
         fo_content = content_widgets, fo_window = window, fo_copied = copied,
         fo_messages = msgs\<rparr>,
        app1\<lparr>app_canary_override := app_canary_override app1 \<or> clicked, app_handoff := handoff\<rparr>,
        w'))"
  by (simp add: update_def after_chrome_def Let_def split: prod.split option.split)

lemma draw_action_panel_scene [simp]:
  "draw_action_panel inp (with_scene s app) flags = draw_action_panel inp app flags"
  unfolding draw_action_panel_def with_scene_simps by (rule refl)

lemma after_chrome_scene:
  "after_chrome D pip_of inp (with_scene s app) w =
     (case after_chrome D pip_of inp app w of (a, m, w') \<Rightarrow> (with_scene s a, m, w'))"
  by (simp add: after_chrome_def apply_and_persist_scene split: prod.split option.split)
    (simp add: with_scene_def)

lemma persist_and_reload_app:
  "persist_and_reload D msg i app w = (app', msgs, w') \<Longrightarrow>
     \<exists>ret. app' = app\<lparr>app_loaded := (app_loaded app)\<lparr>ld_retained := ret\<rparr>\<rparr>"
  by (auto simp: persist_and_reload_def split: prod.splits sum.splits
      intro: exI [of _ "ld_retained (app_loaded app)"])

lemma apply_and_persist_app:
  assumes "apply_and_persist D pip_of d app w = (app', msgs, w')"
  shows "app_handoff app' = app_handoff app" "app_canary_override app' = app_canary_override app"
    "ld_scene (app_loaded app') = ld_scene (app_loaded app)"
    "ld_canary_state (app_loaded app') = ld_canary_state (app_loaded app)"
    "ld_chrome (app_loaded app') = chrome_build pip_of (ld_publisher (app_loaded app))
       (res_state (resolve (ld_publisher (app_loaded app)) (ld_retained (app_loaded app)) d))
       (ld_canary_state (app_loaded app)) (ld_compact_address (app_loaded app))
       chrome_conditions_default"
    "app_pin_prompt app' = None" "app_mismatch_prompt app' = None"
proof -
  obtain i l where ad: "apply_decision pip_of d (app_loaded app) = (i, l)"
    by (cases "apply_decision pip_of d (app_loaded app)")
  then obtain app1 where p: "persist_and_reload D ''error: persisting trust decision: '' i
      (app\<lparr>app_loaded := l\<rparr>) w = (app1, msgs, w')"
    and app': "app' = app1\<lparr>app_pin_prompt := None, app_mismatch_prompt := None\<rparr>"
    using assms by (auto simp: apply_and_persist_def split: prod.splits)
  from persist_and_reload_app [OF p] obtain ret
    where a1: "app1 = app\<lparr>app_loaded := l\<lparr>ld_retained := ret\<rparr>\<rparr>" by auto
  note r = apply_decision_resolution [OF ad]
  show "app_handoff app' = app_handoff app" "app_canary_override app' = app_canary_override app"
    "ld_scene (app_loaded app') = ld_scene (app_loaded app)"
    "ld_canary_state (app_loaded app') = ld_canary_state (app_loaded app)"
    "ld_chrome (app_loaded app') = chrome_build pip_of (ld_publisher (app_loaded app))
       (res_state (resolve (ld_publisher (app_loaded app)) (ld_retained (app_loaded app)) d))
       (ld_canary_state (app_loaded app)) (ld_compact_address (app_loaded app))
       chrome_conditions_default"
    "app_pin_prompt app' = None" "app_mismatch_prompt app' = None"
    by (simp_all add: app' a1 r)
qed

text \<open>The chrome shows the canary state the pipeline computed, whatever was decided.\<close>

definition chrome_canary_ok :: "('pk, 'rk, 'ts, 'on, 'p, 'sh) App \<Rightarrow> bool" where
  "chrome_canary_ok app \<longleftrightarrow>
     cv_canary_state (ld_chrome (app_loaded app)) = ld_canary_state (app_loaded app)"

lemma after_chrome_app:
  assumes "after_chrome D pip_of inp app w = (app1, msgs, w')"
  shows "app_handoff app1 = app_handoff app" "app_canary_override app1 = app_canary_override app"
    "ld_scene (app_loaded app1) = ld_scene (app_loaded app)"
    "ld_canary_state (app_loaded app1) = ld_canary_state (app_loaded app)"
    "chrome_canary_ok app \<Longrightarrow> chrome_canary_ok app1"
    "cv_pip_label (ld_chrome (app_loaded app)) = PIP_LABEL \<Longrightarrow>
       cv_pip_label (ld_chrome (app_loaded app1)) = PIP_LABEL"
proof -
  obtain panel d dec where pan: "draw_action_panel inp app (None, False) = (panel, d, dec)"
    by (cases "draw_action_panel inp app (None, False)") auto
  have "app_handoff app1 = app_handoff app \<and> app_canary_override app1 = app_canary_override app \<and>
    ld_scene (app_loaded app1) = ld_scene (app_loaded app) \<and>
    ld_canary_state (app_loaded app1) = ld_canary_state (app_loaded app) \<and>
    (chrome_canary_ok app \<longrightarrow> chrome_canary_ok app1) \<and>
    (cv_pip_label (ld_chrome (app_loaded app)) = PIP_LABEL \<longrightarrow>
       cv_pip_label (ld_chrome (app_loaded app1)) = PIP_LABEL)"
  proof (cases d)
    case None
    with assms show ?thesis
      by (cases dec) (auto simp: after_chrome_def pan chrome_canary_ok_def)
  next
    case (Some e)
    with assms have a: "apply_and_persist D pip_of e app w = (app1, msgs, w')"
      by (simp add: after_chrome_def pan)
    show ?thesis by (simp add: apply_and_persist_app [OF a] chrome_canary_ok_def)
  qed
  then show "app_handoff app1 = app_handoff app" "app_canary_override app1 = app_canary_override app"
    "ld_scene (app_loaded app1) = ld_scene (app_loaded app)"
    "ld_canary_state (app_loaded app1) = ld_canary_state (app_loaded app)"
    "chrome_canary_ok app \<Longrightarrow> chrome_canary_ok app1"
    "cv_pip_label (ld_chrome (app_loaded app)) = PIP_LABEL \<Longrightarrow>
       cv_pip_label (ld_chrome (app_loaded app1)) = PIP_LABEL"
    by simp_all
qed

text \<open>
  The chrome of a session is always one that \<open>chrome_build\<close> made for the loaded publisher,
  canary state and address, and while a prompt is open it shows the whole phrase.
\<close>

definition chrome_built :: "('pk \<Rightarrow> ustring) \<Rightarrow> ('pk, 'rk, 'ts, 'on, 'p, 'sh) Loaded \<Rightarrow> bool" where
  "chrome_built pip_of l \<longleftrightarrow>
     (\<exists>t. ld_chrome l = chrome_build pip_of (ld_publisher l) t (ld_canary_state l)
        (ld_compact_address l) chrome_conditions_default)"

definition chrome_inv :: "('pk \<Rightarrow> ustring) \<Rightarrow> ('pk, 'rk, 'ts, 'on, 'p, 'sh) App \<Rightarrow> bool" where
  "chrome_inv pip_of app \<longleftrightarrow>
     chrome_built pip_of (app_loaded app) \<and>
     (app_pin_prompt app \<noteq> None \<or> app_mismatch_prompt app \<noteq> None \<longrightarrow>
        cv_pip_must_be_fully_shown (ld_chrome (app_loaded app)))"

lemma chrome_built_facts:
  assumes "chrome_built pip_of l"
  shows "cv_canary_state (ld_chrome l) = ld_canary_state l"
    "cv_pip_label (ld_chrome l) = PIP_LABEL" "cv_pip (ld_chrome l) = pip_of (ld_publisher l)"
    "CanaryExpired \<in> set (cv_warnings (ld_chrome l)) \<longleftrightarrow> ld_canary_state l = Expired"
  using assms by (auto simp: chrome_built_def chrome_build_warnings)

lemma load_chrome_built:
  assumes "load C mb cb site addr cn clk retained history = Inr l"
  shows "chrome_built (derive_pip C) l"
    and "ld_required_action l \<noteq> None_action \<Longrightarrow> cv_pip_must_be_fully_shown (ld_chrome l)"
proof -
  show b: "chrome_built (derive_pip C) l"
    using assms by (auto simp: load_def chrome_built_def Let_def result_bind_Inr
        split: Outcome.splits)
  then obtain t where t: "ld_chrome l = chrome_build (derive_pip C) (ld_publisher l) t
      (ld_canary_state l) (ld_compact_address l) chrome_conditions_default"
    by (auto simp: chrome_built_def)
  show "cv_pip_must_be_fully_shown (ld_chrome l)" if "ld_required_action l \<noteq> None_action"
    using that load_resolution [OF assms] resolve_prompt_shows_pip [of "ld_publisher l" retained]
    by (auto simp: t)
qed

lemma app_new_chrome:
  assumes "chrome_built pip_of l"
    and "ld_required_action l \<noteq> None_action \<Longrightarrow> cv_pip_must_be_fully_shown (ld_chrome l)"
    and n: "app_new D pip_of l store w = (app, msgs, w')"
  shows "chrome_inv pip_of app" and "app_canary_override app = False" "app_handoff app = None"
    "ld_chrome (app_loaded app) = ld_chrome l" "ld_scene (app_loaded app) = ld_scene l"
    "ld_canary_state (app_loaded app) = ld_canary_state l"
proof -
  obtain pp mp where prompts: "prompts_for pip_of l = (pp, mp)" by (cases "prompts_for pip_of l")
  from n have "\<exists>ret. app = \<lparr>app_loaded = l\<lparr>ld_retained := ret\<rparr>, app_store = store,
      app_handoff = None, app_canary_override = False, app_pin_prompt = pp,
      app_mismatch_prompt = mp\<rparr>"
    using persist_and_reload_app [of D _ _ _ w app msgs w'] by (fastforce simp: app_new_def prompts)
  then obtain ret where app: "app = \<lparr>app_loaded = l\<lparr>ld_retained := ret\<rparr>, app_store = store,
      app_handoff = None, app_canary_override = False, app_pin_prompt = pp,
      app_mismatch_prompt = mp\<rparr>" ..
  have "pp \<noteq> None \<or> mp \<noteq> None \<Longrightarrow> ld_required_action l \<noteq> None_action"
    using prompts by (auto simp: prompts_for_def)
  with assms(1,2) show "chrome_inv pip_of app"
    by (auto simp: app chrome_inv_def chrome_built_def)
  show "app_canary_override app = False" "app_handoff app = None"
    "ld_chrome (app_loaded app) = ld_chrome l" "ld_scene (app_loaded app) = ld_scene l"
    "ld_canary_state (app_loaded app) = ld_canary_state l"
    by (simp_all add: app)
qed

lemma after_chrome_inv:
  assumes "chrome_inv pip_of app" and a: "after_chrome D pip_of inp app w = (app1, msgs, w')"
  shows "chrome_inv pip_of app1"
proof -
  obtain panel d dec where pan: "draw_action_panel inp app (None, False) = (panel, d, dec)"
    by (cases "draw_action_panel inp app (None, False)") auto
  show ?thesis
  proof (cases d)
    case None
    with a assms(1) show ?thesis by (cases dec) (auto simp: after_chrome_def pan chrome_inv_def)
  next
    case (Some e)
    with a have p: "apply_and_persist D pip_of e app w = (app1, msgs, w')"
      by (simp add: after_chrome_def pan)
    note f = apply_and_persist_app [OF p]
    have "ld_publisher (app_loaded app1) = ld_publisher (app_loaded app) \<and>
      ld_compact_address (app_loaded app1) = ld_compact_address (app_loaded app)"
      using p persist_and_reload_app
      by (fastforce simp: apply_and_persist_def apply_decision_def Let_def split: prod.splits)
    with f show ?thesis by (auto simp: chrome_inv_def chrome_built_def)
  qed
qed

lemma update_after_chrome:
  assumes u: "update D pip_of inp app w = (out, app', w')"
    and a: "after_chrome D pip_of inp app w = (app1, msgs, w1)"
  shows "app_loaded app' = app_loaded app1" "app_pin_prompt app' = app_pin_prompt app1"
    "app_mismatch_prompt app' = app_mismatch_prompt app1" "w' = w1" "fo_messages out = msgs"
    "fo_chrome out = draw_chrome (ld_chrome (app_loaded app)) @
       fst (draw_action_panel inp app (None, False))"
    "fo_content out = fst (draw_content inp app1)"
    "app_canary_override app' \<longleftrightarrow> app_canary_override app1 \<or> snd (snd (draw_content inp app1))"
    "(fo_window out, fo_copied out, app_handoff app') = show_handoff inp
       (case fst (snd (draw_content inp app1)) of Some t \<Rightarrow> Some t | None \<Rightarrow> app_handoff app1)"
  using u unfolding update_alt a prod.case
  by (auto split: prod.splits)

lemma update_chrome_inv:
  assumes "chrome_inv pip_of app" and "update D pip_of inp app w = (out, app', w')"
  shows "chrome_inv pip_of app'"
proof -
  obtain app1 msgs w1 where a: "after_chrome D pip_of inp app w = (app1, msgs, w1)"
    by (cases "after_chrome D pip_of inp app w") auto
  from after_chrome_inv [OF assms(1) a] update_after_chrome(1-3) [OF assms(2) a]
  show ?thesis by (simp add: chrome_inv_def)
qed

section \<open>A blocked document\<close>

lemma after_chrome_blocked:
  assumes "chrome_inv pip_of app" and "content_blocked app"
    and a: "after_chrome D pip_of inp app w = (app1, msgs, w')"
  shows "content_blocked app1"
proof -
  have "chrome_canary_ok app"
    using assms(1) chrome_built_facts(1) by (auto simp: chrome_inv_def chrome_canary_ok_def)
  from after_chrome_app(5) [OF a this] have "chrome_canary_ok app1" .
  with \<open>chrome_canary_ok app\<close> assms(2) after_chrome_app(2,4) [OF a] show ?thesis
    by (simp add: content_blocked_def chrome_canary_ok_def)
qed

lemma content_blocked_scene [simp]: "content_blocked (with_scene s app) = content_blocked app"
  by (simp add: content_blocked_def)

lemma with_scene_update:
  "(with_scene s app)\<lparr>app_canary_override := b, app_handoff := h\<rparr> =
     with_scene s (app\<lparr>app_canary_override := b, app_handoff := h\<rparr>)"
  by (simp add: with_scene_def)

text \<open>The frame of a blocked document is the same for every document.\<close>

lemma update_blocked:
  assumes "chrome_inv pip_of app" and "content_blocked app"
  shows "update D pip_of inp (with_scene s app) w =
    (case update D pip_of inp app w of (out, a, w') \<Rightarrow> (out, with_scene s a, w'))"
proof -
  obtain app1 msgs w1 where a: "after_chrome D pip_of inp app w = (app1, msgs, w1)"
    by (cases "after_chrome D pip_of inp app w") auto
  note b = after_chrome_blocked [OF assms a]
  have b': "content_blocked (with_scene s app1)" using b by simp
  show ?thesis
    unfolding update_alt after_chrome_scene a prod.case draw_content_blocked [OF b]
      draw_content_blocked [OF b'] draw_action_panel_scene with_scene_simps with_scene_update
    by (simp split: prod.split)
qed

lemma update_blocked_frame:
  assumes "chrome_inv pip_of app" and "content_blocked app"
    and u: "update D pip_of inp app w = (out, app', w')"
  shows "fo_content out = fst (draw_canary_block inp)"
    and "\<not> fi_button inp BTN_SHOW \<Longrightarrow> content_blocked app'"
    and "app_handoff app' = None \<or> app_handoff app' = app_handoff app"
proof -
  obtain app1 msgs w1 where a: "after_chrome D pip_of inp app w = (app1, msgs, w1)"
    by (cases "after_chrome D pip_of inp app w") auto
  note b = after_chrome_blocked [OF assms(1,2) a] and f = update_after_chrome [OF u a]
  show "fo_content out = fst (draw_canary_block inp)"
    using f(7) draw_content_blocked [OF b] by simp
  show "content_blocked app'" if "\<not> fi_button inp BTN_SHOW"
    using that f(1,8) b by (simp add: draw_content_blocked [OF b] content_blocked_def)
  have "(fo_window out, fo_copied out, app_handoff app') = show_handoff inp (app_handoff app)"
    using f(9) after_chrome_app(1) [OF a] by (simp add: draw_content_blocked [OF b])
  then show "app_handoff app' = None \<or> app_handoff app' = app_handoff app"
    by (auto simp: show_handoff_def split: option.splits prod.splits if_splits)
qed

text \<open>A whole session of a blocked document does not depend on it, until the override.\<close>

lemma app_run_blocked:
  "chrome_inv pip_of app \<Longrightarrow> content_blocked app \<Longrightarrow>
     \<forall>inp \<in> set inps. \<not> fi_button inp BTN_SHOW \<Longrightarrow>
     app_run D pip_of inps (with_scene s app) w =
       (case app_run D pip_of inps app w of (outs, a, w') \<Rightarrow> (outs, with_scene s a, w'))"
proof (induction inps arbitrary: app w)
  case (Cons inp inps)
  obtain out app1 w1 where u: "update D pip_of inp app w = (out, app1, w1)"
    by (cases "update D pip_of inp app w") auto
  have us: "update D pip_of inp (with_scene s app) w = (out, with_scene s app1, w1)"
    using update_blocked [OF Cons.prems(1,2), of D inp s w] u by simp
  have "chrome_inv pip_of app1" by (rule update_chrome_inv [OF Cons.prems(1) u])
  moreover have "content_blocked app1"
    using update_blocked_frame(2) [OF Cons.prems(1,2) u] Cons.prems(3) by simp
  ultimately show ?case
    using Cons.IH [of app1 w1] Cons.prems(3) u us by (simp split: prod.splits)
qed simp

text \<open>Chrome separation: the chrome never depends on the document.\<close>

lemma update_chrome_separate:
  "fo_chrome (fst (update D pip_of inp (with_scene s app) w)) =
   fo_chrome (fst (update D pip_of inp app w))"
  unfolding update_alt after_chrome_scene draw_action_panel_scene with_scene_simps
  by (simp split: prod.split)

section \<open>The override\<close>

lemma draw_content_override:
  "snd (snd (draw_content inp app)) \<longleftrightarrow> content_blocked app \<and> fi_button inp BTN_SHOW"
  by (auto simp: draw_content_def content_blocked_def render_block_active_def
      draw_canary_block_def Let_def split: option.split prod.split)

lemma update_override:
  assumes "chrome_inv pip_of app" and u: "update D pip_of inp app w = (out, app', w')"
  shows "app_canary_override app' \<longleftrightarrow>
    app_canary_override app \<or> (content_blocked app \<and> fi_button inp BTN_SHOW)"
proof -
  obtain app1 msgs w1 where a: "after_chrome D pip_of inp app w = (app1, msgs, w1)"
    by (cases "after_chrome D pip_of inp app w") auto
  have "content_blocked app1 \<longleftrightarrow> content_blocked app"
  proof
    assume "content_blocked app"
    then show "content_blocked app1" by (rule after_chrome_blocked [OF assms(1) _ a])
  next
    assume b: "content_blocked app1"
    have "chrome_canary_ok app" "chrome_canary_ok app1"
      using assms(1) after_chrome_inv [OF assms(1) a] chrome_built_facts(1)
      by (auto simp: chrome_inv_def chrome_canary_ok_def)
    with b show "content_blocked app"
      using after_chrome_app(2,4) [OF a] by (simp add: content_blocked_def chrome_canary_ok_def)
  qed
  then show ?thesis
    using update_after_chrome(8) [OF u a] draw_content_override [of inp app1]
      after_chrome_app(2) [OF a] by simp
qed

section \<open>External links\<close>

lemma draw_node_handoff:
  "snd (draw_node inp i node h) = Some t \<Longrightarrow>
     h = Some t \<or> (\<exists>label link. node = Link label link \<and> external_handoff link = Some t \<and>
       (fi_link inp i \<or> fi_tag inp i))"
  by (cases node) (auto simp: Let_def split: option.splits if_splits)

lemma draw_nodes_handoff:
  "snd (draw_nodes inp i nodes h) = Some t \<Longrightarrow>
     h = Some t \<or> (\<exists>j < length nodes. \<exists>label link. nodes ! j = Link label link \<and>
       external_handoff link = Some t \<and> (fi_link inp (i + j) \<or> fi_tag inp (i + j)))"
proof (induction nodes arbitrary: i h)
  case (Cons node nodes)
  obtain ws h1 where n: "draw_node inp i node h = (ws, h1)" by (cases "draw_node inp i node h")
  with Cons.prems have "snd (draw_nodes inp (i + 1) nodes h1) = Some t"
    by (auto split: prod.splits)
  from Cons.IH [OF this] consider (before) "h1 = Some t"
    | (link) j label link where "j < length nodes" "nodes ! j = Link label link"
        "external_handoff link = Some t" "fi_link inp (i + 1 + j) \<or> fi_tag inp (i + 1 + j)"
    by blast
  then show ?case
  proof cases
    case before
    with draw_node_handoff [of inp i node h t] n show ?thesis by (auto intro!: exI [of _ 0])
  next
    case link
    then show ?thesis by (intro disjI2 exI [of _ "Suc j"]) auto
  qed
qed simp

text \<open>
  A pending hand-off comes from a click on an external link of the displayed document, and
  the only thing that ever leaves it is its address, copied by the dialog's button.
\<close>

definition link_clicked ::
  "frame_input \<Rightarrow> ('pk, 'rk, 'ts, 'on, 'p, 'sh) App \<Rightarrow> Handoff \<Rightarrow> bool" where
  "link_clicked inp app t \<longleftrightarrow>
     \<not> content_blocked app \<and>
     (\<exists>scene. ld_scene (app_loaded app) = Some scene \<and>
       (\<exists>j < length (scene_nodes scene). \<exists>label link. scene_nodes scene ! j = Link label link \<and>
          external_handoff link = Some t \<and> (fi_link inp j \<or> fi_tag inp j)))"

lemma draw_content_handoff:
  assumes "fst (snd (draw_content inp app)) = Some t"
  shows "link_clicked inp app t"
proof (cases "content_blocked app")
  case True
  with assms show ?thesis by (simp add: draw_content_blocked)
next
  case False
  with assms obtain scene where "ld_scene (app_loaded app) = Some scene"
    and "snd (draw_scene inp scene None) = Some t"
    by (auto simp: draw_content_def content_blocked_def render_block_active_def Let_def
        split: option.splits prod.splits if_splits)
  with False draw_nodes_handoff [of inp 0 "scene_nodes scene" None t] show ?thesis
    by (auto simp: link_clicked_def draw_scene_def)
qed

lemma update_handoff:
  assumes "chrome_inv pip_of app" and u: "update D pip_of inp app w = (out, app', w')"
  shows "app_handoff app' = Some t \<Longrightarrow> app_handoff app = Some t \<or> link_clicked inp app t"
    and "fo_copied out = Some url \<Longrightarrow> fi_button inp BTN_COPY \<and> (\<exists>t. url = ho_url t \<and>
      (app_handoff app = Some t \<or> link_clicked inp app t))"
proof -
  obtain app1 msgs w1 where a: "after_chrome D pip_of inp app w = (app1, msgs, w1)"
    by (cases "after_chrome D pip_of inp app w") auto
  have ok: "chrome_canary_ok app" "chrome_canary_ok app1"
    using assms(1) after_chrome_inv [OF assms(1) a] chrome_built_facts(1)
    by (auto simp: chrome_inv_def chrome_canary_ok_def)
  have same: "link_clicked inp app1 t \<Longrightarrow> link_clicked inp app t" for t
    using ok after_chrome_app(2-4) [OF a]
    by (simp add: link_clicked_def content_blocked_def chrome_canary_ok_def)
  define h where "h = (case fst (snd (draw_content inp app1)) of Some t \<Rightarrow> Some t
    | None \<Rightarrow> app_handoff app1)"
  have h: "h = Some t \<Longrightarrow> app_handoff app = Some t \<or> link_clicked inp app t" for t
    using draw_content_handoff [of inp app1] same after_chrome_app(1) [OF a]
    by (auto simp: h_def split: option.splits)
  have s: "(fo_window out, fo_copied out, app_handoff app') = show_handoff inp h"
    using update_after_chrome(9) [OF u a] by (simp add: h_def)
  show "app_handoff app' = Some t \<Longrightarrow> app_handoff app = Some t \<or> link_clicked inp app t"
    using s h by (auto simp: show_handoff_def split: option.splits prod.splits if_splits)
  show "fo_copied out = Some url \<Longrightarrow> fi_button inp BTN_COPY \<and> (\<exists>t. url = ho_url t \<and>
      (app_handoff app = Some t \<or> link_clicked inp app t))"
    using s h by (auto simp: show_handoff_def split: option.splits prod.splits if_splits)
qed

section \<open>Everything on the screen is balanced\<close>

lemma handoff_window_safe:
  "fst (show_handoff inp h) = Some (title, ws) \<Longrightarrow> bidi_balanced 0 title \<and> safe ws"
proof -
  assume a: "fst (show_handoff inp h) = Some (title, ws)"
  then obtain t where "h = Some t" by (cases h) (auto simp: show_handoff_def)
  with a show ?thesis
    by (cases "ho_kind t")
      (auto simp: show_handoff_def CARRIER_NOTICE_def CITATION_NOTICE_def BTN_COPY_def
        BTN_CANCEL_def)
qed

lemma draw_content_safe:
  fixes app :: "('a, 'b, 'c, 'd, 'e, 'f) App"
  shows "safe (fst (draw_content inp app))"
proof -
  have scene: "draw_scene inp s h = (ws, t) \<Longrightarrow> safe ws" for s :: "('e, 'f) Scene" and h ws t
    using draw_scene_safe [of inp s h] by simp
  have "safe draw_override_active_notice" "safe (fst (draw_canary_block inp))"
    by (simp_all add: draw_override_active_notice_def draw_canary_block_def)
  then show ?thesis
    by (auto simp: draw_content_def draw_canary_block_def Let_def dest: scene
        split: option.split prod.split)
qed

lemma draw_action_panel_safe: "safe (fst (draw_action_panel inp app flags))"
  by (simp add: draw_action_panel_def draw_panels_safe split: option.split)

definition output_safe :: "frame_output \<Rightarrow> bool" where
  "output_safe out \<longleftrightarrow> safe (fo_chrome out) \<and> safe (fo_content out) \<and>
     (case fo_window out of None \<Rightarrow> True | Some (title, ws) \<Rightarrow> bidi_balanced 0 title \<and> safe ws)"

lemma update_safe:
  assumes "chrome_inv pip_of app" and u: "update D pip_of inp app w = (out, app', w')"
  shows "output_safe out"
proof -
  obtain app1 msgs w1 where a: "after_chrome D pip_of inp app w = (app1, msgs, w1)"
    by (cases "after_chrome D pip_of inp app w") auto
  note f = update_after_chrome [OF u a]
  have "cv_pip_label (ld_chrome (app_loaded app)) = PIP_LABEL"
    using assms(1) chrome_built_facts(2) by (auto simp: chrome_inv_def)
  then have "safe (fo_chrome out)"
    by (simp add: f(6) draw_chrome_safe draw_action_panel_safe)
  moreover have "safe (fo_content out)" by (simp add: f(7) draw_content_safe)
  moreover have "fo_window out = Some (title, ws) \<Longrightarrow> bidi_balanced 0 title \<and> safe ws" for title ws
    using f(9) handoff_window_safe by (metis fst_conv)
  ultimately show ?thesis by (auto simp: output_safe_def split: option.splits)
qed

lemma app_run_safe:
  "chrome_inv pip_of app \<Longrightarrow> app_run D pip_of inps app w = (outs, app', w') \<Longrightarrow>
     list_all output_safe outs"
proof (induction inps arbitrary: app w outs)
  case (Cons inp inps)
  obtain out app1 w1 where u: "update D pip_of inp app w = (out, app1, w1)"
    by (cases "update D pip_of inp app w") auto
  with Cons.prems(2) obtain outs1 where rest: "app_run D pip_of inps app1 w1 = (outs1, app', w')"
    and outs: "outs = out # outs1" by (auto split: prod.splits)
  from Cons.IH [OF update_chrome_inv [OF Cons.prems(1) u] rest] update_safe [OF Cons.prems(1) u]
  show ?case by (simp add: outs)
qed simp

section \<open>Every frame of a session\<close>

lemma app_run_chrome_inv:
  "chrome_inv pip_of app \<Longrightarrow> app_run D pip_of inps app w = (outs, app', w') \<Longrightarrow> chrome_inv pip_of app'"
proof (induction inps arbitrary: app w outs)
  case (Cons inp inps)
  obtain out app1 w1 where u: "update D pip_of inp app w = (out, app1, w1)"
    by (cases "update D pip_of inp app w") auto
  with Cons.prems(2) obtain outs1 where "app_run D pip_of inps app1 w1 = (outs1, app', w')"
    by (auto split: prod.splits)
  with Cons.IH update_chrome_inv [OF Cons.prems(1) u] show ?case by blast
qed simp

lemma app_run_blocked_content:
  "chrome_inv pip_of app \<Longrightarrow> content_blocked app \<Longrightarrow>
     \<forall>inp \<in> set inps. \<not> fi_button inp BTN_SHOW \<Longrightarrow>
     app_run D pip_of inps app w = (outs, app', w') \<Longrightarrow>
     \<forall>out \<in> set outs. fo_content out = fst (draw_canary_block no_input)"
proof (induction inps arbitrary: app w outs)
  case (Cons inp inps)
  obtain out app1 w1 where u: "update D pip_of inp app w = (out, app1, w1)"
    by (cases "update D pip_of inp app w") auto
  with Cons.prems(4) obtain outs1 where rest: "app_run D pip_of inps app1 w1 = (outs1, app', w')"
    and outs: "outs = out # outs1" by (auto split: prod.splits)
  note b = update_blocked_frame [OF Cons.prems(1,2) u]
  have "content_blocked app1" using b(2) Cons.prems(3) by simp
  from Cons.IH [OF update_chrome_inv [OF Cons.prems(1) u] this _ rest] Cons.prems(3) b(1)
  show ?case by (simp add: outs draw_canary_block_def)
qed simp

lemma draw_chrome_parts:
  "set (draw_pip_card chrome) \<subseteq> set (draw_chrome chrome)"
  "draw_warning_banner ` set (cv_warnings chrome) \<subseteq> set (draw_chrome chrome)"
  unfolding draw_chrome_def
  by (cases "trust_badge (cv_trust_state chrome)"; cases "canary_badge (cv_canary_state chrome)";
      auto)+

lemma update_expired_banner:
  assumes "chrome_inv pip_of app" and "ld_canary_state (app_loaded app) = Expired"
    and u: "update D pip_of inp app w = (out, app', w')"
  shows "draw_warning_banner CanaryExpired \<in> set (fo_chrome out)"
    and "ld_canary_state (app_loaded app') = Expired"
proof -
  obtain app1 msgs w1 where a: "after_chrome D pip_of inp app w = (app1, msgs, w1)"
    by (cases "after_chrome D pip_of inp app w") auto
  note f = update_after_chrome [OF u a]
  show "ld_canary_state (app_loaded app') = Expired"
    using f(1) after_chrome_app(4) [OF a] assms(2) by simp
  have "CanaryExpired \<in> set (cv_warnings (ld_chrome (app_loaded app)))"
    using assms(1,2) chrome_built_facts(4) by (auto simp: chrome_inv_def)
  then show "draw_warning_banner CanaryExpired \<in> set (fo_chrome out)"
    unfolding f(6) using draw_chrome_parts(2) by fastforce
qed

lemma app_run_expired_banner:
  "chrome_inv pip_of app \<Longrightarrow> ld_canary_state (app_loaded app) = Expired \<Longrightarrow>
     app_run D pip_of inps app w = (outs, app', w') \<Longrightarrow>
     \<forall>out \<in> set outs. draw_warning_banner CanaryExpired \<in> set (fo_chrome out)"
proof (induction inps arbitrary: app w outs)
  case (Cons inp inps)
  obtain out app1 w1 where u: "update D pip_of inp app w = (out, app1, w1)"
    by (cases "update D pip_of inp app w") auto
  with Cons.prems(3) obtain outs1 where rest: "app_run D pip_of inps app1 w1 = (outs1, app', w')"
    and outs: "outs = out # outs1" by (auto split: prod.splits)
  note b = update_expired_banner [OF Cons.prems(1,2) u]
  from Cons.IH [OF update_chrome_inv [OF Cons.prems(1) u] b(2) rest] b(1)
  show ?case by (simp add: outs)
qed simp

lemma update_prompt_phrase:
  assumes "chrome_inv pip_of app" and "app_pin_prompt app \<noteq> None \<or> app_mismatch_prompt app \<noteq> None"
    and u: "update D pip_of inp app w = (out, app', w')"
  shows "\<exists>st. Text (isolate_publisher_text (pip_of (ld_publisher (app_loaded app)))) st
    \<in> set (fo_chrome out)"
proof -
  obtain app1 msgs w1 where a: "after_chrome D pip_of inp app w = (app1, msgs, w1)"
    by (cases "after_chrome D pip_of inp app w") auto
  have "cv_pip (ld_chrome (app_loaded app)) = pip_of (ld_publisher (app_loaded app))"
    "cv_pip_must_be_fully_shown (ld_chrome (app_loaded app))"
    using assms(1,2) chrome_built_facts(3) by (auto simp: chrome_inv_def)
  then have "\<exists>st. Text (isolate_publisher_text (pip_of (ld_publisher (app_loaded app)))) st
      \<in> set (draw_pip_card (ld_chrome (app_loaded app)))"
    by (auto simp: draw_pip_card_def Let_def)
  then show ?thesis
    unfolding update_after_chrome(6) [OF u a] using draw_chrome_parts(1) by fastforce
qed

section \<open>What can be copied\<close>

text \<open>An external link of a document, by its address and kind.\<close>

definition document_link :: "('p, 'sh) Scene option \<Rightarrow> Handoff \<Rightarrow> bool" where
  "document_link scene t \<longleftrightarrow>
     (\<exists>s label link. scene = Some s \<and> Link label link \<in> set (scene_nodes s) \<and>
        external_handoff link = Some t)"

lemma link_clicked_document:
  "link_clicked inp app t \<Longrightarrow> document_link (ld_scene (app_loaded app)) t"
  unfolding link_clicked_def document_link_def by (metis nth_mem)

lemma update_copied:
  assumes "chrome_inv pip_of app" and "\<not> content_blocked app" and "fi_button inp BTN_COPY"
    and "ld_scene (app_loaded app) = Some s" and "snd (draw_scene inp s None) = Some t"
    and u: "update D pip_of inp app w = (out, app', w')"
  shows "fo_copied out = Some (ho_url t)"
proof -
  obtain app1 msgs w1 where a: "after_chrome D pip_of inp app w = (app1, msgs, w1)"
    by (cases "after_chrome D pip_of inp app w") auto
  have "chrome_canary_ok app" "chrome_canary_ok app1"
    using assms(1) after_chrome_inv [OF assms(1) a] chrome_built_facts(1)
    by (auto simp: chrome_inv_def chrome_canary_ok_def)
  then have "\<not> content_blocked app1" "ld_scene (app_loaded app1) = Some s"
    using assms(2,4) after_chrome_app(2-4) [OF a] by (auto simp: content_blocked_def chrome_canary_ok_def)
  then have "fst (snd (draw_content inp app1)) = Some t"
    using assms(5)
    by (auto simp: draw_content_def content_blocked_def render_block_active_def Let_def split: prod.split)
  with update_after_chrome(9) [OF u a] assms(3) show ?thesis
    by (cases "ho_kind t") (simp_all add: show_handoff_def)
qed

lemma update_scene:
  assumes u: "update D pip_of inp app w = (out, app', w')"
  shows "ld_scene (app_loaded app') = ld_scene (app_loaded app)"
proof -
  obtain app1 msgs w1 where a: "after_chrome D pip_of inp app w = (app1, msgs, w1)"
    by (cases "after_chrome D pip_of inp app w") auto
  show ?thesis using update_after_chrome(1) [OF u a] after_chrome_app(3) [OF a] by simp
qed

lemma app_run_copied:
  "chrome_inv pip_of app \<Longrightarrow>
     (\<And>t. app_handoff app = Some t \<Longrightarrow> document_link (ld_scene (app_loaded app)) t) \<Longrightarrow>
     app_run D pip_of inps app w = (outs, app', w') \<Longrightarrow> (inp, out) \<in> set (zip inps outs) \<Longrightarrow>
     fo_copied out = Some url \<Longrightarrow>
     fi_button inp BTN_COPY \<and>
     (\<exists>t. url = ho_url t \<and> document_link (ld_scene (app_loaded app)) t)"
proof (induction inps arbitrary: app w outs)
  case (Cons inp1 inps)
  obtain out1 app1 w1 where u: "update D pip_of inp1 app w = (out1, app1, w1)"
    by (cases "update D pip_of inp1 app w") auto
  with Cons.prems(3) obtain outs1 where rest: "app_run D pip_of inps app1 w1 = (outs1, app', w')"
    and outs: "outs = out1 # outs1" by (auto split: prod.splits)
  note h = update_handoff [OF Cons.prems(1) u] and sc = update_scene [OF u]
  have h1: "app_handoff app1 = Some t \<Longrightarrow> document_link (ld_scene (app_loaded app1)) t" for t
    using h(1) Cons.prems(2) link_clicked_document sc by fastforce
  show ?case
  proof (cases "(inp, out) = (inp1, out1)")
    case True
    with h(2) [of url] Cons.prems(2,5) show ?thesis by (auto dest: link_clicked_document)
  next
    case False
    with Cons.prems(4) outs have "(inp, out) \<in> set (zip inps outs1)" by auto
    from Cons.IH [OF update_chrome_inv [OF Cons.prems(1) u] h1 rest this Cons.prems(5)] sc
    show ?thesis by simp
  qed
qed simp

end
