(* ===== verification/Cli.thy ===== *)
theory Cli
  imports App_Safety
begin

text \<open>
  The command line and \<open>main\<close> of \<open>crates/entangled-client-gui/src/main.rs\<close>: argument parsing,
  \<open>build\<close> (read the files, load the store's view, verify) and \<open>main\<close> with its exit codes.
  Arguments are valid Unicode; a path given as one string is one component.
\<close>

section \<open>Arguments\<close>

record Cli =
  cli_manifest :: path
  cli_onion :: ustring
  cli_content :: "path option"
  cli_store_dir :: path
  cli_encrypted :: bool

definition path_from :: "ustring \<Rightarrow> path" where
  "path_from s = [s]"

definition usage :: ustring where
  "usage = lit ''usage: entangled-client-gui [--store <dir>] [--store-encrypted] <manifest.json> <onion-address> [content.json]''"

text \<open>\<open>project_data_dir\<close> is the answer of the \<open>directories\<close> crate.\<close>

definition default_store_dir :: "path option \<Rightarrow> path" where
  "default_store_dir project_data_dir =
     (case project_data_dir of
        Some dir \<Rightarrow> path_join dir (lit ''store'')
      | None \<Rightarrow> path_from (lit ''.entangled-client-store''))"

text \<open>The loop over the arguments: the state is \<open>store_dir\<close>, \<open>encrypted\<close>, \<open>positional\<close>.\<close>

fun parse_args ::
  "ustring list \<Rightarrow> path option \<times> bool \<times> ustring list \<Rightarrow>
   ustring + (path option \<times> bool \<times> ustring list)" where
  "parse_args [] st = Inr st"
| "parse_args (s # args) (store_dir, encrypted, positional) =
     (if s = lit ''--store'' then
        (case args of
           [] \<Rightarrow> Inl (lit ''--store needs a directory'')
         | dir # args \<Rightarrow> parse_args args (Some (path_from dir), encrypted, positional))
      else if s = lit ''--store-encrypted'' then parse_args args (store_dir, True, positional)
      else parse_args args (store_dir, encrypted, positional @ [s]))"

definition parse_cli :: "path option \<Rightarrow> ustring list \<Rightarrow> ustring + Cli" where
  "parse_cli project_data_dir args =
     result_bind (parse_args args (None, False, [])) (\<lambda>(store_dir, encrypted, positional).
     let (manifest, it) = (case positional of [] \<Rightarrow> (None, []) | p # it \<Rightarrow> (Some (path_from p), it));
         (onion, it) = (case it of [] \<Rightarrow> (None, []) | p # it \<Rightarrow> (Some p, it));
         content = (case it of [] \<Rightarrow> None | p # _ \<Rightarrow> Some (path_from p))
     in result_bind (ok_or usage manifest) (\<lambda>manifest.
        result_bind (ok_or (lit ''missing <onion-address>'') onion) (\<lambda>onion.
        Inr \<lparr>cli_manifest = manifest, cli_onion = onion, cli_content = content,
             cli_store_dir = (case store_dir of Some d \<Rightarrow> d
                              | None \<Rightarrow> default_store_dir project_data_dir),
             cli_encrypted = encrypted\<rparr>)))"

section \<open>What \<open>build\<close> takes from other crates\<close>

text \<open>
  The conversions of the core (\<open>OnionAddress::try_from\<close>, \<open>PublisherPubkey::try_from\<close>,
  \<open>EntangledTimestamp::try_from\<close>, errors as their renderings), and \<open>serde_json::Value\<close>:
  \<open>json_value\<close> parses and \<open>json_get_str v k\<close> is \<open>v.get(k).and_then(as_str)\<close>.
\<close>

record ('pk, 'ts, 'on, 'j) cli_api =
  onion_try_from :: "ustring \<Rightarrow> ustring + 'on"
  pubkey_try_from :: "ustring \<Rightarrow> ustring + 'pk"
  timestamp_try_from :: "ustring \<Rightarrow> ustring + 'ts"
  json_value :: "bytes \<Rightarrow> ustring + 'j"
  json_get_str :: "'j \<Rightarrow> ustring \<Rightarrow> ustring option"

text \<open>An error message, or a panic of \<open>expect\<close>.\<close>

datatype failure = Message ustring | Panic ustring

definition peek_publisher_pubkey ::
  "('pk, 'ts, 'on, 'j) cli_api \<Rightarrow> bytes \<Rightarrow> failure + 'pk" where
  "peek_publisher_pubkey A manifest_bytes =
     result_bind (map_err (\<lambda>e. Message (lit ''parsing manifest: '' @ e)) (json_value A manifest_bytes))
     (\<lambda>v. result_bind (ok_or (Message (lit ''manifest has no string publisher_pubkey''))
        (json_get_str A v (lit ''publisher_pubkey'')))
     (\<lambda>s. map_err (\<lambda>e. Message (lit ''invalid publisher_pubkey: '' @ e)) (pubkey_try_from A s)))"

definition fixed_clock :: "('pk, 'ts, 'on, 'j) cli_api \<Rightarrow> failure + 'ts FixedClock" where
  "fixed_clock A =
     result_bind (map_err (\<lambda>_. Panic (lit ''valid fixed timestamp''))
       (timestamp_try_from A (lit ''2026-06-05T00:00:00Z''))) (\<lambda>t. Inr (FixedClock t))"

section \<open>Build and main\<close>

definition build ::
  "('m, 'pk, 'rk, 'ts, 'on, 'ci, 'cd, 'st, 'p, 'sh, 'y) gui_core_scheme \<Rightarrow>
   ('on, 'pk, 'ts, 'rk, 'z) store_deps_scheme \<Rightarrow> ('pk, 'ts, 'on, 'j) cli_api \<Rightarrow>
   path \<Rightarrow> ustring \<Rightarrow> path option \<Rightarrow> StoreHandle \<Rightarrow>
   (world, failure, ('pk, 'rk, 'ts, 'on, 'p, 'sh) Loaded) action" where
  "build C D A manifest_path onion content_path store =
     act_bind (act_map_err (\<lambda>e. Message (lit ''reading manifest: '' @ io_display e))
       (fs_read manifest_path)) (\<lambda>manifest_bytes.
     act_bind (case content_path of
         Some p \<Rightarrow> act_bind (act_map_err (\<lambda>e. Message (lit ''reading content: '' @ io_display e))
           (fs_read p)) (\<lambda>b. act_return (Some b))
       | None \<Rightarrow> act_return None) (\<lambda>content_bytes.
     act_bind (act_lift (map_err (\<lambda>e. Message (lit ''invalid onion address: '' @ e))
       (onion_try_from A onion))) (\<lambda>address.
     act_bind (act_lift (fixed_clock A)) (\<lambda>clock.
     act_bind (act_map_err (\<lambda>e. Message (lit ''loading retained identity: '' @ store_error_display e))
       (fis_load_identity D (sh_identities store) address)) (\<lambda>retained.
     act_bind (act_lift (peek_publisher_pubkey A manifest_bytes)) (\<lambda>publisher.
     act_bind (act_map_err (\<lambda>e. Message (lit ''loading publisher history: '' @ store_error_display e))
       (fhs_load_history D (sh_history store) publisher)) (\<lambda>history.
     act_lift (map_err (\<lambda>e. Message (load_error_display e))
       (load C manifest_bytes content_bytes address onion fixed_now clock retained history)))))))))"

text \<open>
  What the environment of \<open>main\<close> supplies besides the file system: the terminal's answer to
  the passphrase prompt, and the window: \<open>run_native\<close> fails before the application is
  created, or runs the given frames and then ends with a result.
\<close>

datatype window = NoWindow ustring | Window "frame_input list" "ustring + unit"

definition EXIT_SUCCESS :: nat where "EXIT_SUCCESS = 0"
definition EXIT_FAILURE :: nat where "EXIT_FAILURE = 1"
definition EXIT_USAGE :: nat where "EXIT_USAGE = 2"
definition EXIT_PANIC :: nat where "EXIT_PANIC = 101"

record main_result =
  mr_exit :: nat
  mr_stderr :: "ustring list"
  mr_frames :: "frame_output list"

definition exits :: "nat \<Rightarrow> ustring list \<Rightarrow> main_result" where
  "exits code msgs = \<lparr>mr_exit = code, mr_stderr = msgs, mr_frames = []\<rparr>"

definition main_prog ::
  "('m, 'pk, 'rk, 'ts, 'on, 'ci, 'cd, 'st, 'p, 'sh, 'y) gui_core_scheme \<Rightarrow>
   ('on, 'pk, 'ts, 'rk, 'z) store_deps_scheme \<Rightarrow> ('pk, 'ts, 'on, 'j) cli_api \<Rightarrow> bool \<Rightarrow>
   path option \<Rightarrow> ustring + ustring \<Rightarrow> window \<Rightarrow> ustring list \<Rightarrow> world \<Rightarrow> main_result \<times> world" where
  "main_prog C D A feature_encrypted project_data_dir prompt win args w =
     (case parse_cli project_data_dir args of
        Inl msg \<Rightarrow> (exits EXIT_USAGE [lit ''error: '' @ msg, usage], w)
      | Inr cli \<Rightarrow>
          (let protection = (if cli_encrypted cli then Encrypted else Integrity)
           in case (if cli_encrypted cli then map_err (\<lambda>e. lit ''error: reading passphrase: '' @ e)
                      (result_bind prompt (\<lambda>p. Inr (Some p))) else Inr None) of
             Inl msg \<Rightarrow> (exits EXIT_FAILURE [msg], w)
           | Inr passphrase \<Rightarrow>
               (case root_open D feature_encrypted (cli_store_dir cli) protection passphrase w of
                  (Inl e, w1) \<Rightarrow> (exits EXIT_FAILURE [lit ''error: opening store at '' @
                      path_display (cli_store_dir cli) @ lit '': '' @ store_error_display e], w1)
                | (Inr root, w1) \<Rightarrow>
                    (let store = store_handle_open root
                     in case build C D A (cli_manifest cli) (cli_onion cli) (cli_content cli) store w1 of
                          (Inl (Message msg), w2) \<Rightarrow> (exits EXIT_FAILURE [lit ''error: '' @ msg], w2)
                        | (Inl (Panic msg), w2) \<Rightarrow> (exits EXIT_PANIC [msg], w2)
                        | (Inr loaded, w2) \<Rightarrow>
                            (case win of
                               NoWindow e \<Rightarrow> (exits EXIT_FAILURE [lit ''error: '' @ e], w2)
                             | Window inps result \<Rightarrow>
                                 (case app_new D (derive_pip C) loaded store w2 of (app, msgs, w3) \<Rightarrow>
                                  case app_run D (derive_pip C) inps app w3 of (outs, app', w4) \<Rightarrow>
                                    (\<lparr>mr_exit = (case result of Inr _ \<Rightarrow> EXIT_SUCCESS
                                                | Inl e \<Rightarrow> EXIT_FAILURE),
                                      mr_stderr = msgs @ concat (map fo_messages outs) @
                                        (case result of Inr _ \<Rightarrow> []
                                         | Inl e \<Rightarrow> [lit ''error: '' @ e]),
                                      mr_frames = outs\<rparr>, w4)))))))"

section \<open>The command line read back\<close>

text \<open>What a command line can be made of, and the arguments it is written as.\<close>

datatype cli_token = Store_option ustring | Encrypted_option | Positional ustring

fun token_args :: "cli_token \<Rightarrow> ustring list" where
  "token_args (Store_option dir) = [lit ''--store'', dir]"
| "token_args Encrypted_option = [lit ''--store-encrypted'']"
| "token_args (Positional s) = [s]"

fun token_ok :: "cli_token \<Rightarrow> bool" where
  "token_ok (Positional s) = (s \<noteq> lit ''--store'' \<and> s \<noteq> lit ''--store-encrypted'')"
| "token_ok _ = True"

fun token_positional :: "cli_token \<Rightarrow> ustring list" where
  "token_positional (Positional s) = [s]"
| "token_positional _ = []"

fun token_store :: "path option \<Rightarrow> cli_token \<Rightarrow> path option" where
  "token_store d (Store_option dir) = Some (path_from dir)"
| "token_store d _ = d"

lemma parse_args_tokens:
  "list_all token_ok ts \<Longrightarrow>
     parse_args (concat (map token_args ts)) (d, e, pos) =
       Inr (fold (\<lambda>t d. token_store d t) ts d, e \<or> Encrypted_option \<in> set ts,
            pos @ concat (map token_positional ts))"
proof (induction ts arbitrary: d e pos)
  case (Cons t ts)
  then show ?case by (cases t) auto
qed simp

section \<open>Building\<close>

lemma act_map_err_frame:
  "act_map_err g m w = (r, w') \<Longrightarrow> \<exists>q. m w = (q, w')"
  by (auto simp: act_map_err_def split: prod.splits)

lemma fs_read_files: "fs_read p w = (r, w') \<Longrightarrow> w_files w' = w_files w"
  using calls_touch(1) by (fastforce simp: touches_nothing)

text \<open>Building reads files and writes none, whether it succeeds or fails.\<close>

lemma act_bind_files:
  assumes "act_bind m f w = (r, w')"
    and "\<And>q w1. m w = (q, w1) \<Longrightarrow> w_files w1 = w_files w"
    and "\<And>a w1. m w = (Inr a, w1) \<Longrightarrow> f a w1 = (r, w') \<Longrightarrow> w_files w' = w_files w1"
  shows "w_files w' = w_files w"
  by (rule act_bind_rel [OF assms(1), of "\<lambda>x y. w_files y = w_files x"]) (auto dest: assms(2,3))

lemma build_files:
  assumes "build C D A mp onion cp store w = (r, w')"
  shows "w_files w' = w_files w"
proof -
  have rd: "act_map_err g (fs_read p) w = (r, w') \<Longrightarrow> w_files w' = w_files w"
    for g :: "io_error \<Rightarrow> failure" and p w r w'
    by (auto dest!: act_map_err_frame fs_read_files)
  have ids: "act_map_err g (fis_load_identity D st site) w = (r, w') \<Longrightarrow> w_files w' = w_files w"
    for g :: "StoreError \<Rightarrow> failure" and st site w r w'
    by (auto dest!: act_map_err_frame fis_load_identity_run(1))
  have his: "act_map_err g (fhs_load_history D st p) w = (r, w') \<Longrightarrow> w_files w' = w_files w"
    for g :: "StoreError \<Rightarrow> failure" and st p w r w'
    by (auto dest!: act_map_err_frame fhs_load_history_files)
  have content: "(case cp of Some p \<Rightarrow> act_bind (act_map_err g (fs_read p)) (\<lambda>b. act_return (Some b))
      | None \<Rightarrow> act_return None) w = (r, w') \<Longrightarrow> w_files w' = w_files w"
    for g :: "io_error \<Rightarrow> failure" and w r w'
    by (cases cp) (auto elim!: act_bind_files dest: rd)
  show ?thesis
    using assms unfolding build_def
    by (elim act_bind_files) (auto dest: rd ids his content)
qed

lemma build_Ok:
  assumes inv: "fis_inv D (sh_identities store) w"
    and b: "build C D A mp onion cp store w = (Inr l, w')"
  shows "\<exists>site mf cb t publisher history w1.
    onion_try_from A onion = Inr site \<and> w_files w mp = Some mf \<and>
    timestamp_try_from A (lit ''2026-06-05T00:00:00Z'') = Inr t \<and>
    peek_publisher_pubkey A (contents mf) = Inr publisher \<and>
    w_files w1 = w_files w \<and>
    fhs_load_history D (sh_history store) publisher w1 = (Inr history, w') \<and>
    load C (contents mf) cb site onion fixed_now (FixedClock t)
      (map_option fst (app_record D store w site)) history = Inr l \<and>
    (case cp of None \<Rightarrow> cb = None | Some p \<Rightarrow> \<exists>cf. w_files w p = Some cf \<and> cb = Some (contents cf))"
proof -
  from b obtain mb w1 cb w2 site clock retained w3 publisher history where
    m: "fs_read mp w = (Inr mb, w1)"
    and c: "(case cp of Some p \<Rightarrow> act_bind (act_map_err
         (\<lambda>e. Message (lit ''reading content: '' @ io_display e)) (fs_read p)) (\<lambda>b. act_return (Some b))
       | None \<Rightarrow> act_return None) w1 = (Inr cb, w2)"
    and site: "onion_try_from A onion = Inr site" and clock: "fixed_clock A = Inr clock"
    and ret: "fis_load_identity D (sh_identities store) site w2 = (Inr retained, w3)"
    and pub: "peek_publisher_pubkey A mb = Inr publisher"
    and his: "fhs_load_history D (sh_history store) publisher w3 = (Inr history, w')"
    and l: "load C mb cb site onion fixed_now clock retained history = Inr l"
    unfolding build_def by (auto simp: action_elims map_err_Inr)
  obtain mf where mf: "w_files w mp = Some mf" "mb = contents mf"
    using fs_read_result(1) [OF m] by blast
  have f1: "w_files w1 = w_files w" by (rule fs_read_files [OF m])
  have "w_files w2 = w_files w1 \<and> (case cp of None \<Rightarrow> cb = None
      | Some p \<Rightarrow> \<exists>cf. w_files w1 p = Some cf \<and> cb = Some (contents cf))"
    using c by (cases cp) (auto simp: action_elims dest: fs_read_files fs_read_result(1))
  then have f2: "w_files w2 = w_files w" and cb: "case cp of None \<Rightarrow> cb = None
      | Some p \<Rightarrow> \<exists>cf. w_files w p = Some cf \<and> cb = Some (contents cf)"
    using f1 by (auto split: option.splits)
  have "retained = map_option fst (app_record D store w site)"
    using fis_load_identity_run(2) [OF ret refl] fis_same_files(1) [OF f2, of D "sh_identities store"]
    by (simp add: app_record_def)
  moreover obtain t where "timestamp_try_from A (lit ''2026-06-05T00:00:00Z'') = Inr t"
    "clock = FixedClock t"
    using clock by (auto simp: fixed_clock_def result_inv)
  moreover have "w_files w3 = w_files w"
    using fis_load_identity_run(1) [OF ret] f2 by simp
  ultimately show ?thesis using site mf pub his l cb by blast
qed

text \<open>A session from the command line on: build, create the application, run its frames.\<close>

lemma fis_inv_files: "w_files w' = w_files w \<Longrightarrow> fis_inv D st w' \<longleftrightarrow> fis_inv D st w"
  using fis_same_files(2) [of w' w D st] .

lemma app_record_files:
  "w_files w' = w_files w \<Longrightarrow> app_record D store w' = app_record D store w"
  using fis_same_files(1) [of w' w D "sh_identities store"] by (simp add: app_record_def fun_eq_iff)

lemma session_start:
  assumes inv: "fis_inv D (sh_identities store) w"
    and b: "build C D A mp onion cp store w = (Inr l, w1)"
    and n: "app_new D (derive_pip C) l store w1 = (app, msgs, w2)"
  shows "fis_inv D (sh_identities store) w1" "loaded_from D (sh_identities store) w1 l"
    "app_inv D app w2" "app_store app = store" "chrome_inv (derive_pip C) app"
    "app_canary_override app = False" "app_handoff app = None"
    "ld_scene (app_loaded app) = ld_scene l"
    "ld_canary_state (app_loaded app) = ld_canary_state l"
proof -
  from build_Ok [OF inv b] obtain site mb cb t history where
    ld: "load C mb cb site onion fixed_now (FixedClock t)
      (map_option fst (app_record D store w site)) history = Inr l" by blast
  have f: "w_files w1 = w_files w" by (rule build_files [OF b])
  show i: "fis_inv D (sh_identities store) w1" using fis_inv_files [OF f] inv by blast
  have "map_option fst (app_record D store w site) =
      map_option fst (fis_content D (sh_identities store) w1 site)"
    using app_record_files [OF f, of D store] by (simp add: app_record_def fun_eq_iff)
  then show lf: "loaded_from D (sh_identities store) w1 l" by (rule load_loaded_from [OF ld])
  show "app_inv D app w2" "app_store app = store" using app_new_inv(1,2) [OF i lf n] by auto
  show "chrome_inv (derive_pip C) app" "app_canary_override app = False" "app_handoff app = None"
    "ld_scene (app_loaded app) = ld_scene l"
    "ld_canary_state (app_loaded app) = ld_canary_state l"
    using app_new_chrome(1,2,3,5,6) [OF load_chrome_built(1) [OF ld] load_chrome_built(2) [OF ld] n]
    by auto
qed

lemma session_blocked:
  assumes "fis_inv D (sh_identities store) w"
    and "build C D A mp onion cp store w = (Inr l, w1)"
    and "app_new D (derive_pip C) l store w1 = (app, msgs, w2)"
    and "ld_canary_state l = Expired"
  shows "content_blocked app" "cv_canary_state (ld_chrome (app_loaded app)) = Expired"
proof -
  note s = session_start [OF assms(1-3)]
  have "ld_canary_state (app_loaded app) = Expired" using s(9) assms(4) by simp
  then show c: "cv_canary_state (ld_chrome (app_loaded app)) = Expired"
    using s(5) chrome_built_facts(1) [of "derive_pip C" "app_loaded app"]
    by (simp add: chrome_inv_def)
  then show "content_blocked app" by (simp add: content_blocked_def s(6))
qed

lemmas exit_codes = EXIT_SUCCESS_def EXIT_FAILURE_def EXIT_USAGE_def EXIT_PANIC_def

lemma session_passive:
  assumes "fis_inv D (sh_identities store) w"
    and "build C D A mp onion cp store w = (Inr l, w1)"
    and "app_new D (derive_pip C) l store w1 = (app, msgs, w2)"
    and "app_run D (derive_pip C) inps app w2 = (outs, app', w3)"
    and "\<forall>inp \<in> set inps. no_decision_clicked inp"
    and "app_record D store w (ld_site l) \<noteq> None"
  shows "w_files w3 = w_files w"
proof -
  note s = session_start [OF assms(1-3)] and f = build_files [OF assms(2)]
  have "w3 = w2" using app_run_passive [OF assms(5,4)] by simp
  moreover have "w_files w2 = w_files w1"
    using app_new_known [OF s(2) _ assms(3)] app_record_files [OF f, of D store] assms(6) by auto
  ultimately show ?thesis using f by simp
qed


end
