(* ===== verification/Store_Setup.thy ===== *)
theory Store_Setup
  imports File_Stores
begin

text \<open>
  How a run opens the store, in either mode (\<open>StoreRoot::open\<close> of \<open>root.rs\<close> with the arguments
  \<open>main\<close> gives it), and what of the directory determines the key: the key file in Integrity
  mode, the salt in the metadata and the passphrase in Encrypted mode. Opening again under the
  same setup gives the same root and writes nothing.
\<close>

section \<open>Setups\<close>

record store_setup =
  su_feature :: bool
  su_base :: path
  su_protection :: Protection
  su_passphrase :: "ustring option"

definition setup_open ::
  "'z root_deps_scheme \<Rightarrow> store_setup \<Rightarrow> (world, StoreError, StoreRoot) action" where
  "setup_open D S = root_open D (su_feature S) (su_base S) (su_protection S) (su_passphrase S)"

text \<open>The directory carries the key of \<open>root\<close> for this setup.\<close>

definition keyed :: "'z root_deps_scheme \<Rightarrow> store_setup \<Rightarrow> StoreRoot \<Rightarrow> world \<Rightarrow> bool" where
  "keyed D S root w \<longleftrightarrow> root_base root = su_base S \<and>
     (case su_protection S of
        Integrity \<Rightarrow> \<exists>f. w_files w (key_path (su_base S)) = Some f \<and>
          root_protector root = Integrity_protector (contents f)
      | Encrypted \<Rightarrow> \<exists>f m s salt k pass. w_files w (meta_path (su_base S)) = Some f \<and>
          from_slice (meta_codec D) (contents f) = Inr m \<and> meta_protection m = Encrypted_tag \<and>
          meta_salt_b64 m = Some s \<and> b64_decode D s = Inr salt \<and>
          su_passphrase S = Some pass \<and> derive_key D pass salt = Inr k \<and>
          root_protector root = Encrypted_protector k)"

lemma keyed_files:
  assumes "keyed D S root w"
    and "w_files w' (key_path (su_base S)) = w_files w (key_path (su_base S))"
    and "w_files w' (meta_path (su_base S)) = w_files w (meta_path (su_base S))"
  shows "keyed D S root w'"
  using assms by (auto simp: keyed_def split: Protection.splits)

section \<open>Opening an encrypted store\<close>

lemma open_encrypted_run:
  assumes "open_encrypted D base pass w = (Inr root, w')"
  obtains (existing) w1 m s salt k where "ensure_dirs base w = (Inr (), w1)"
      "read_meta D base w1 = (Inr (Some m), w')" "meta_protection m = Encrypted_tag"
      "meta_salt_b64 m = Some s" "b64_decode D s = Inr salt" "derive_key D pass salt = Inr k"
      "root = \<lparr>root_base = base, root_protector = Encrypted_protector k\<rparr>"
  | (new) w1 w2 salt w3 k where "ensure_dirs base w = (Inr (), w1)"
      "read_meta D base w1 = (Inr None, w2)" "getrandom 16 w2 = (Inr salt, w3)"
      "write_meta D base \<lparr>meta_v = META_V, meta_protection = Encrypted_tag,
         meta_salt_b64 = Some (b64_encode D salt)\<rparr> w3 = (Inr (), w')"
      "derive_key D pass salt = Inr k"
      "root = \<lparr>root_base = base, root_protector = Encrypted_protector k\<rparr>"
proof -
  from assms obtain w1 x w2 salt k where e: "ensure_dirs base w = (Inr (), w1)"
    and r: "read_meta D base w1 = (Inr x, w2)"
    and s: "(case x of
         Some meta \<Rightarrow>
           if meta_protection meta \<noteq> Encrypted_tag then act_fail mode_error
           else act_bind (act_lift (ok_or (StoreError (lit ''encrypted store missing salt''))
                  (meta_salt_b64 meta))) (\<lambda>s.
                act_lift (map_err (store_err ''salt base64: '') (b64_decode D s)))
       | None \<Rightarrow>
           act_bind (act_map_err (store_err ''rng: '') (getrandom 16)) (\<lambda>salt.
           act_bind (write_meta D base \<lparr>meta_v = META_V, meta_protection = Encrypted_tag,
                       meta_salt_b64 = Some (b64_encode D salt)\<rparr>) (\<lambda>_.
           act_return salt))) w2 = (Inr salt, w')"
    and k: "derive_key D pass salt = Inr k"
    and root: "root = \<lparr>root_base = base, root_protector = Encrypted_protector k\<rparr>"
    unfolding open_encrypted_def by (auto simp: action_elims)
  show thesis
  proof (cases x)
    case None
    with s e r k root show thesis
      by (auto simp: action_elims intro: new)
  next
    case (Some m)
    with s e r k root show thesis
      by (auto simp: action_elims result_inv split: if_splits option.splits intro!: existing)
  qed
qed

lemma open_encrypted_existing_files:
  assumes o: "open_encrypted D base pass w = (r, w')" and meta: "w_files w (meta_path base) = Some f"
  shows "w_files w' = w_files w"
proof -
  obtain q1 w1 where e: "ensure_dirs base w = (q1, w1)" by (cases "ensure_dirs base w")
  obtain q2 w2 where m: "read_meta D base w1 = (q2, w2)" by (cases "read_meta D base w1")
  have f: "w_files w1 = w_files w" "w_files w2 = w_files w1"
    using ensure_dirs_touches [OF e] read_meta_touches [OF m] by (simp_all add: touches_nothing)
  have "q2 \<noteq> Inr None"
    using m meta f(1)
    by (auto simp: read_meta_def action_elims dest!: read_file_opt_result(1) split: option.splits)
  then have "w' = w1 \<or> w' = w2"
    using o e m
    by (auto simp: open_encrypted_def act_bind_def act_lift_def act_fail_def act_return_def
        split: sum.splits option.splits prod.splits if_splits)
  with f show ?thesis by auto
qed

lemma open_encrypted_keeps:
  assumes D: "protect_deps_ok D" and q: "not_tmp q" "q \<noteq> meta_path base"
  shows "keeps q (open_encrypted D base pass)"
proof -
  have gen: "keeps q (act_map_err (store_err ''rng: '') (getrandom n))" for n
    by (auto simp: keeps_def act_map_err_def getrandom_def)
  have meta: "keeps q (write_meta D base m)" for m
    unfolding write_meta_def
    by (intro keeps_bind keeps_write_atomic D q) simp_all
  have choice: "keeps q (case x of
         Some meta \<Rightarrow>
           if meta_protection meta \<noteq> Encrypted_tag then act_fail mode_error
           else act_bind (act_lift (ok_or (StoreError (lit ''encrypted store missing salt''))
                  (meta_salt_b64 meta))) (\<lambda>s.
                act_lift (map_err (store_err ''salt base64: '') (b64_decode D s)))
       | None \<Rightarrow>
           act_bind (act_map_err (store_err ''rng: '') (getrandom 16)) (\<lambda>salt.
           act_bind (write_meta D base \<lparr>meta_v = META_V, meta_protection = Encrypted_tag,
                       meta_salt_b64 = Some (b64_encode D salt)\<rparr>) (\<lambda>_.
           act_return salt)))" for x
    by (cases x) (auto intro!: keeps_bind gen meta)
  show ?thesis
    unfolding open_encrypted_def
    by (intro keeps_bind choice keeps_simple)
      (blast intro: keeps_nothing dest: ensure_dirs_touches read_meta_touches)+
qed

section \<open>Opening again\<close>

lemma setup_open_cases:
  assumes "setup_open D S w = (r, w')"
  obtains (integrity) "su_protection S = Integrity" "open_integrity D (su_base S) w = (r, w')"
  | (encrypted) pass where "su_protection S = Encrypted" "su_feature S" "su_passphrase S = Some pass"
      "open_encrypted D (su_base S) pass w = (r, w')"
  | (refused) e where "su_protection S = Encrypted" "r = Inl e" "w' = w"
  using assms
  by (cases "su_protection S"; cases "su_passphrase S")
    (auto simp: setup_open_def act_bind_def act_lift_def act_fail_def split: if_splits)

lemma keyed_open_files:
  assumes k: "keyed D S root w" and o: "setup_open D S w = (r, w')"
  shows "w_files w' = w_files w"
  using o
proof (cases rule: setup_open_cases)
  case integrity
  with k show ?thesis using open_integrity_existing_files [OF integrity(2)] by (auto simp: keyed_def)
next
  case (encrypted pass)
  with k show ?thesis using open_encrypted_existing_files [OF encrypted(4)] by (auto simp: keyed_def)
qed simp

lemma keyed_open:
  assumes k: "keyed D S root w" and o: "setup_open D S w = (Inr root', w')"
  shows "root' = root" and "w_files w' = w_files w"
proof -
  show "w_files w' = w_files w" by (rule keyed_open_files [OF k o])
  show "root' = root"
    using o
  proof (cases rule: setup_open_cases)
    case integrity
    from k obtain f where f: "w_files w (key_path (su_base S)) = Some f"
      "root_protector root = Integrity_protector (contents f)" "root_base root = su_base S"
      by (auto simp: keyed_def integrity(1))
    with open_integrity_existing [OF integrity(2) f(1)] show ?thesis by (cases root) simp
  next
    case (encrypted pass)
    from k encrypted(1,3) obtain f m s salt k where
      f: "w_files w (meta_path (su_base S)) = Some f" "from_slice (meta_codec D) (contents f) = Inr m"
      and m: "meta_salt_b64 m = Some s" "b64_decode D s = Inr salt" "derive_key D pass salt = Inr k"
      and root: "root_protector root = Encrypted_protector k" "root_base root = su_base S"
      by (auto simp: keyed_def)
    from encrypted(4) show ?thesis
    proof (cases rule: open_encrypted_run)
      case (existing w1 m' s' salt' k')
      have "w_files w1 = w_files w"
        using ensure_dirs_touches [OF existing(1)] by (simp add: touches_nothing)
      with read_meta_of [of w1 "su_base S" f D m "Some m'" w'] f existing(2) have "m' = m" by simp
      with existing m root show ?thesis by (cases root) simp
    next
      case (new w1 w2 salt' w3 k')
      have "w_files w1 = w_files w"
        using ensure_dirs_touches [OF new(1)] by (simp add: touches_nothing)
      with read_meta_of [of w1 "su_base S" f D m None w2] f new(2) show ?thesis by simp
    qed
  qed simp
qed

section \<open>Opening an empty directory\<close>

lemma keyed_fresh:
  assumes D: "root_deps_ok D" and o: "setup_open D S w = (Inr root, w')"
    and none: "w_files w (key_path (su_base S)) = None" "w_files w (meta_path (su_base S)) = None"
  shows "keyed D S root w'"
    and "not_tmp q \<Longrightarrow> q \<noteq> key_path (su_base S) \<Longrightarrow> q \<noteq> meta_path (su_base S) \<Longrightarrow>
      w_files w' q = w_files w q"
proof -
  have P: "protect_deps_ok D" and c: "codec_ok (meta_codec D)"
    using D by (simp_all add: root_deps_ok_def)
  have "keyed D S root w' \<and> (not_tmp q \<longrightarrow> q \<noteq> key_path (su_base S) \<longrightarrow> q \<noteq> meta_path (su_base S) \<longrightarrow>
      w_files w' q = w_files w q)"
    using o
  proof (cases rule: setup_open_cases)
    case integrity
    from open_integrity_new [OF D integrity(2) none(1)] keepsD [OF open_integrity_keeps [OF P] integrity(2)]
    show ?thesis by (auto simp: keyed_def integrity(1))
  next
    case (encrypted pass)
    note keep = keepsD [OF open_encrypted_keeps [OF P] encrypted(4)]
    from encrypted(4) have "keyed D S root w'"
    proof (cases rule: open_encrypted_run)
      case (existing w1 m s salt k)
      have "w_files w1 = w_files w"
        using ensure_dirs_touches [OF existing(1)] by (simp add: touches_nothing)
      with existing(2) none(2) show ?thesis
        by (auto simp: read_meta_def action_elims dest!: read_file_opt_result(1) split: option.splits)
    next
      case (new w1 w2 salt w3 k)
      let ?m = "\<lparr>meta_v = META_V, meta_protection = Encrypted_tag,
        meta_salt_b64 = Some (b64_encode D salt)\<rparr>"
      from new(4) obtain b where b: "to_vec (meta_codec D) ?m = Inr b"
        and wm: "write_atomic D (meta_path (su_base S)) b w3 = (Inr (), w')"
        by (auto simp: write_meta_def act_bind_Inr map_err_Inr)
      from write_atomic_Ok(1) [OF wm] obtain f where
        "w_files w' (meta_path (su_base S)) = Some f" "contents f = b" by auto
      with codec_okD [OF c b] new(5,6) encrypted(1,3) protect_deps_okD(3) [OF P, of salt]
      show ?thesis by (auto simp: keyed_def)
    qed
    with keep show ?thesis by blast
  qed simp
  then show "keyed D S root w'"
    and "not_tmp q \<Longrightarrow> q \<noteq> key_path (su_base S) \<Longrightarrow> q \<noteq> meta_path (su_base S) \<Longrightarrow>
      w_files w' q = w_files w q" by blast+
qed

text \<open>Where no call fails, an empty directory opens in Encrypted mode too.\<close>

lemma quiet_open_encrypted:
  assumes D: "root_deps_ok D" and q: "quiet w"
    and nometa: "w_files w (meta_path base) = None" and nt: "no_tmp D (meta_path base) w"
    and enc: "\<And>salt. \<exists>b. to_vec (meta_codec D) \<lparr>meta_v = META_V, meta_protection = Encrypted_tag,
        meta_salt_b64 = Some (b64_encode D salt)\<rparr> = Inr b"
    and key: "\<And>salt. \<exists>k. argon2id D pass salt = Inr k"
  shows "\<exists>root w'. open_encrypted D base pass w = (Inr root, w')"
proof -
  obtain w1 where e: "ensure_dirs base w = (Inr (), w1)" and t1: "touches {} w w1"
    using quiet_ensure_dirs [OF q] by blast
  have q1: "quiet w1" using q t1 by (simp add: quiet_touches)
  obtain w2 where r: "read_file_opt (meta_path base) w1 = (Inr None, w2)" and t2: "touches {} w1 w2"
    using quiet_read_file_opt [OF q1, of "meta_path base"] nometa t1 by (auto simp: touches_nothing)
  have q2: "quiet w2" using q1 t2 by (simp add: quiet_touches)
  obtain salt w3 where g: "getrandom 16 w2 = (Inr salt, w3)" and t3: "touches {} w2 w3"
    using quiet_getrandom [OF q2, of 16] by auto
  have q3: "quiet w3" using q2 t3 by (simp add: quiet_touches)
  have "w_files w3 = w_files w" using t1 t2 t3 by (simp add: touches_nothing)
  with nt have n3: "no_tmp D (meta_path base) w3" by (simp add: no_tmp_def)
  obtain b where b: "to_vec (meta_codec D) \<lparr>meta_v = META_V, meta_protection = Encrypted_tag,
      meta_salt_b64 = Some (b64_encode D salt)\<rparr> = Inr b" using enc by blast
  obtain k where k: "argon2id D pass salt = Inr k" using key by blast
  from quiet_write_atomic [OF q3 store_paths_named(1) n3] obtain w4
    where wm: "write_atomic D (meta_path base) b w3 = (Inr (), w4)" by blast
  show ?thesis
    by (simp add: open_encrypted_def act_bind_def act_map_err_def read_meta_def write_meta_def
        derive_key_def e r g b k wm)
qed

lemma no_tmp_join:
  assumes "\<And>p. prefix base p \<Longrightarrow> w_files w p = None"
  shows "no_tmp D (path_join base n) w"
  using assms by (auto simp: no_tmp_def tmp_names_def tmp_name_def with_extension_def path_join_def)

text \<open>What a fresh store needs of the crates: its metadata can be encoded, its key derived.\<close>

definition setup_usable :: "'z root_deps_scheme \<Rightarrow> store_setup \<Rightarrow> bool" where
  "setup_usable D S \<longleftrightarrow>
     (case su_protection S of
        Integrity \<Rightarrow> is_ok (to_vec (meta_codec D) \<lparr>meta_v = META_V,
          meta_protection = Integrity_tag, meta_salt_b64 = None\<rparr>)
      | Encrypted \<Rightarrow> su_feature S \<and> (\<exists>pass. su_passphrase S = Some pass \<and>
          (\<forall>salt. is_ok (argon2id D pass salt) \<and>
             is_ok (to_vec (meta_codec D) \<lparr>meta_v = META_V, meta_protection = Encrypted_tag,
               meta_salt_b64 = Some (b64_encode D salt)\<rparr>))))"

lemma is_ok_Inr: "is_ok r \<longleftrightarrow> (\<exists>x. r = Inr x)"
  by (cases r) (simp_all add: is_ok_def)

lemma quiet_setup_open:
  assumes D: "root_deps_ok D" and q: "quiet w"
    and empty: "\<And>p. prefix (su_base S) p \<Longrightarrow> w_files w p = None" and S: "setup_usable D S"
  shows "\<exists>root w'. setup_open D S w = (Inr root, w')"
proof -
  have none: "w_files w (key_path (su_base S)) = None" "w_files w (meta_path (su_base S)) = None"
    by (rule empty, simp add: key_path_def meta_path_def path_join_def)+
  have nt: "no_tmp D (key_path (su_base S)) w" "no_tmp D (meta_path (su_base S)) w"
    using empty by (simp_all add: key_path_def meta_path_def no_tmp_join)
  show ?thesis
  proof (cases "su_protection S")
    case Integrity
    with S obtain b where "to_vec (meta_codec D) \<lparr>meta_v = META_V,
        meta_protection = Integrity_tag, meta_salt_b64 = None\<rparr> = Inr b"
      by (auto simp: setup_usable_def is_ok_Inr)
    from quiet_open_integrity [OF D q none(1) nt this] Integrity show ?thesis
      by (simp add: setup_open_def)
  next
    case Encrypted
    with S obtain pass where p: "su_feature S" "su_passphrase S = Some pass"
      and k: "\<And>salt. \<exists>k. argon2id D pass salt = Inr k"
      and m: "\<And>salt. \<exists>b. to_vec (meta_codec D) \<lparr>meta_v = META_V, meta_protection = Encrypted_tag,
        meta_salt_b64 = Some (b64_encode D salt)\<rparr> = Inr b"
      by (auto simp: setup_usable_def is_ok_Inr)
    from quiet_open_encrypted [OF D q none(2) nt(2) m k] Encrypted p show ?thesis
      by (simp add: setup_open_def act_bind_def act_lift_def)
  qed
qed

section \<open>The wrong key\<close>

text \<open>
  Authenticated encryption binds to the key: what is sealed under one key does not decrypt
  under the other.
\<close>

definition aead_separates :: "'z protect_deps_scheme \<Rightarrow> bytes \<Rightarrow> bytes \<Rightarrow> bool" where
  "aead_separates D k k' \<longleftrightarrow>
     (\<forall>n p c. aead_encrypt D k n p = Some c \<longrightarrow> aead_decrypt D k' n c = None)"

lemma seal_wrong_key:
  assumes D: "protect_deps_ok D" and sep: "aead_separates D k k'"
    and s: "seal D (Encrypted_protector k) payload w = (Inr b, w')"
  shows "open_sealed D (Encrypted_protector k') b =
    Inl (store_err ''decrypt failed (wrong passphrase or store tampered?)'' [])"
proof -
  from s obtain nonce ct where ct: "aead_encrypt D k nonce payload = Some ct"
    and b: "to_vec (aead_codec D) \<lparr>ae_v = AEAD_V, ae_nonce_b64 = b64_encode D nonce,
        ae_ct_b64 = b64_encode D ct\<rparr> = Inr b"
    by (auto simp: aead_seal_def action_elims result_inv split: option.splits)
  have "aead_decrypt D k' nonce ct = None" using sep ct by (simp add: aead_separates_def)
  with codec_okD [OF protect_deps_okD(7) [OF D] b] show ?thesis
    by (simp add: aead_open_def protect_deps_okD(3) [OF D])
qed

text \<open>The same in Integrity mode: a tag is a tag under one of the two keys only.\<close>

definition hmac_separates :: "'z protect_deps_scheme \<Rightarrow> bytes \<Rightarrow> bytes \<Rightarrow> bool" where
  "hmac_separates D k k' \<longleftrightarrow> (\<forall>p t. hmac_tag D k p = Inr t \<longrightarrow> hmac_tag D k' p \<noteq> Inr t)"

text \<open>What is sealed under one protector does not open under the other.\<close>

definition seals_apart :: "'z protect_deps_scheme \<Rightarrow> Protector \<Rightarrow> Protector \<Rightarrow> bool" where
  "seals_apart D pr pr' \<longleftrightarrow>
     (\<forall>payload w b w'. seal D pr payload w = (Inr b, w') \<longrightarrow> (\<exists>e. open_sealed D pr' b = Inl e))"

lemma seals_apart_aead:
  "protect_deps_ok D \<Longrightarrow> aead_separates D k k' \<Longrightarrow>
     seals_apart D (Encrypted_protector k) (Encrypted_protector k')"
  unfolding seals_apart_def using seal_wrong_key by blast

lemma seals_apart_hmac:
  assumes D: "protect_deps_ok D" and sep: "hmac_separates D k k'"
  shows "seals_apart D (Integrity_protector k) (Integrity_protector k')"
  unfolding seals_apart_def
proof (intro allI impI)
  fix payload w b w' assume "seal D (Integrity_protector k) payload w = (Inr b, w')"
  then obtain tag where tag: "hmac_tag D k payload = Inr tag"
    and b: "to_vec (envelope_codec D) \<lparr>ie_v = ENVELOPE_V, ie_payload_b64 = b64_encode D payload,
        ie_mac_b64 = b64_encode D tag\<rparr> = Inr b"
    by (auto simp: result_inv)
  have "hmac_verify D k' payload tag \<noteq> Inr True"
    using sep tag by (auto simp: protect_deps_okD(4) [OF D] hmac_separates_def split: sum.splits)
  with codec_okD [OF protect_deps_okD(6) [OF D] b]
  show "\<exists>e. open_sealed D (Integrity_protector k') b = Inl e"
    by (cases "hmac_verify D k' payload tag") (auto simp: protect_deps_okD(3) [OF D])
qed

lemma protected_wrong_key:
  assumes sep: "seals_apart D (root_protector root) (root_protector root')"
    and w: "write_protected D root p payload w = (Inr u, w')"
  shows "\<exists>e. protected_content D root' p w' = Inl e"
proof -
  from write_protected_Ok(1) [OF w] obtain b w1 f where
    b: "seal D (root_protector root) payload w = (Inr b, w1)"
    and f: "w_files w' p = Some f" "contents f = b" by auto
  from sep b obtain e where "open_sealed D (root_protector root') b = Inl e"
    unfolding seals_apart_def by blast
  then show ?thesis by (simp add: protected_content_def f)
qed

text \<open>
  What was written for a site under one key is an error under the other, for loads and for
  every intent, and stays on disk.
\<close>

lemma fis_apply_wrong_key:
  assumes sep: "seals_apart D (root_protector root) (root_protector root')"
    and base: "root_base root' = root_base root"
    and new: "w_files w (fis_path D (fis_new root) site) = None" and i: "i \<noteq> None_intent"
    and a: "fis_apply D (fis_new root) site i w = (Inr u, w')"
  shows "\<exists>e. fis_dto_at D (fis_new root') w' site = Inl e"
  using a
proof (cases rule: fis_apply_run)
  case (kept x)
  have "x = None" using fis_load_dto_facts(2) [OF kept(1)] fis_removed [OF new] by simp
  with kept(2) i show ?thesis by (cases i) (auto simp: fis_written_def)
next
  case (written x w1 ident ks)
  have p: "fis_path D (fis_new root') site = fis_path D (fis_new root) site"
    by (simp add: fis_path_def fis_new_def identity_path_def base)
  from written(3) obtain b where
    "write_protected D root (fis_path D (fis_new root) site) b w1 = (Inr u, w')"
    by (auto simp: fis_write_dto_def write_json_def action_elims fis_new_def)
  from protected_wrong_key [OF sep this] obtain e where
    "protected_content D root' (fis_path D (fis_new root) site) w' = Inl e" by blast
  moreover have "fis_root (fis_new root') = root'" by (simp add: fis_new_def)
  ultimately show ?thesis by (simp add: fis_dto_at_def dto_at_def p)
qed (use i in simp_all)

end
