(* ===== verification/Lifetime.thy ===== *)
theory Lifetime
  imports Cli Store_Setup
begin

text \<open>
  The lifetime of a store: run after run of the program on one store directory, by any user,
  with any documents and any clicks, where any call may fail. A state is the world and the
  application that is running, if any. The labels of the steps tell which key was
  presented at which site, and which decision was taken with which input; other programs may
  change everything outside the store's directory between the runs.
\<close>

section \<open>The key and the metadata are never written again\<close>

definition not_record ::
  "('on, 'pk, 'ts, 'rk, 'z) store_deps_scheme \<Rightarrow> StoreRoot \<Rightarrow> path \<Rightarrow> bool" where
  "not_record D root q \<longleftrightarrow> not_tmp q \<and> (\<forall>site. q \<noteq> fis_path D (fis_new root) site) \<and>
     (\<forall>p. q \<noteq> fhs_path D (fhs_new root) p)"

lemma not_record_store_paths:
  assumes "root_base root = base"
  shows "not_record D root (key_path base)" "not_record D root (meta_path base)"
  using assms
  by (simp_all add: not_record_def fis_path_def fhs_path_def fis_new_def fhs_new_def key_path_def
      meta_path_def identity_path_def history_path_def path_join_def not_tmp_key [unfolded key_path_def path_join_def]
      not_tmp_meta [unfolded meta_path_def path_join_def])

lemma store_handle_open_simps [simp]:
  "sh_identities (store_handle_open root) = fis_new root"
  "sh_history (store_handle_open root) = fhs_new root"
  by (simp_all add: store_handle_open_def)

lemma app_persist_other:
  assumes D: "store_deps_ok D" and st: "app_store app = store_handle_open root"
    and p: "app_persist D app i w = (r, w')" and q: "not_record D root q"
  shows "w_files w' q = w_files w q"
proof -
  obtain x w1 where a: "fis_apply D (fis_new root) (ld_site (app_loaded app)) i w = (x, w1)"
    by (cases "fis_apply D (fis_new root) (ld_site (app_loaded app)) i w")
  have f1: "w_files w1 q = w_files w q"
    by (rule fis_apply_other [OF D a]) (use q in \<open>simp_all add: not_record_def\<close>)
  have "w' = w1 \<or> (\<exists>k rec s. fhs_append_record D (fhs_new root) k rec w1 = (s, w'))"
    using p a st
    by (auto simp: app_persist_def act_bind_def split: sum.splits option.splits prod.splits)
  moreover have "w_files w' q = w_files w1 q" if "fhs_append_record D (fhs_new root) k rec w1 = (s, w')"
    for k rec s
    by (rule fhs_append_other_file [OF D that]) (use q in \<open>simp_all add: not_record_def\<close>)
  ultimately show ?thesis using f1 by auto
qed

lemma persist_and_reload_other:
  assumes "store_deps_ok D" and "app_store app = store_handle_open root" and "not_record D root q"
    and p: "persist_and_reload D msg i app w = (app', msgs, w')"
  shows "w_files w' q = w_files w q"
proof -
  obtain r w1 where a: "app_persist D app i w = (r, w1)" by (cases "app_persist D app i w")
  obtain l where "fis_load_identity D (sh_identities (app_store app)) (ld_site (app_loaded app)) w1 = (l, w')"
    using p a by (auto simp: persist_and_reload_def split: prod.splits)
  then have "w_files w' = w_files w1" by (rule fis_load_identity_run(1))
  with app_persist_other [OF assms(1,2) a assms(3)] show ?thesis by simp
qed

lemma app_new_other:
  assumes "store_deps_ok D" and q: "not_record D root q"
    and n: "app_new D pip_of l (store_handle_open root) w = (app, msgs, w')"
  shows "w_files w' q = w_files w q"
proof -
  obtain pp mp where "prompts_for pip_of l = (pp, mp)" by (cases "prompts_for pip_of l")
  with n have "persist_and_reload D ''error: persisting first-contact observation: ''
      (ld_initial_intent l) \<lparr>app_loaded = l, app_store = store_handle_open root, app_handoff = None,
       app_canary_override = False, app_pin_prompt = pp, app_mismatch_prompt = mp\<rparr> w = (app, msgs, w')"
    by (simp add: app_new_def)
  from persist_and_reload_other [OF assms(1) _ q this] show ?thesis by simp
qed

lemma update_other:
  assumes "store_deps_ok D" and "app_store app = store_handle_open root" and q: "not_record D root q"
    and u: "update D pip_of inp app w = (out, app', w')"
  shows "w_files w' q = w_files w q"
  using u
proof (cases rule: update_run)
  case (decided d app1)
  then obtain i l app2 msgs where "persist_and_reload D ''error: persisting trust decision: '' i
      (app\<lparr>app_loaded := l\<rparr>) w = (app2, msgs, w')"
    by (auto simp: apply_and_persist_def split: prod.splits)
  from persist_and_reload_other [OF assms(1) _ q this] assms(2) show ?thesis by simp
qed simp

text \<open>So the directory stays keyed.\<close>

lemma keyed_other:
  assumes k: "keyed D S root w" and "\<And>q. not_record D root q \<Longrightarrow> w_files w' q = w_files w q"
  shows "keyed D S root w'"
proof -
  have "root_base root = su_base S" using k by (simp add: keyed_def)
  note n = not_record_store_paths [OF this, of D]
  show ?thesis by (rule keyed_files [OF k assms(2) [OF n(1)] assms(2) [OF n(2)]])
qed

section \<open>The step relation\<close>

type_synonym ('pk, 'rk, 'ts, 'on, 'p, 'sh) life_state =
  "world \<times> ('pk, 'rk, 'ts, 'on, 'p, 'sh) App option"

datatype ('on, 'pk) label =
    Quiet
  | Presented 'on 'pk
  | Decided 'on 'pk UserDecision frame_input

inductive life_step ::
  "('m, 'pk, 'rk, 'ts, 'on, 'ci, 'cd, 'st, 'p, 'sh, 'y) gui_core_scheme \<Rightarrow>
   ('on, 'pk, 'ts, 'rk, 'z) store_deps_scheme \<Rightarrow> ('pk, 'ts, 'on, 'j) cli_api \<Rightarrow> store_setup \<Rightarrow>
   ('pk, 'rk, 'ts, 'on, 'p, 'sh) life_state \<Rightarrow> ('on, 'pk) label \<Rightarrow>
   ('pk, 'rk, 'ts, 'on, 'p, 'sh) life_state \<Rightarrow> bool"
  for C D A S
where
  outside: "(\<And>p. prefix (su_base S) p \<Longrightarrow> w_files w' p = w_files w p) \<Longrightarrow>
    life_step C D A S (w, None) Quiet (w', None)"
| refused: "setup_open D S w = (Inl e, w1) \<Longrightarrow>
    life_step C D A S (w, None) Quiet (w1, None)"
| unloaded: "setup_open D S w = (Inr root, w1) \<Longrightarrow>
    build C D A mp onion cp (store_handle_open root) w1 = (r, w2) \<Longrightarrow>
    life_step C D A S (w, None) Quiet (w2, None)"
| started: "setup_open D S w = (Inr root, w1) \<Longrightarrow>
    build C D A mp onion cp (store_handle_open root) w1 = (Inr l, w2) \<Longrightarrow>
    app_new D (derive_pip C) l (store_handle_open root) w2 = (app, msgs, w3) \<Longrightarrow>
    life_step C D A S (w, None) (Presented (ld_site l) (ld_publisher l)) (w3, Some app)"
| looked: "update D (derive_pip C) inp app w = (out, app', w') \<Longrightarrow> frame_decision inp app = None \<Longrightarrow>
    life_step C D A S (w, Some app) Quiet (w', Some app')"
| decided: "update D (derive_pip C) inp app w = (out, app', w') \<Longrightarrow>
    frame_decision inp app = Some d \<Longrightarrow>
    life_step C D A S (w, Some app)
      (Decided (ld_site (app_loaded app)) (ld_publisher (app_loaded app)) d inp) (w', Some app')"
| closed: "life_step C D A S (w, Some app) Quiet (w, None)"

inductive_cases life_step_closedE: "life_step C D A S (w, None) l s'"
inductive_cases life_step_runningE: "life_step C D A S (w, Some app) l s'"
inductive_simps life_step_presented: "life_step C D A S s (Presented site k) s'"

inductive life ::
  "('m, 'pk, 'rk, 'ts, 'on, 'ci, 'cd, 'st, 'p, 'sh, 'y) gui_core_scheme \<Rightarrow>
   ('on, 'pk, 'ts, 'rk, 'z) store_deps_scheme \<Rightarrow> ('pk, 'ts, 'on, 'j) cli_api \<Rightarrow> store_setup \<Rightarrow>
   ('pk, 'rk, 'ts, 'on, 'p, 'sh) life_state \<Rightarrow> ('on, 'pk) label list \<Rightarrow>
   ('pk, 'rk, 'ts, 'on, 'p, 'sh) life_state \<Rightarrow> bool"
  for C D A S
where
  life_refl: "life C D A S s [] s"
| life_then: "life C D A S s ls s1 \<Longrightarrow> life_step C D A S s1 l s2 \<Longrightarrow>
    life C D A S s (ls @ [l]) s2"

lemma life_trans:
  "life C D A S s1 ms s2 \<Longrightarrow> life C D A S s ls s1 \<Longrightarrow> life C D A S s (ls @ ms) s2"
proof (induction rule: life.induct)
  case (life_then s1 ms s2 l s3)
  from life.life_then [OF life_then.IH [OF life_then.prems] life_then.hyps(2)] show ?case by simp
qed simp

lemma life_one: "life_step C D A S s l s' \<Longrightarrow> life C D A S s [l] s'"
  using life_then [OF life_refl] by fastforce

section \<open>The invariant of a lifetime\<close>

definition life_inv ::
  "('on, 'pk, 'ts, 'rk, 'z) store_deps_scheme \<Rightarrow> store_setup \<Rightarrow> StoreRoot \<Rightarrow>
   ('pk, 'rk, 'ts, 'on, 'p, 'sh) life_state \<Rightarrow> bool" where
  "life_inv D S root s \<longleftrightarrow>
     fis_inv D (fis_new root) (fst s) \<and> keyed D S root (fst s) \<and>
     (case snd s of None \<Rightarrow> True
      | Some app \<Rightarrow> app_inv D app (fst s) \<and> app_store app = store_handle_open root)"

definition life_record ::
  "('on, 'pk, 'ts, 'rk, 'z) store_deps_scheme \<Rightarrow> StoreRoot \<Rightarrow>
   ('pk, 'rk, 'ts, 'on, 'p, 'sh) life_state \<Rightarrow> 'on \<Rightarrow> 'pk site_record" where
  "life_record D root s site = fis_content D (fis_new root) (fst s) site"

lemma life_record_content: "life_record D root s = fis_content D (fis_new root) (fst s)"
  by (rule ext) (simp add: life_record_def)

text \<open>The visits a label stands for.\<close>

fun label_visit :: "('on, 'pk) label \<Rightarrow> ('on \<times> 'pk \<times> UserDecision) list" where
  "label_visit Quiet = []"
| "label_visit (Presented site k) = [(site, k, None_decision)]"
| "label_visit (Decided site k d inp) = [(site, k, d)]"

definition label_visits :: "('on, 'pk) label list \<Rightarrow> ('on \<times> 'pk \<times> UserDecision) list" where
  "label_visits ls = concat (map label_visit ls)"

lemma label_visits_simps [simp]:
  "label_visits [] = []" "label_visits (ls @ ms) = label_visits ls @ label_visits ms"
  "label_visits [l] = label_visit l"
  by (simp_all add: label_visits_def)

lemma visits_of_append [simp]: "visits_of site (us @ vs) = visits_of site us @ visits_of site vs"
  by (simp add: visits_of_def)

text \<open>One step keeps the invariant, and its effect on a record is that of its visit or none.\<close>

definition step_effect ::
  "('on, 'pk, 'ts, 'rk, 'z) store_deps_scheme \<Rightarrow> store_setup \<Rightarrow> StoreRoot \<Rightarrow>
   ('pk, 'rk, 'ts, 'on, 'p, 'sh) life_state \<Rightarrow> ('on, 'pk) label \<Rightarrow>
   ('pk, 'rk, 'ts, 'on, 'p, 'sh) life_state \<Rightarrow> bool" where
  "step_effect D S root s l s' \<longleftrightarrow>
     life_inv D S root s' \<and>
     (\<forall>site. \<exists>vs. subseq vs (visits_of site (label_visit l)) \<and>
        life_record D root s' site = ledger_run vs (life_record D root s site))"

lemma step_effect_same:
  assumes "life_inv D S root s'" and "life_record D root s' = life_record D root s"
  shows "step_effect D S root s l s'"
  using assms unfolding step_effect_def by (auto intro!: exI [of _ "[]"])

lemma step_effect_visit:
  assumes "life_inv D S root s'"
    and "life_record D root s' = life_record D root s \<or>
      life_record D root s' = (life_record D root s)(site := visit_effect k d (life_record D root s site))"
    and "label_visit l = [(site, k, d)]"
  shows "step_effect D S root s l s'"
  using assms(2)
proof
  assume "life_record D root s' = life_record D root s"
  with assms(1) show ?thesis by (rule step_effect_same)
next
  assume r: "life_record D root s' =
    (life_record D root s)(site := visit_effect k d (life_record D root s site))"
  have "\<exists>vs. subseq vs (visits_of site' (label_visit l)) \<and>
      life_record D root s' site' = ledger_run vs (life_record D root s site')" for site'
    by (cases "site' = site")
      (auto simp: r assms(3) intro: exI [of _ "[(k, d)]"] exI [of _ "[]"])
  with assms(1) show ?thesis by (simp add: step_effect_def)
qed

lemma life_inv_base: "life_inv D S root s \<Longrightarrow> root_base root = su_base S"
  by (simp add: life_inv_def keyed_def)

text \<open>The window is closed, and the store's directory is as it was.\<close>

lemma life_closed:
  fixes s :: "('pk, 'rk, 'ts, 'on, 'p, 'sh) life_state" and l
  defines "s' w' \<equiv> (w', None) :: ('pk, 'rk, 'ts, 'on, 'p, 'sh) life_state"
  assumes inv: "life_inv D S root s"
    and same: "\<And>p. prefix (su_base S) p \<Longrightarrow> w_files w' p = w_files (fst s) p"
  shows "step_effect D S root s l (s' w')"
proof (rule step_effect_same)
  note base = life_inv_base [OF inv]
  have p: "w_files w' (fis_path D (fis_new root) site) = w_files (fst s) (fis_path D (fis_new root) site)"
    for site
    by (rule same) (simp add: fis_path_def fis_new_def identity_path_def path_join_def base)
  have "keyed D S root w'"
    by (rule keyed_files [of D S root "fst s"], use inv in \<open>simp add: life_inv_def\<close>; rule same)
      (simp_all add: key_path_def meta_path_def path_join_def)
  note f = fis_files(2,3) [OF p]
  show "life_record D root (s' w') = life_record D root s"
    by (rule ext) (simp add: life_record_def s'_def f)
  show "life_inv D S root (s' w')"
    using inv \<open>keyed D S root w'\<close> unfolding life_inv_def fis_inv_def s'_def fst_conv f(2) by simp
qed

text \<open>Opening an empty directory establishes the invariant, with nothing retained.\<close>

lemma life_inv_fresh:
  assumes D: "store_deps_ok D" and empty: "\<And>p. prefix (su_base S) p \<Longrightarrow> w_files w p = None"
    and o: "setup_open D S w = (Inr root, w')"
  shows "life_inv D S root (w', None :: ('pk, 'rk, 'ts, 'on, 'p, 'sh) App option)"
    and "fis_content D (fis_new root) w' = (\<lambda>_. None)"
    and "fhs_inv D (fhs_new root) w'" "fhs_content D (fhs_new root) w' = (\<lambda>_. [])"
proof -
  have P: "root_deps_ok D" using D by (simp add: store_deps_ok_def)
  have none: "w_files w (key_path (su_base S)) = None" "w_files w (meta_path (su_base S)) = None"
    by (rule empty, simp add: key_path_def meta_path_def path_join_def)+
  have k: "keyed D S root w'" by (rule keyed_fresh(1) [OF P o none])
  have base: "root_base root = su_base S" using k by (simp add: keyed_def)
  have other: "w_files w' q = None"
    if "not_tmp q" "prefix (su_base S) q" "q \<noteq> key_path (su_base S)" "q \<noteq> meta_path (su_base S)" for q
    using keyed_fresh(2) [OF P o none that(1,3,4)] empty [OF that(2)] by simp
  have i: "w_files w' (fis_path D (fis_new root) site) = None" for site
    by (rule other [OF fis_path_facts(3)]) (simp_all add: fis_path_def fis_new_def identity_path_def
        key_path_def meta_path_def path_join_def base)
  have h: "w_files w' (fhs_path D (fhs_new root) p) = None" for p
    by (rule other [OF fhs_path_facts(3)]) (simp_all add: fhs_path_def fhs_new_def history_path_def
        key_path_def meta_path_def path_join_def base)
  have dto: "fis_dto_at D (fis_new root) w' site = Inr None" for site
    by (rule fis_removed [OF i])
  show "fis_content D (fis_new root) w' = (\<lambda>_. None)" by (simp add: fis_content_def dto fun_eq_iff)
  have "fhs_records_at D (fhs_new root) w' p = Inr []" for p
    by (simp add: fhs_records_at_def fhs_dto_at_def dto_at_def protected_content_def h)
  with D show "fhs_inv D (fhs_new root) w'" "fhs_content D (fhs_new root) w' = (\<lambda>_. [])"
    by (simp_all add: fhs_inv_def fhs_content_def fun_eq_iff)
  have "fis_inv D (fis_new root) w'" using D by (simp add: fis_inv_def fis_readable_def dto)
  with k show "life_inv D S root (w', None :: ('pk, 'rk, 'ts, 'on, 'p, 'sh) App option)"
    by (simp add: life_inv_def)
qed

text \<open>Every step, by the rule that made it.\<close>

lemma life_step_effect:
  assumes "life_step C D A S s l s'" and inv: "life_inv D S root s"
  shows "step_effect D S root s l s'"
  using assms(1)
proof cases
  case (outside w' w)
  with life_closed [OF inv, of w'] show ?thesis by simp
next
  case (refused w e w1)
  have "keyed D S root w" using inv by (simp add: refused(1) life_inv_def)
  from keyed_open_files [OF this refused(4)] life_closed [OF inv, of w1]
  show ?thesis by (simp add: refused(1,3))
next
  case (unloaded w root' w1 mp onion cp r w2)
  have "keyed D S root w" using inv by (simp add: unloaded(1) life_inv_def)
  from keyed_open_files [OF this unloaded(4)] build_files [OF unloaded(5)] life_closed [OF inv, of w2]
  show ?thesis by (simp add: unloaded(1,3))
next
  case (started w root' w1 mp onion cp ld w2 app msgs w3)
  have D: "store_deps_ok D" and k: "keyed D S root w" and i: "fis_inv D (fis_new root) w"
    using inv by (simp_all add: started(1) life_inv_def fis_inv_def)
  note r = keyed_open [OF k started(4)]
  note b = started(5) [unfolded r(1)] and n = started(6) [unfolded r(1)]
  have f: "w_files w2 = w_files w" using build_files [OF b] r(2) by simp
  have i1: "fis_inv D (fis_new root) w1" using i fis_same_files(2) [OF r(2), of D "fis_new root"] by simp
  note st = session_start [OF _ b n, simplified, OF i1]
  have c: "fis_content D (fis_new root) w2 = fis_content D (fis_new root) w"
    using fis_same_files(1) [OF f] .
  have "keyed D S root w3"
    by (rule keyed_other [OF k]) (simp add: app_new_other [OF D _ n] f)
  then have "life_inv D S root (w3, Some app)"
    using st(3,4) by (simp add: life_inv_def app_inv_def Let_def)
  moreover have "life_record D root (w3, Some app) = life_record D root s \<or>
      life_record D root (w3, Some app) = (life_record D root s)(ld_site ld :=
        visit_effect (ld_publisher ld) None_decision (life_record D root s (ld_site ld)))"
    using app_new_inv(5) [OF _ _ n] st(1,2) by (simp add: life_record_content started(1) c)
  ultimately show ?thesis
    unfolding started(2,3) by (rule step_effect_visit) simp
next
  case (looked inp app w out app' w')
  from looked(4,5) have "w' = w" "app_store app' = app_store app"
    by (auto elim: update_run)
  with update_facts(1) [OF _ looked(4)] inv show ?thesis
    unfolding looked(1-3) by (intro step_effect_same) (auto simp: life_inv_def life_record_def)
next
  case (decided inp app w out app' w' d)
  have D: "store_deps_ok D" and a: "app_inv D app w" and st: "app_store app = store_handle_open root"
    and k: "keyed D S root w"
    using inv by (auto simp: decided(1) life_inv_def fis_inv_def)
  note u = update_facts [OF a decided(4)]
  have "keyed D S root w'"
    by (rule keyed_other [OF k]) (rule update_other [OF D st _ decided(4)])
  then have "life_inv D S root (w', Some app')"
    using u(1,2) st by (simp add: life_inv_def app_inv_def Let_def)
  moreover have "life_record D root (w', Some app') = life_record D root s \<or>
      life_record D root (w', Some app') = (life_record D root s)(ld_site (app_loaded app) :=
        visit_effect (ld_publisher (app_loaded app)) d (life_record D root s (ld_site (app_loaded app))))"
    using u(5) decided(5) by (auto simp: life_record_def decided(1) st fun_eq_iff)
  ultimately show ?thesis
    unfolding decided(2,3) by (rule step_effect_visit) simp
next
  case (closed w app)
  with life_closed [OF inv, of w] show ?thesis by simp
qed

section \<open>Lifetimes refine the ledger\<close>

lemma life_refines_ledger:
  assumes "life C D A S s ls s'" and "life_inv D S root s"
  shows "life_inv D S root s' \<and> (\<forall>site. \<exists>vs. subseq vs (visits_of site (label_visits ls)) \<and>
    life_record D root s' site = ledger_run vs (life_record D root s site))"
  using assms
proof (induction rule: life.induct)
  case (life_refl s)
  then show ?case by (auto intro: exI [of _ "[]"])
next
  case (life_then s ls s1 l s2)
  have e: "step_effect D S root s1 l s2" using life_step_effect life_then by blast
  have "\<exists>vs. subseq vs (visits_of site (label_visits (ls @ [l]))) \<and>
      life_record D root s2 site = ledger_run vs (life_record D root s site)" for site
  proof -
    obtain us vs where "subseq us (visits_of site (label_visits ls))"
      "life_record D root s1 site = ledger_run us (life_record D root s site)"
      "subseq vs (visits_of site (label_visit l))"
      "life_record D root s2 site = ledger_run vs (life_record D root s1 site)"
      using life_then e unfolding step_effect_def by meson
    then show ?thesis
      by (intro exI [of _ "us @ vs"]) (simp add: ledger_run_append list_emb_append_mono)
  qed
  with e show ?case by (simp add: step_effect_def)
qed

text \<open>A label with a decision carries an input in which the button of that decision is clicked.\<close>

fun decision_button :: "UserDecision \<Rightarrow> frame_input \<Rightarrow> bool" where
  "decision_button PinFirstContact inp = fi_button inp BTN_PIN"
| "decision_button ConfirmPip inp = (fi_button inp BTN_VERIFIED \<or> fi_button inp BTN_VERIFIED_NEW)"
| "decision_button ConfirmNewIdentity inp = fi_button inp BTN_CONFIRM_NEW"
| "decision_button _ inp = False"

lemma frame_decision_clicked: "frame_decision inp app = Some d \<Longrightarrow> decision_button d inp"
  by (drule frame_decision_buttons) auto

lemma life_step_clicked: "life_step C D A S s (Decided site k d inp) s' \<Longrightarrow> decision_button d inp"
  by (erule life_step.cases) (auto dest: frame_decision_clicked)

lemma life_decisions_clicked:
  assumes "life C D A S s ls s'" and "Decided site k d inp \<in> set ls"
  shows "decision_button d inp"
  using assms by (induction rule: life.induct) (auto dest: life_step_clicked)

lemma label_visit_decided:
  assumes "(site, k, d) \<in> set (label_visits ls)" and "d \<noteq> None_decision"
  obtains inp where "Decided site k d inp \<in> set ls"
proof -
  from assms(1) obtain l where l: "l \<in> set ls" "(site, k, d) \<in> set (label_visit l)"
    by (auto simp: label_visits_def)
  with assms(2) that show thesis by (cases l) auto
qed

lemma life_evidence:
  assumes "life C D A S s ls s'" and "life_inv D S root s"
    and "life_record D root s' site = Some (r', ks')" and "provenance r' \<noteq> Observed"
  shows "(\<exists>d inp. Decided site (pubkey r') d inp \<in> set ls \<and> evidence (provenance r') d \<and>
      decision_button d inp) \<or>
    (\<exists>r ks. life_record D root s site = Some (r, ks) \<and> pubkey r' = pubkey r \<and>
       provenance r' = provenance r)"
proof -
  obtain vs where sub: "subseq vs (visits_of site (label_visits ls))"
    and run: "ledger_run vs (life_record D root s site) = Some (r', ks')"
    using life_refines_ledger [OF assms(1,2)] assms(3) by metis
  from ledger_run_evidence [OF run] show ?thesis
  proof (elim disjE exE conjE)
    fix d assume v: "(pubkey r', d) \<in> set vs" and ev: "evidence (provenance r') d"
    have "d \<noteq> None_decision" using ev assms(4) by (cases "provenance r'") auto
    moreover have "(site, pubkey r', d) \<in> set (label_visits ls)"
      using subseq_set [OF sub v] by (simp add: set_visits_of)
    ultimately show ?thesis
      using label_visit_decided life_decisions_clicked [OF assms(1)] ev by metis
  qed blast
qed

section \<open>What is kept\<close>

text \<open>The labels of decisions at a site taken with a button that confirms a new identity.\<close>

fun confirms_new :: "'on \<Rightarrow> ('on, 'pk) label \<Rightarrow> bool" where
  "confirms_new site (Decided site' k d inp) =
     (site' = site \<and> (fi_button inp BTN_CONFIRM_NEW \<or> fi_button inp BTN_VERIFIED_NEW))"
| "confirms_new site _ = False"

lemma life_step_keeps:
  assumes step: "life_step C D A S s l s'" and inv: "life_inv D S root s"
    and no: "\<not> confirms_new site l" and rec: "life_record D root s site = Some (r, ks)"
  shows "\<exists>r'. life_record D root s' site = Some (r', ks) \<and> pubkey r' = pubkey r \<and>
    provenance r \<le> provenance r'"
proof -
  obtain vs where sub: "subseq vs (visits_of site (label_visit l))"
    and run: "life_record D root s' site = ledger_run vs (Some (r, ks))"
    using life_step_effect [OF step inv] rec unfolding step_effect_def by metis
  show ?thesis
  proof (cases "\<exists>k d inp. l = Decided site k d inp")
    case False
    then have "\<forall>(k, d) \<in> set (visits_of site (label_visit l)). \<not> accepts_new d"
      by (cases l) (auto simp: visits_of_def)
    then have "\<forall>(k, d) \<in> set vs. k \<noteq> pubkey r \<longrightarrow> \<not> accepts_new d" using subseq_set [OF sub] by blast
    from ledger_run_keeps [OF this] show ?thesis by (simp add: run)
  next
    case True
    with step obtain w app inp out app' w' k d where
      u: "update D (derive_pip C) inp app w = (out, app', w')"
      and s: "s = (w, Some app)" "s' = (w', Some app')" "l = Decided site k d inp"
      by (auto elim: life_step.cases)
    have i: "app_inv D app w" and st: "app_store app = store_handle_open root"
      using inv by (auto simp: s(1) life_inv_def)
    show ?thesis
      using update_keeps [OF i u, of site r ks] rec no
      by (simp add: app_record_def st s life_record_def)
  qed
qed

lemma life_keeps:
  assumes "life C D A S s ls s'" and "life_inv D S root s"
    and "list_all (\<lambda>l. \<not> confirms_new site l) ls" and "life_record D root s site = Some (r, ks)"
  shows "\<exists>r'. life_record D root s' site = Some (r', ks) \<and> pubkey r' = pubkey r \<and>
    provenance r \<le> provenance r'"
  using assms
proof (induction rule: life.induct)
  case (life_then s ls s1 l s2)
  from life_then.IH [OF life_then.prems(1)] life_then.prems(2,3) obtain r1 where
    r1: "life_record D root s1 site = Some (r1, ks)" "pubkey r1 = pubkey r" "provenance r \<le> provenance r1"
    by auto
  have "life_inv D S root s1" using life_refines_ledger [OF life_then.hyps(1) life_then.prems(1)] by blast
  from life_step_keeps [OF life_then.hyps(2) this _ r1(1)] life_then.prems(2) r1 show ?case
    by (auto intro: order_trans)
qed simp

lemma life_log:
  assumes "life C D A S s ls s'" and "life_inv D S root s"
  shows "\<exists>new. identity_log (life_record D root s' site) = new @ identity_log (life_record D root s site) \<and>
    list_all (\<lambda>k. \<exists>d. (site, k, d) \<in> set (label_visits ls)) new"
proof -
  obtain vs where sub: "subseq vs (visits_of site (label_visits ls))"
    and run: "life_record D root s' site = ledger_run vs (life_record D root s site)"
    using life_refines_ledger [OF assms] by blast
  obtain new where new: "identity_log (life_record D root s' site) =
      new @ identity_log (life_record D root s site)" "set new \<subseteq> fst ` set vs"
    using ledger_run_log_keys [of vs "life_record D root s site"] run by auto
  have "\<exists>d. (site, k, d) \<in> set (label_visits ls)" if "k \<in> set new" for k
  proof -
    from new(2) that obtain d where "(k, d) \<in> set vs" by auto
    from subseq_set [OF sub this] show ?thesis by (auto simp: set_visits_of)
  qed
  with new(1) show ?thesis by (auto simp: list_all_iff)
qed

section \<open>The program is a lifetime\<close>

text \<open>The inputs of the decisions of a path.\<close>

fun label_input :: "('on, 'pk) label \<Rightarrow> frame_input list" where
  "label_input (Decided site k d inp) = [inp]"
| "label_input _ = []"

definition label_inputs :: "('on, 'pk) label list \<Rightarrow> frame_input list" where
  "label_inputs ls = concat (map label_input ls)"

lemma label_inputs_simps [simp]:
  "label_inputs [] = []" "label_inputs (ls @ ms) = label_inputs ls @ label_inputs ms"
  "label_inputs (l # ls) = label_input l @ label_inputs ls"
  by (simp_all add: label_inputs_def)

text \<open>The frames of a window are steps.\<close>

lemma app_run_life:
  "app_run D (derive_pip C) inps app w = (outs, app', w') \<Longrightarrow>
     \<exists>ls. life C D A S (w, Some app) ls (w', Some app') \<and> set (label_inputs ls) \<subseteq> set inps"
proof (induction inps arbitrary: app w outs)
  case Nil
  then show ?case by (auto intro!: exI [of _ "[]"] life_refl)
next
  case (Cons inp inps)
  obtain out app1 w1 where u: "update D (derive_pip C) inp app w = (out, app1, w1)"
    by (cases "update D (derive_pip C) inp app w") auto
  with Cons.prems obtain outs1 where "app_run D (derive_pip C) inps app1 w1 = (outs1, app', w')"
    by (auto split: prod.splits)
  from Cons.IH [OF this] obtain ls where ls: "life C D A S (w1, Some app1) ls (w', Some app')"
    "set (label_inputs ls) \<subseteq> set inps" by blast
  obtain l where l: "life_step C D A S (w, Some app) l (w1, Some app1)"
    "set (label_input l) \<subseteq> {inp}"
    using looked [OF u, where A = A] decided [OF u, where A = A]
    by (cases "frame_decision inp app") fastforce+
  from life_trans [OF ls(1) life_one [OF l(1)]] ls(2) l(2) show ?case
    by (intro exI [of _ "[l] @ ls"]) (auto simp del: append.simps)
qed

text \<open>
  A whole run of \<open>main\<close>, however it ends, is a path for the setup of its command line, and its
  decisions are taken with inputs of its window.
\<close>

definition run_setup :: "bool \<Rightarrow> Cli \<Rightarrow> ustring + ustring \<Rightarrow> store_setup" where
  "run_setup fe cli prompt =
     \<lparr>su_feature = fe, su_base = cli_store_dir cli,
      su_protection = (if cli_encrypted cli then Encrypted else Integrity),
      su_passphrase = (if cli_encrypted cli then Some (projr prompt) else None)\<rparr>"

lemma main_is_life:
  assumes cli: "parse_cli pd args = Inr cli"
    and m: "main_prog C D A fe pd prompt win args w = (res, w')"
  shows "\<exists>ls. life C D A (run_setup fe cli prompt) (w, None) ls (w', None) \<and>
    set (label_inputs ls) \<subseteq> (case win of NoWindow _ \<Rightarrow> {} | Window inps _ \<Rightarrow> set inps)"
proof (cases "cli_encrypted cli \<and> \<not> is_ok prompt")
  case True
  then obtain e where "prompt = Inl e" by (cases prompt) auto
  with True cli m have "w' = w" by (simp add: main_prog_def)
  then show ?thesis by (intro exI [of _ "[]"]) (simp add: life_refl)
next
  case False
  let ?S = "run_setup fe cli prompt"
  obtain r w1 where o: "setup_open D ?S w = (r, w1)" by (cases "setup_open D ?S w")
  define pass where "pass = su_passphrase ?S"
  have p: "(if cli_encrypted cli then map_err (\<lambda>e. lit ''error: reading passphrase: '' @ e)
        (result_bind prompt (\<lambda>p. Inr (Some p))) else Inr None) = Inr pass"
    using False by (cases prompt) (auto simp: pass_def run_setup_def)
  have o': "root_open D fe (cli_store_dir cli) (if cli_encrypted cli then Encrypted else Integrity)
      pass w = (r, w1)"
    using o by (simp add: setup_open_def run_setup_def pass_def)
  note m = m [unfolded main_prog_def cli sum.case Let_def p o']
  show ?thesis
  proof (cases r)
    case (Inl e)
    with m have "w' = w1" by simp
    with life_one [OF refused] o Inl show ?thesis by (intro exI [of _ "[Quiet]"]) simp
  next
    case (Inr root)
    note o = o [unfolded Inr]
    obtain q w2 where b: "build C D A (cli_manifest cli) (cli_onion cli) (cli_content cli)
        (store_handle_open root) w1 = (q, w2)"
      by (cases "build C D A (cli_manifest cli) (cli_onion cli) (cli_content cli)
        (store_handle_open root) w1")
    show ?thesis
    proof (cases "w' = w2")
      case True
      with life_one [OF unloaded [OF o b]] show ?thesis by (intro exI [of _ "[Quiet]"]) simp
    next
      case False
      with m b Inr obtain l inps result where q: "q = Inr l" and win: "win = Window inps result"
        by (auto split: sum.splits failure.splits window.splits)
      obtain app msgs w3 where n: "app_new D (derive_pip C) l (store_handle_open root) w2 =
          (app, msgs, w3)" by (cases "app_new D (derive_pip C) l (store_handle_open root) w2") auto
      obtain outs app' w4 where run: "app_run D (derive_pip C) inps app w3 = (outs, app', w4)"
        by (cases "app_run D (derive_pip C) inps app w3") auto
      have w': "w' = w4" using m b Inr q win n run by simp
      obtain ls where ls: "life C D A ?S (w3, Some app) ls (w4, Some app')"
        "set (label_inputs ls) \<subseteq> set inps" using app_run_life [OF run] by blast
      from life_trans [OF life_one [OF closed] life_trans [OF ls(1)
          life_one [OF started [OF o b [unfolded q] n]]]] w' ls(2)
      show ?thesis by (intro exI) (auto simp: win)
    qed
  qed
qed

end
