(* ===== verification/Lifetime_History.thy ===== *)
theory Lifetime_History
  imports Lifetime
begin

text \<open>
  The publisher histories over the lifetime of a store. A run checks a manifest against the
  history it loads and appends the manifest's record later, perhaps several times and perhaps
  never; here it is shown that whenever it does, the record still fits, so that every history
  stays a chain from run to run.
\<close>

section \<open>What a run may append\<close>

text \<open>
  \<open>build\<close> picks the history by the publisher key it reads from the bytes itself. The key the
  core parses from the same bytes is the same one: both read the field \<open>publisher_pubkey\<close>.
\<close>

definition peek_agrees ::
  "('m, 'pk, 'rk, 'ts, 'on, 'ci, 'cd, 'st, 'z) core_scheme \<Rightarrow> ('pk, 'ts, 'on, 'j) cli_api \<Rightarrow> bool"
where
  "peek_agrees C A \<longleftrightarrow>
     (\<forall>b site ci now m cs ix k. peek_publisher_pubkey A b = Inr k \<longrightarrow>
        chain_passes C b site ci now (m, cs, ix) \<longrightarrow> manifest_publisher_pubkey C m = k)"

definition histories_ok ::
  "('on, 'pk, 'ts :: linorder, 'rk, 'z) store_deps_scheme \<Rightarrow> FileHistoryStore \<Rightarrow> world \<Rightarrow> bool" where
  "histories_ok D st w \<longleftrightarrow>
     fhs_inv D st w \<and> (\<forall>p. history_chain (from_records_newest_first (fhs_content D st w p)))"

definition record_fits ::
  "('on, 'pk, 'ts :: linorder, 'rk, 'z) store_deps_scheme \<Rightarrow> FileHistoryStore \<Rightarrow> world \<Rightarrow>
   ('pk, 'rk, 'ts, 'on, 'p, 'sh) Loaded \<Rightarrow> bool" where
  "record_fits D st w l \<longleftrightarrow>
     (\<forall>r. ld_record l = Some r \<longrightarrow> record_ok r \<and>
        (\<forall>n. newest (from_records_newest_first (fhs_content D st w (ld_publisher l))) = Some n \<longrightarrow>
           fits n r))"

text \<open>What persisting may do to the histories: nothing, or the loaded record in front.\<close>

definition hist_effect ::
  "('on, 'pk, 'ts, 'rk, 'z) store_deps_scheme \<Rightarrow> FileHistoryStore \<Rightarrow>
   ('pk, 'rk, 'ts, 'on, 'p, 'sh) Loaded \<Rightarrow> world \<Rightarrow> world \<Rightarrow> bool" where
  "hist_effect D st l w w' \<longleftrightarrow>
     fhs_inv D st w' \<and>
     (fhs_content D st w' = fhs_content D st w \<or>
      (\<exists>r. ld_record l = Some r \<and> fhs_content D st w' =
         (fhs_content D st w)(ld_publisher l := r # fhs_content D st w (ld_publisher l))))"

lemma fits_refl [simp]: "fits r r"
  by (simp add: fits_def)

lemma hist_effect_ok:
  assumes "hist_effect D st l w w'" and "histories_ok D st w" and "record_fits D st w l"
  shows "histories_ok D st w'" and "record_fits D st w' l"
proof -
  have "histories_ok D st w' \<and> record_fits D st w' l"
    using assms(1) unfolding hist_effect_def
  proof (elim conjE disjE exE)
    fix r assume i: "fhs_inv D st w'" and r: "ld_record l = Some r" and c: "fhs_content D st w' =
      (fhs_content D st w)(ld_publisher l := r # fhs_content D st w (ld_publisher l))"
    let ?h = "from_records_newest_first (fhs_content D st w (ld_publisher l))"
    have push: "from_records_newest_first (r # fhs_content D st w (ld_publisher l)) = push ?h r"
      by (simp add: from_records_newest_first_def push_def)
    have "history_chain (push ?h r)"
      by (rule history_chain_push) (use assms(2,3) r in \<open>auto simp: histories_ok_def record_fits_def\<close>)
    then have "history_chain (from_records_newest_first (fhs_content D st w' p))" for p
      using assms(2) by (simp add: c push histories_ok_def)
    then show ?thesis
      using i r assms(3) by (simp add: histories_ok_def record_fits_def c push)
  qed (use assms(2,3) in \<open>simp add: histories_ok_def record_fits_def\<close>)
  then show "histories_ok D st w'" "record_fits D st w' l" by simp_all
qed

lemma hist_effect_same_files:
  assumes "w_files w' = w_files w" and "fhs_inv D st w"
  shows "hist_effect D st l w w'"
  using fhs_same_files [OF assms(1), of D st] assms(2) by (simp add: hist_effect_def)

lemma histories_files:
  assumes "w_files w' = w_files w"
  shows "histories_ok D st w' \<longleftrightarrow> histories_ok D st w" "record_fits D st w' l \<longleftrightarrow> record_fits D st w l"
  using fhs_same_files [OF assms, of D st] by (simp_all add: histories_ok_def record_fits_def)

text \<open>An intent of a resolution retains the presented publisher, or nothing.\<close>

lemma resolve_intent_publisher:
  "intent_publisher (res_intent (resolve k retained d)) = None \<or>
   intent_publisher (res_intent (resolve k retained d)) = Some k"
  by (cases d; cases retained) (auto simp: resolve_def matched_def split: RetainedProvenance.split)

lemma app_persist_hist:
  assumes inv: "fhs_inv D (sh_history (app_store app)) w"
    and p: "app_persist D app i w = (q, w')"
    and i: "intent_publisher i = None \<or> intent_publisher i = Some (ld_publisher (app_loaded app))"
    and ok: "\<And>r. ld_record (app_loaded app) = Some r \<Longrightarrow> record_ok r"
  shows "hist_effect D (sh_history (app_store app)) (app_loaded app) w w'"
proof -
  let ?st = "sh_history (app_store app)" and ?l = "app_loaded app"
  have D: "store_deps_ok D" using inv by (simp add: fhs_inv_def)
  obtain q1 w1 where a: "fis_apply D (sh_identities (app_store app)) (ld_site ?l) i w = (q1, w1)"
    by (cases "fis_apply D (sh_identities (app_store app)) (ld_site ?l) i w")
  from fis_apply_keeps_history [OF D a, of ?st] inv
  have c: "fhs_content D ?st w1 = fhs_content D ?st w" and i1: "fhs_inv D ?st w1" by simp_all
  have "w' = w1 \<or> (\<exists>r s. ld_record ?l = Some r \<and>
      fhs_append_record D ?st (ld_publisher ?l) r w1 = (s, w'))"
    using p a i by (auto simp: app_persist_def act_bind_def split: sum.splits option.splits prod.splits)
  then show ?thesis
  proof (elim disjE exE conjE)
    fix r s assume r: "ld_record ?l = Some r"
      and ap: "fhs_append_record D ?st (ld_publisher ?l) r w1 = (s, w')"
    show ?thesis
      using fhs_append_spec [OF i1 ap] ok [OF r] r c
      by (cases s) (auto simp: hist_effect_def)
  qed (use c i1 in \<open>simp add: hist_effect_def\<close>)
qed

lemma persist_and_reload_hist:
  assumes "fhs_inv D (sh_history (app_store app)) w"
    and p: "persist_and_reload D msg i app w = (app', msgs, w')"
    and "intent_publisher i = None \<or> intent_publisher i = Some (ld_publisher (app_loaded app))"
    and "\<And>r. ld_record (app_loaded app) = Some r \<Longrightarrow> record_ok r"
  shows "hist_effect D (sh_history (app_store app)) (app_loaded app) w w'"
    and "ld_record (app_loaded app') = ld_record (app_loaded app)"
    and "ld_publisher (app_loaded app') = ld_publisher (app_loaded app)"
    and "app_store app' = app_store app"
proof -
  obtain r w1 where a: "app_persist D app i w = (r, w1)" by (cases "app_persist D app i w")
  obtain l where r: "fis_load_identity D (sh_identities (app_store app)) (ld_site (app_loaded app)) w1 = (l, w')"
    using p a by (auto simp: persist_and_reload_def split: prod.splits)
  have "w_files w' = w_files w1" by (rule fis_load_identity_run(1) [OF r])
  from fhs_same_files [OF this, of D "sh_history (app_store app)"] app_persist_hist [OF assms(1) a assms(3,4)]
  show "hist_effect D (sh_history (app_store app)) (app_loaded app) w w'"
    by (simp add: hist_effect_def)
  show "ld_record (app_loaded app') = ld_record (app_loaded app)"
    "ld_publisher (app_loaded app') = ld_publisher (app_loaded app)" "app_store app' = app_store app"
    using p a r by (auto simp: persist_and_reload_def split: sum.splits)
qed

lemma hist_effect_loaded:
  "ld_record l' = ld_record l \<Longrightarrow> ld_publisher l' = ld_publisher l \<Longrightarrow>
     hist_effect D st l' w w' = hist_effect D st l w w'"
  by (simp add: hist_effect_def)

lemma record_fits_loaded:
  "ld_record l' = ld_record l \<Longrightarrow> ld_publisher l' = ld_publisher l \<Longrightarrow>
     record_fits D st w l' = record_fits D st w l"
  by (simp add: record_fits_def)

section \<open>Starting and running\<close>

lemma app_new_hist:
  assumes "fhs_inv D (sh_history store) w"
    and n: "app_new D pip_of l store w = (app, msgs, w')"
    and i: "ld_initial_intent l = res_intent (resolve (ld_publisher l) retained d)"
    and ok: "\<And>r. ld_record l = Some r \<Longrightarrow> record_ok r"
  shows "hist_effect D (sh_history store) l w w'"
    and "ld_record (app_loaded app) = ld_record l" "ld_publisher (app_loaded app) = ld_publisher l"
proof -
  obtain pp mp where pr: "prompts_for pip_of l = (pp, mp)" by (cases "prompts_for pip_of l")
  define a where "a = \<lparr>app_loaded = l, app_store = store, app_handoff = None,
    app_canary_override = False, app_pin_prompt = pp, app_mismatch_prompt = mp\<rparr>"
  have p: "persist_and_reload D ''error: persisting first-contact observation: ''
      (ld_initial_intent l) a w = (app, msgs, w')"
    using n by (simp add: app_new_def pr a_def)
  have s: "app_store a = store" "app_loaded a = l" by (simp_all add: a_def)
  note h = persist_and_reload_hist [OF _ p, unfolded s, OF assms(1)]
  have i': "intent_publisher (ld_initial_intent l) = None \<or>
      intent_publisher (ld_initial_intent l) = Some (ld_publisher l)"
    unfolding i by (rule resolve_intent_publisher)
  from h [OF i' ok] show "hist_effect D (sh_history store) l w w'"
    "ld_record (app_loaded app) = ld_record l" "ld_publisher (app_loaded app) = ld_publisher l"
    by blast+
qed

lemma update_hist:
  assumes inv: "fhs_inv D (sh_history (app_store app)) w"
    and u: "update D pip_of inp app w = (out, app', w')"
    and ok: "\<And>r. ld_record (app_loaded app) = Some r \<Longrightarrow> record_ok r"
  shows "hist_effect D (sh_history (app_store app)) (app_loaded app) w w' \<and>
    ld_record (app_loaded app') = ld_record (app_loaded app) \<and>
    ld_publisher (app_loaded app') = ld_publisher (app_loaded app)"
  using u
proof (cases rule: update_run)
  case (decided d app1)
  obtain i l where ad: "apply_decision pip_of d (app_loaded app) = (i, l)"
    by (cases "apply_decision pip_of d (app_loaded app)")
  note ad' = apply_decision_resolution [OF ad]
  define a where "a = app\<lparr>app_loaded := l\<rparr>"
  obtain app2 where p: "persist_and_reload D ''error: persisting trust decision: '' i a w =
      (app2, fo_messages out, w')"
    and app1: "app1 = app2\<lparr>app_pin_prompt := None, app_mismatch_prompt := None\<rparr>"
    using decided(2) by (auto simp: apply_and_persist_def ad a_def split: prod.splits)
  have s: "app_store a = app_store app" "app_loaded a = l" by (simp_all add: a_def)
  have i: "intent_publisher i = None \<or> intent_publisher i = Some (ld_publisher l)"
    unfolding ad'(1,3) by (rule resolve_intent_publisher)
  note h = persist_and_reload_hist [OF _ p, unfolded s, OF inv i]
  show ?thesis
    using h ok ad'(3,5) hist_effect_loaded [OF ad'(5,3), of D "sh_history (app_store app)"] by (simp add: decided(3) app1)
next
  case undecided
  with hist_effect_same_files [OF _ inv, of w] show ?thesis by simp
qed

lemma build_record_fits:
  assumes C: "core_checks_ok C" "recs_ok record_ok C" and A: "peek_agrees C A"
    and inv: "fis_inv D (sh_identities store) w"
    and b: "build C D A mp onion cp store w = (Inr l, w')"
  shows "record_fits D (sh_history store) w' l"
    and "ld_initial_intent l = res_intent (resolve (ld_publisher l) (ld_retained l) None_decision)"
proof -
  from build_Ok [OF inv b] obtain site mf cb t k history w1 where
    pub: "peek_publisher_pubkey A (contents mf) = Inr k"
    and f: "w_files w1 = w_files w" and h: "fhs_load_history D (sh_history store) k w1 = (Inr history, w')"
    and ld: "load C (contents mf) cb site onion fixed_now (FixedClock t)
      (map_option fst (app_record D store w site)) history = Inr l" by blast
  from load_Ok [OF ld] obtain m cs ix where chain: "chain_passes C (contents mf) site None t (m, cs, ix)"
    and acc: "check_against_history C m history = Inr ()"
    and l: "ld_publisher l = manifest_publisher_pubkey C m" "ld_record l = record_for C m"
      "ld_retained l = map_option fst (app_record D store w site)"
    by (auto simp: load_spec_def)
  show "ld_initial_intent l = res_intent (resolve (ld_publisher l) (ld_retained l) None_decision)"
    using load_resolution [OF ld] l(3) by simp
  have k: "ld_publisher l = k"
    using A pub chain l(1) unfolding peek_agrees_def by blast
  have "w_files w' = w_files w1" by (rule fhs_load_history_files [OF h])
  with fhs_load_history_Ok [OF h] have rs: "fhs_content D (sh_history store) w' k = records history"
    using fhs_same_files [of w' w1 D "sh_history store"] by (simp add: fhs_content_def)
  show "record_fits D (sh_history store) w' l"
    unfolding record_fits_def k rs
  proof (intro allI impI conjI)
    fix r assume r: "ld_record l = Some r"
    with C(2) l(2) show "record_ok r" by (simp add: recs_ok_def)
    fix n assume "newest (from_records_newest_first (records history)) = Some n"
    then have "newest history = Some n"
      by (simp add: newest_def from_records_newest_first_def records_def)
    with check_against_history_Ok [OF C(1) acc] l(2) r show "fits n r" by simp
  qed
qed

section \<open>Lifetimes\<close>

definition life_hist_inv ::
  "('on, 'pk, 'ts :: linorder, 'rk, 'z) store_deps_scheme \<Rightarrow> StoreRoot \<Rightarrow>
   ('pk, 'rk, 'ts, 'on, 'p, 'sh) life_state \<Rightarrow> bool" where
  "life_hist_inv D root s \<longleftrightarrow>
     histories_ok D (fhs_new root) (fst s) \<and>
     (case snd s of None \<Rightarrow> True
      | Some app \<Rightarrow> record_fits D (fhs_new root) (fst s) (app_loaded app))"

lemma life_step_histories:
  assumes C: "core_checks_ok C" "recs_ok record_ok C" and A: "peek_agrees C A"
    and "life_step C D A S s l s'"
    and inv: "life_inv D S root s" and hist: "life_hist_inv D root s"
  shows "life_hist_inv D root s'"
  using assms(4)
proof cases
  case (outside w' w)
  have "fhs_records_at D (fhs_new root) w' p = fhs_records_at D (fhs_new root) w p" for p
    by (rule fhs_files, rule outside(4))
      (simp add: fhs_path_def fhs_new_def history_path_def path_join_def life_inv_base [OF inv])
  from fhs_same_records [OF this] hist show ?thesis
    by (simp add: outside(1,3) life_hist_inv_def histories_ok_def)
next
  case (refused w e w1)
  have "keyed D S root w" using inv by (simp add: refused(1) life_inv_def)
  from histories_files(1) [OF keyed_open_files [OF this refused(4)], of D "fhs_new root"] hist
  show ?thesis by (simp add: refused(1,3) life_hist_inv_def)
next
  case (unloaded w root' w1 mp onion cp r w2)
  have "keyed D S root w" using inv by (simp add: unloaded(1) life_inv_def)
  then have "w_files w2 = w_files w"
    using build_files [OF unloaded(5)] keyed_open_files [OF _ unloaded(4)] by simp
  from histories_files(1) [OF this, of D "fhs_new root"] hist show ?thesis
    by (simp add: unloaded(1,3) life_hist_inv_def)
next
  case (started w root' w1 mp onion cp ld w2 app msgs w3)
  have k: "keyed D S root w" and i: "fis_inv D (fis_new root) w"
    using inv by (simp_all add: started(1) life_inv_def)
  note r = keyed_open [OF k started(4)]
  note b = started(5) [unfolded r(1)] and n = started(6) [unfolded r(1)]
  have f: "w_files w2 = w_files w" using build_files [OF b] r(2) by simp
  have i1: "fis_inv D (sh_identities (store_handle_open root)) w1"
    using i fis_same_files(2) [OF r(2), of D "fis_new root"] by simp
  note fit = build_record_fits [OF C A i1 b, simplified]
  have h: "histories_ok D (fhs_new root) w2"
    using hist histories_files(1) [OF f, of D "fhs_new root"] by (simp add: started(1) life_hist_inv_def)
  have e: "hist_effect D (fhs_new root) ld w2 w3"
    and app: "ld_record (app_loaded app) = ld_record ld"
      "ld_publisher (app_loaded app) = ld_publisher ld"
    using app_new_hist [OF _ n fit(2)] h fit(1) by (auto simp: histories_ok_def record_fits_def)
  from hist_effect_ok [OF e h fit(1)] record_fits_loaded [OF app, of D "fhs_new root"]
  show ?thesis by (simp add: started(3) life_hist_inv_def)
next
  case (looked inp app w out app' w')
  then have "w' = w" "app_loaded app' = app_loaded app" by (auto elim: update_run)
  with hist show ?thesis by (simp add: looked(1,3) life_hist_inv_def)
next
  case (decided inp app w out app' w' d)
  have st: "app_store app = store_handle_open root" using inv by (simp add: decided(1) life_inv_def)
  have h: "histories_ok D (fhs_new root) w" and fit: "record_fits D (fhs_new root) w (app_loaded app)"
    using hist by (simp_all add: decided(1) life_hist_inv_def)
  have u: "hist_effect D (fhs_new root) (app_loaded app) w w'"
    "ld_record (app_loaded app') = ld_record (app_loaded app)"
    "ld_publisher (app_loaded app') = ld_publisher (app_loaded app)"
    using update_hist [OF _ decided(4)] h fit by (auto simp: st histories_ok_def record_fits_def)
  from hist_effect_ok [OF u(1) h fit] record_fits_loaded [OF u(2,3), of D "fhs_new root"]
  show ?thesis by (simp add: decided(3) life_hist_inv_def)
next
  case (closed w app)
  with hist show ?thesis by (simp add: life_hist_inv_def)
qed

lemma life_histories:
  assumes "core_checks_ok C" "recs_ok record_ok C" and "peek_agrees C A"
    and "life C D A S s ls s'"
    and "life_inv D S root s" and "life_hist_inv D root s"
  shows "life_hist_inv D root s'"
  using assms(4-6)
proof (induction rule: life.induct)
  case (life_then s ls s1 l s2)
  have "life_inv D S root s1" using life_refines_ledger [OF life_then.hyps(1) life_then.prems(1)] by blast
  with life_step_histories [OF assms(1-3) life_then.hyps(2)] life_then show ?case by blast
qed

text \<open>In a chain, records of one time carry one payload, adjacent or not.\<close>

lemma history_chain_consistent:
  fixes h :: "('ts::linorder, 'rk) PublisherHistory"
  assumes "history_chain h"
  shows "sorted_wrt (\<lambda>newer older. issued_at older \<le> issued_at newer \<and>
    (issued_at older = issued_at newer \<longrightarrow>
       manifest_payload_hash older = manifest_payload_hash newer)) (records h)"
proof -
  let ?R = "\<lambda>(newer :: ('ts, 'rk) RetainedManifestRecord) older. issued_at older \<le> issued_at newer \<and>
    (issued_at older = issued_at newer \<longrightarrow>
       manifest_payload_hash older = manifest_payload_hash newer)"
  have "successively ?R (records h)"
    using assms unfolding history_chain_def by (rule successively_mono) (auto simp: fits_def)
  moreover have "transp ?R"
    by (rule transpI) (metis order.antisym order.trans)
  ultimately show ?thesis by (simp add: successively_conv_sorted_wrt)
qed

end
