(* ===== verification/Call_Bounds.thy ===== *)
theory Call_Bounds
  imports Cli
begin

text \<open>
  How much a run can do: a bound on the number of calls to the operating system (file calls
  and requests for randomness, counted by \<open>w_tick\<close>), composed along the code, whatever the
  calls return. A window persists at most one decision, so the bound for a whole run does not
  depend on the number of frames: no pattern of failures makes the program loop. And where
  the disk has stopped answering, which is also what a crash is to the disk, nothing changes.
\<close>

section \<open>Counting calls\<close>

named_theorems calls \<open>bounds on the number of calls\<close>

definition calls_within :: "nat \<Rightarrow> (world, 'e, 'a) action \<Rightarrow> bool" where
  "calls_within n m \<longleftrightarrow> (\<forall>w. w_tick (snd (m w)) \<le> w_tick w + n)"

lemma calls_withinI: "(\<And>w. w_tick (snd (m w)) \<le> w_tick w + n) \<Longrightarrow> calls_within n m"
  by (simp add: calls_within_def)

lemma calls_withinD: "calls_within n m \<Longrightarrow> m w = (r, w') \<Longrightarrow> w_tick w' \<le> w_tick w + n"
  unfolding calls_within_def by (metis snd_conv)

lemma calls_mono: "calls_within a m \<Longrightarrow> a \<le> b \<Longrightarrow> calls_within b m"
  unfolding calls_within_def by (meson add_left_mono order_trans)

lemma calls_bind:
  assumes "calls_within a m" and "\<And>x. calls_within b (f x)"
  shows "calls_within (a + b) (act_bind m f)"
proof (rule calls_withinI)
  fix w
  obtain r w1 where m: "m w = (r, w1)" by (cases "m w")
  have "w_tick w1 \<le> w_tick w + a" by (rule calls_withinD [OF assms(1) m])
  moreover have "w_tick (snd (f x w1)) \<le> w_tick w1 + b" for x
    using assms(2) by (simp add: calls_within_def)
  ultimately show "w_tick (snd (act_bind m f w)) \<le> w_tick w + (a + b)"
    by (cases r) (simp_all add: act_bind_def m order_trans [of _ "w_tick w1 + b"])
qed

lemma calls_map_err [calls]: "calls_within n m \<Longrightarrow> calls_within n (act_map_err g m)"
  by (simp add: calls_within_def act_map_err_def split: prod.splits) (metis snd_conv)

lemma calls_none [calls]:
  "calls_within n (act_return x)" "calls_within n (act_lift r)" "calls_within n (act_fail e)"
  by (simp_all add: calls_within_def)

lemma calls_bind_pure:
  assumes "calls_within n m" and "\<And>x. calls_within 0 (f x)"
  shows "calls_within n (act_bind m f)"
  using calls_bind [OF assms] by simp

lemma calls_bind_lift:
  assumes "\<And>x. calls_within n (f x)" shows "calls_within n (act_bind (act_lift r) f)"
  using calls_bind [OF calls_none(2) [of 0] assms] by simp

lemma calls_option [calls]:
  "calls_within n m \<Longrightarrow> (\<And>x. calls_within n (f x)) \<Longrightarrow>
     calls_within n (case y of None \<Rightarrow> m | Some x \<Rightarrow> f x)"
  by (cases y) simp_all

lemma calls_if [calls]: "calls_within n m \<Longrightarrow> calls_within n m' \<Longrightarrow> calls_within n (if b then m else m')"
  by simp

lemma calls_syscall:
  assumes "\<And>w. w_tick (snd (body w)) = w_tick w"
  shows "calls_within 1 (syscall body)"
  by (simp add: calls_within_def syscall_def Let_def assms split: option.splits)

text \<open>The calls of the model, one each.\<close>

lemma calls_fs [calls]:
  "calls_within 1 (fs_read p)" "calls_within 1 (fs_create_dir_all p)"
  "calls_within 1 (fs_create_new p m)" "calls_within 1 (fs_write_all p b)"
  "calls_within 1 (fs_sync_all p)" "calls_within 1 (fs_rename p q)"
  "calls_within 1 (fs_remove_file p)" "calls_within 1 (getrandom k)"
  unfolding fs_read_def fs_create_dir_all_def fs_create_new_def fs_sync_all_def fs_rename_def
    fs_remove_file_def
  by (rule calls_syscall; simp split: option.splits)+
    (auto simp: calls_within_def fs_write_all_def syscall_def Let_def append_to_def getrandom_def
      split: option.splits)

section \<open>The store\<close>

lemma calls_read_file_opt: "calls_within 1 (read_file_opt p)"
proof (rule calls_withinI)
  fix w
  obtain r w1 where r: "fs_read p w = (r, w1)" by (cases "fs_read p w")
  have "w_tick w1 \<le> w_tick w + 1" by (rule calls_withinD [of 1 "fs_read p", OF _ r]) (rule calls)
  then show "w_tick (snd (read_file_opt p w)) \<le> w_tick w + 1"
    by (simp add: read_file_opt_def r split: sum.splits io_error.splits)
qed

lemma calls_write_via_tmp: "calls_within 4 (write_via_tmp t p b)"
proof -
  have "calls_within (1 + (1 + (1 + 1))) (write_via_tmp t p b)"
    unfolding write_via_tmp_def by (intro calls_bind calls)
  then show ?thesis by (simp add: numeral_eq_Suc)
qed

lemma calls_write_atomic: "calls_within 7 (write_atomic D p b)"
proof -
  have body: "calls_within 5 (\<lambda>w. let tmp = tmp_name D nonce p
       in case write_via_tmp tmp p b w of
            (Inl e, w') \<Rightarrow> (Inl e, snd (fs_remove_file tmp w'))
          | (Inr u, w') \<Rightarrow> (Inr u, w'))" for nonce
  proof (rule calls_withinI)
    fix w
    let ?t = "tmp_name D nonce p"
    obtain r w1 where v: "write_via_tmp ?t p b w = (r, w1)" by (cases "write_via_tmp ?t p b w")
    have "w_tick w1 \<le> w_tick w + 4" by (rule calls_withinD [OF calls_write_via_tmp v])
    moreover have "w_tick (snd (fs_remove_file ?t w1)) \<le> w_tick w1 + 1"
      using calls_fs(7) by (simp add: calls_within_def)
    ultimately show "w_tick (snd (let tmp = ?t in case write_via_tmp tmp p b w of
            (Inl e, w') \<Rightarrow> (Inl e, snd (fs_remove_file tmp w'))
          | (Inr u, w') \<Rightarrow> (Inr u, w'))) \<le> w_tick w + 5"
      by (cases r) (simp_all add: Let_def v)
  qed
  have "calls_within (0 + (1 + (1 + 5))) (write_atomic D p b)"
    unfolding write_atomic_def by (intro calls_bind calls body)
  then show ?thesis by (simp add: numeral_eq_Suc)
qed

lemma calls_seal: "calls_within 1 (seal D p b)"
proof (cases p)
  case (Encrypted_protector k)
  have "calls_within (1 + 0) (aead_seal D k b)"
    unfolding aead_seal_def by (intro calls_bind calls)
  with Encrypted_protector show ?thesis by simp
qed (simp add: calls)

lemma calls_write_protected: "calls_within 8 (write_protected D root p b)"
  unfolding write_protected_def
  using calls_bind [OF calls_seal calls_write_atomic] by simp

lemma calls_read_protected: "calls_within 1 (read_protected D root p)"
proof -
  have "calls_within (1 + (0 + 0)) (read_protected D root p)"
    unfolding read_protected_def by (intro calls_bind calls calls_read_file_opt)
  then show ?thesis by simp
qed

lemma calls_load_checked: "calls_within 1 (load_checked msg c check D root p)"
proof -
  have "calls_within (1 + (0 + (0 + 0))) (load_checked msg c check D root p)"
    unfolding load_checked_def by (intro calls_bind calls calls_read_protected)
  then show ?thesis by simp
qed

lemma calls_write_json: "calls_within 8 (write_json msg c D root p x)"
proof -
  have "calls_within (0 + 8) (write_json msg c D root p x)"
    unfolding write_json_def by (intro calls_bind calls calls_write_protected)
  then show ?thesis by simp
qed

lemma calls_fis_write: "calls_within 8 (fis_write_dto D st site x)"
  unfolding fis_write_dto_def by (rule calls_write_json)

lemma calls_fis_load: "calls_within 1 (fis_load_identity D st site)"
proof -
  have "calls_within (1 + 0) (fis_load_identity D st site)"
    unfolding fis_load_identity_def fis_load_dto_def
    by (intro calls_bind calls calls_load_checked)
  then show ?thesis by simp
qed

lemma calls_fis_apply: "calls_within 9 (fis_apply D st site i)"
proof -
  have "calls_within (1 + 8) (fis_apply D st site i)"
    by (cases i; simp only: fis_apply.simps fis_load_dto_def;
        intro calls_bind [of 1 _ 8] calls_load_checked calls calls_bind_lift
          calls_bind_pure [OF calls_fis_write] calls_fis_write)
  then show ?thesis by simp
qed

lemma calls_fhs_load: "calls_within 1 (fhs_load_history D st p)"
proof -
  have "calls_within (1 + (0 + 0)) (fhs_load_history D st p)"
    unfolding fhs_load_history_def fhs_load_dto_def
    by (intro calls_bind calls calls_load_checked)
  then show ?thesis by simp
qed

lemma calls_fhs_append: "calls_within 9 (fhs_append_record D st p r)"
proof -
  have "calls_within (1 + 8) (fhs_append_record D st p r)"
    unfolding fhs_append_record_def fhs_load_dto_def Let_def
    by (intro calls_bind calls_load_checked calls_write_json)
  then show ?thesis by simp
qed

section \<open>Opening and building\<close>

lemma calls_ensure_dirs: "calls_within 3 (ensure_dirs base)"
proof -
  have "calls_within (1 + (1 + (1 + 0))) (ensure_dirs base)"
    unfolding ensure_dirs_def act_for.simps Let_def by (intro calls_bind calls)
  then show ?thesis by (simp add: numeral_eq_Suc)
qed

lemma calls_meta: "calls_within 7 (write_meta D base m)" "calls_within 1 (read_meta D base)"
    "calls_within 1 (check_mode D base t)"
proof -
  have "calls_within (0 + 7) (write_meta D base m)"
    unfolding write_meta_def by (intro calls_bind calls calls_write_atomic)
  then show "calls_within 7 (write_meta D base m)" by simp
  have "calls_within (1 + (0 + 0)) (read_meta D base)"
    unfolding read_meta_def by (intro calls_bind calls calls_read_file_opt)
  then show r: "calls_within 1 (read_meta D base)" by simp
  have "calls_within (1 + 0) (check_mode D base t)"
    unfolding check_mode_def by (intro calls_bind calls r)
  then show "calls_within 1 (check_mode D base t)" by simp
qed

lemma calls_root_open: "calls_within 20 (root_open D fe base prot pass)"
proof (cases prot)
  case Integrity
  have k: "calls_within 1 generate_integrity_key"
    unfolding generate_integrity_key_def by (intro calls)
  have "calls_within (1 + (7 + (7 + 0))) (act_bind generate_integrity_key (\<lambda>k.
      act_bind (write_atomic D (key_path base) k) (\<lambda>_.
      act_bind (write_meta D base m) (\<lambda>_. act_return k))))" for m
    by (intro calls_bind calls calls_meta calls_write_atomic k)
  then have new: "calls_within 15 (act_bind generate_integrity_key (\<lambda>k.
      act_bind (write_atomic D (key_path base) k) (\<lambda>_.
      act_bind (write_meta D base m) (\<lambda>_. act_return k))))" for m by simp
  have "calls_within (3 + ((1 + 15) + (1 + 0))) (open_integrity D base)"
    unfolding open_integrity_def
    by (intro calls_bind calls_ensure_dirs calls_read_file_opt calls_option calls_none new calls_meta)
  with Integrity show ?thesis by simp
next
  case Encrypted
  have "calls_within (1 + (7 + 0)) (act_bind (act_map_err g (getrandom 16)) (\<lambda>salt.
      act_bind (write_meta D base (m salt)) (\<lambda>_. act_return salt)))" for m and g :: "ustring \<Rightarrow> StoreError"
    by (intro calls_bind calls calls_meta)
  then have new: "calls_within 8 (act_bind (act_map_err g (getrandom 16)) (\<lambda>salt.
      act_bind (write_meta D base (m salt)) (\<lambda>_. act_return salt)))" for m and g :: "ustring \<Rightarrow> StoreError"
    by simp
  have "calls_within (3 + ((1 + 8) + (0 + 0))) (open_encrypted D base p)" for p
    unfolding open_encrypted_def
    by (intro calls_bind calls_ensure_dirs calls_option calls_if calls_none new calls_bind_lift calls_meta)
  then have e: "calls_within 12 (open_encrypted D base p)" for p by simp
  have "calls_within 12 (act_bind (act_lift r) (\<lambda>p. open_encrypted D base p))" for r
    by (intro calls_bind_lift e)
  then have "calls_within 12 (root_open D fe base prot pass)"
    using Encrypted by (simp add: calls)
  then show ?thesis by (rule calls_mono) simp
qed

lemma calls_build: "calls_within 4 (build C D A mp onion cp store)"
proof -
  have cp: "calls_within 1 (case cp of
      Some p \<Rightarrow> act_bind (act_map_err g (fs_read p)) (\<lambda>b. act_return (Some b))
    | None \<Rightarrow> act_return None)" for g :: "io_error \<Rightarrow> failure"
  proof (cases cp)
    case (Some p)
    have "calls_within (1 + 0) (act_bind (act_map_err g (fs_read p)) (\<lambda>b. act_return (Some b)))"
      by (intro calls_bind calls)
    with Some show ?thesis by simp
  qed (simp add: calls)
  have "calls_within (1 + (1 + (0 + (0 + (1 + (0 + (1 + 0))))))) (build C D A mp onion cp store)"
    unfolding build_def
    by (intro calls_bind cp calls_map_err calls_none calls_fis_load calls_fhs_load
        calls_fs)
  then show ?thesis by (simp add: numeral_eq_Suc)
qed

section \<open>The window\<close>

lemma calls_app_persist: "calls_within 18 (app_persist D app i)"
proof -
  have "calls_within (9 + 0) (act_bind (fhs_append_record D st p r) (\<lambda>_. act_return ()))" for st p r
    by (intro calls_bind calls calls_fhs_append)
  then have a: "calls_within 9 (act_bind (fhs_append_record D st p r) (\<lambda>_. act_return ()))" for st p r
    by simp
  have "calls_within (9 + 9) (app_persist D app i)"
    unfolding app_persist_def by (intro calls_bind calls calls_fis_apply a)
  then show ?thesis by simp
qed

lemma calls_persist_and_reload:
  assumes "persist_and_reload D msg i app w = (app', msgs, w')"
  shows "w_tick w' \<le> w_tick w + 19"
proof -
  obtain r w1 where a: "app_persist D app i w = (r, w1)" by (cases "app_persist D app i w")
  obtain l where "fis_load_identity D (sh_identities (app_store app)) (ld_site (app_loaded app)) w1 = (l, w')"
    using assms a by (auto simp: persist_and_reload_def split: prod.splits)
  with calls_withinD [OF calls_app_persist a] calls_withinD [OF calls_fis_load] show ?thesis
    by fastforce
qed

lemma calls_app_new:
  assumes "app_new D pip_of l store w = (app, msgs, w')"
  shows "w_tick w' \<le> w_tick w + 19"
  using assms by (auto simp: app_new_def split: prod.splits dest: calls_persist_and_reload)

text \<open>A decision closes both prompts, and only an open prompt leads to one.\<close>

definition prompts_open :: "('pk, 'rk, 'ts, 'on, 'p, 'sh) App \<Rightarrow> bool" where
  "prompts_open app \<longleftrightarrow> app_pin_prompt app \<noteq> None \<or> app_mismatch_prompt app \<noteq> None"

lemma update_prompts:
  assumes "update D pip_of inp app w = (out, app', w')"
  shows "frame_decision inp app = None \<and> w' = w \<and> (prompts_open app' \<longrightarrow> prompts_open app) \<or>
    frame_decision inp app \<noteq> None \<and> prompts_open app \<and> \<not> prompts_open app' \<and>
      w_tick w' \<le> w_tick w + 19"
  using assms
proof (cases rule: update_run)
  case (decided d app1)
  obtain i l app2 msgs where "persist_and_reload D ''error: persisting trust decision: '' i
      (app\<lparr>app_loaded := l\<rparr>) w = (app2, msgs, w')"
    and app1: "app1 = app2\<lparr>app_pin_prompt := None, app_mismatch_prompt := None\<rparr>"
    using decided(2) by (auto simp: apply_and_persist_def split: prod.splits)
  with calls_persist_and_reload have "w_tick w' \<le> w_tick w + 19" by blast
  with frame_decision_prompt [OF decided(1)] decided(1,5,6) app1 show ?thesis
    by (simp add: prompts_open_def)
next
  case undecided
  then show ?thesis by (auto simp: prompts_open_def)
qed

lemma app_run_closed:
  "app_run D pip_of inps app w = (outs, app', w') \<Longrightarrow> \<not> prompts_open app \<Longrightarrow>
     w' = w \<and> \<not> prompts_open app'"
proof (induction inps arbitrary: app w outs)
  case (Cons inp inps)
  obtain out app1 w1 where u: "update D pip_of inp app w = (out, app1, w1)"
    by (cases "update D pip_of inp app w") auto
  with Cons.prems(1) obtain outs1 where "app_run D pip_of inps app1 w1 = (outs1, app', w')"
    by (auto split: prod.splits)
  with Cons.IH update_prompts [OF u] Cons.prems(2) show ?case by blast
qed simp

lemma calls_app_run:
  "app_run D pip_of inps app w = (outs, app', w') \<Longrightarrow> w_tick w' \<le> w_tick w + 19"
proof (induction inps arbitrary: app w outs)
  case (Cons inp inps)
  obtain out app1 w1 where u: "update D pip_of inp app w = (out, app1, w1)"
    by (cases "update D pip_of inp app w") auto
  with Cons.prems obtain outs1 where r: "app_run D pip_of inps app1 w1 = (outs1, app', w')"
    by (auto split: prod.splits)
  from update_prompts [OF u] Cons.IH [OF r] app_run_closed [OF r] show ?case by auto
qed simp

section \<open>A whole run\<close>

lemma calls_main: "w_tick (snd (main_prog C D A fe pd prompt win args w)) \<le> w_tick w + 62"
proof (cases "parse_cli pd args")
  case (Inr cli)
  define prot where "prot = (if cli_encrypted cli then Encrypted else Integrity)"
  show ?thesis
  proof (cases "if cli_encrypted cli then map_err (\<lambda>e. lit ''error: reading passphrase: '' @ e)
        (result_bind prompt (\<lambda>p. Inr (Some p))) else Inr None")
    case (Inl e)
    then show ?thesis by (simp add: main_prog_def Inr Let_def)
  next
    case pass: (Inr pass)
    obtain r w1 where o: "root_open D fe (cli_store_dir cli) prot pass w = (r, w1)"
      by (cases "root_open D fe (cli_store_dir cli) prot pass w")
    note m = main_prog_def Inr sum.case Let_def pass prot_def [symmetric] o prod.case
    have t1: "w_tick w1 \<le> w_tick w + 20" by (rule calls_withinD [OF calls_root_open o])
    show ?thesis
    proof (cases r)
      case (Inl e)
      with t1 show ?thesis by (simp add: m)
    next
      case root: (Inr root)
      obtain q w2 where b: "build C D A (cli_manifest cli) (cli_onion cli) (cli_content cli)
          (store_handle_open root) w1 = (q, w2)"
        by (cases "build C D A (cli_manifest cli) (cli_onion cli) (cli_content cli)
          (store_handle_open root) w1")
      have t2: "w_tick w2 \<le> w_tick w1 + 4" by (rule calls_withinD [OF calls_build b])
      show ?thesis
      proof (cases "\<exists>l inps result. q = Inr l \<and> win = Window inps result")
        case False
        then have "snd (main_prog C D A fe pd prompt win args w) = w2"
          by (auto simp: m root b split: sum.splits failure.splits window.splits)
        with t1 t2 show ?thesis by simp
      next
        case True
        then obtain l inps result where q: "q = Inr l" "win = Window inps result" by blast
        obtain app msgs w3 where n: "app_new D (derive_pip C) l (store_handle_open root) w2 =
            (app, msgs, w3)" by (cases "app_new D (derive_pip C) l (store_handle_open root) w2") auto
        obtain outs app' w4 where run: "app_run D (derive_pip C) inps app w3 = (outs, app', w4)"
          by (cases "app_run D (derive_pip C) inps app w3") auto
        have "snd (main_prog C D A fe pd prompt win args w) = w4" by (simp add: m root b q n run)
        with t1 t2 calls_app_new [OF n] calls_app_run [OF run] show ?thesis by simp
      qed
    qed
  qed
qed (simp add: main_prog_def)

end
