(* ===== verification/Store_Programs.thy ===== *)
theory Store_Programs
  imports File_Stores
begin

text \<open>
  The operations of the file stores once more, as programs whose system calls are visible:
  the state-passing definitions of \<open>Store_Root\<close> and \<open>File_Stores\<close> run an operation in one
  piece, while two windows over one store directory interleave call by call (nothing in
  \<open>crates/entangled-client-store\<close> locks the directory). A program is a result or a call
  with a continuation for each answer. Running a program alone gives the operation of the
  other theories back, for every operation (\<open>run_apply\<close>, \<open>run_load\<close>, \<open>run_history\<close>,
  \<open>run_append\<close>, \<open>run_open\<close>); what interleaved programs do is the subject of \<open>Concurrent\<close>.
\<close>

section \<open>Programs\<close>

datatype 'a prog =
    Ret 'a
  | Read path "io_error + bytes \<Rightarrow> 'a prog"
  | Create_dir_all path "io_error + unit \<Rightarrow> 'a prog"
  | Create_new path nat "io_error + unit \<Rightarrow> 'a prog"
  | Write_all path bytes "io_error + unit \<Rightarrow> 'a prog"
  | Sync_all path "io_error + unit \<Rightarrow> 'a prog"
  | Rename path path "io_error + unit \<Rightarrow> 'a prog"
  | Remove_file path "io_error + unit \<Rightarrow> 'a prog"
  | Getrandom nat "ustring + bytes \<Rightarrow> 'a prog"

text \<open>The next call of a program; a finished program stays as it is.\<close>

fun prog_step :: "'a prog \<Rightarrow> world \<Rightarrow> 'a prog \<times> world" where
  "prog_step (Ret a) w = (Ret a, w)"
| "prog_step (Read p k) w = (case fs_read p w of (r, w') \<Rightarrow> (k r, w'))"
| "prog_step (Create_dir_all p k) w = (case fs_create_dir_all p w of (r, w') \<Rightarrow> (k r, w'))"
| "prog_step (Create_new p m k) w = (case fs_create_new p m w of (r, w') \<Rightarrow> (k r, w'))"
| "prog_step (Write_all p b k) w = (case fs_write_all p b w of (r, w') \<Rightarrow> (k r, w'))"
| "prog_step (Sync_all p k) w = (case fs_sync_all p w of (r, w') \<Rightarrow> (k r, w'))"
| "prog_step (Rename a b k) w = (case fs_rename a b w of (r, w') \<Rightarrow> (k r, w'))"
| "prog_step (Remove_file p k) w = (case fs_remove_file p w of (r, w') \<Rightarrow> (k r, w'))"
| "prog_step (Getrandom n k) w = (case getrandom n w of (r, w') \<Rightarrow> (k r, w'))"

text \<open>Running a program alone to its end.\<close>

primrec run :: "'a prog \<Rightarrow> world \<Rightarrow> 'a \<times> world" where
  "run (Ret a) w = (a, w)"
| "run (Read p k) w = (case fs_read p w of (r, w') \<Rightarrow> run (k r) w')"
| "run (Create_dir_all p k) w = (case fs_create_dir_all p w of (r, w') \<Rightarrow> run (k r) w')"
| "run (Create_new p m k) w = (case fs_create_new p m w of (r, w') \<Rightarrow> run (k r) w')"
| "run (Write_all p b k) w = (case fs_write_all p b w of (r, w') \<Rightarrow> run (k r) w')"
| "run (Sync_all p k) w = (case fs_sync_all p w of (r, w') \<Rightarrow> run (k r) w')"
| "run (Rename a b k) w = (case fs_rename a b w of (r, w') \<Rightarrow> run (k r) w')"
| "run (Remove_file p k) w = (case fs_remove_file p w of (r, w') \<Rightarrow> run (k r) w')"
| "run (Getrandom n k) w = (case getrandom n w of (r, w') \<Rightarrow> run (k r) w')"

lemma run_step: "run (fst (prog_step m w)) (snd (prog_step m w)) = run m w"
  by (cases m) (simp_all split: prod.splits)

text \<open>Sequencing: \<open>m?\<close> followed by the rest, where an error ends the program.\<close>

primrec after :: "'a prog \<Rightarrow> ('a \<Rightarrow> 'b prog) \<Rightarrow> 'b prog" where
  "after (Ret a) f = f a"
| "after (Read p k) f = Read p (\<lambda>r. after (k r) f)"
| "after (Create_dir_all p k) f = Create_dir_all p (\<lambda>r. after (k r) f)"
| "after (Create_new p m k) f = Create_new p m (\<lambda>r. after (k r) f)"
| "after (Write_all p b k) f = Write_all p b (\<lambda>r. after (k r) f)"
| "after (Sync_all p k) f = Sync_all p (\<lambda>r. after (k r) f)"
| "after (Rename a b k) f = Rename a b (\<lambda>r. after (k r) f)"
| "after (Remove_file p k) f = Remove_file p (\<lambda>r. after (k r) f)"
| "after (Getrandom n k) f = Getrandom n (\<lambda>r. after (k r) f)"

definition p_bind :: "('e + 'a) prog \<Rightarrow> ('a \<Rightarrow> ('e + 'b) prog) \<Rightarrow> ('e + 'b) prog" where
  "p_bind m f = after m (\<lambda>r. case r of Inl e \<Rightarrow> Ret (Inl e) | Inr a \<Rightarrow> f a)"

definition p_map_err :: "('e \<Rightarrow> 'f) \<Rightarrow> ('e + 'a) prog \<Rightarrow> ('f + 'a) prog" where
  "p_map_err g m = after m (\<lambda>r. Ret (map_err g r))"

abbreviation p_lift :: "'e + 'a \<Rightarrow> ('e + 'a) prog" where
  "p_lift r \<equiv> Ret r"

abbreviation p_return :: "'a \<Rightarrow> ('e + 'a) prog" where
  "p_return a \<equiv> Ret (Inr a)"

abbreviation p_fail :: "'e \<Rightarrow> ('e + 'a) prog" where
  "p_fail e \<equiv> Ret (Inl e)"

lemma run_after: "run (after m f) w = (case run m w of (a, w') \<Rightarrow> run (f a) w')"
  by (induction m arbitrary: w) (simp_all split: prod.splits)

named_theorems runs \<open>what programs do when they run alone\<close>

lemma run_bind [runs]: "run (p_bind m f) = act_bind (run m) (\<lambda>a. run (f a))"
  by (rule ext) (auto simp: p_bind_def run_after act_bind_def split: prod.splits sum.splits)

lemma run_map_err [runs]: "run (p_map_err g m) = act_map_err g (run m)"
  by (rule ext) (simp add: p_map_err_def run_after act_map_err_def split: prod.splits)

lemma run_ret [runs]:
  "run (Ret r) = act_lift r" "act_lift (Inr a) = act_return a" "act_lift (Inl e) = act_fail e"
  by (simp_all add: fun_eq_iff act_return_def act_fail_def act_lift_def)

lemma run_call [runs]:
  "run (Read p Ret) = fs_read p" "run (Create_dir_all p Ret) = fs_create_dir_all p"
  "run (Create_new p m Ret) = fs_create_new p m" "run (Write_all p b Ret) = fs_write_all p b"
  "run (Sync_all p Ret) = fs_sync_all p" "run (Rename p q Ret) = fs_rename p q"
  "run (Remove_file p Ret) = fs_remove_file p" "run (Getrandom n Ret) = getrandom n"
  by (simp_all add: fun_eq_iff)

lemma run_case [runs]:
  "run (case x of None \<Rightarrow> m | Some y \<Rightarrow> f y) = (case x of None \<Rightarrow> run m | Some y \<Rightarrow> run (f y))"
  "run (if b then m else m') = (if b then run m else run m')"
  by (simp_all split: option.splits)

section \<open>Reading and writing\<close>

definition p_read_file_opt :: "path \<Rightarrow> (StoreError + bytes option) prog" where
  "p_read_file_opt p = Read p (\<lambda>r. Ret (case r of
       Inr bytes \<Rightarrow> Inr (Some bytes)
     | Inl NotFound \<Rightarrow> Inr None
     | Inl e \<Rightarrow> Inl (StoreError (lit ''read '' @ path_display p @ lit '': '' @ io_display e))))"

definition p_write_via_tmp :: "path \<Rightarrow> path \<Rightarrow> bytes \<Rightarrow> (StoreError + unit) prog" where
  "p_write_via_tmp tmp p data =
     p_bind (p_map_err (\<lambda>e. StoreError (lit ''create temp '' @ path_display tmp @ lit '': ''
         @ io_display e)) (Create_new tmp TMP_MODE Ret)) (\<lambda>_.
     p_bind (p_map_err (\<lambda>e. store_err ''write temp: '' (io_display e)) (Write_all tmp data Ret)) (\<lambda>_.
     p_bind (p_map_err (\<lambda>e. store_err ''sync temp: '' (io_display e)) (Sync_all tmp Ret)) (\<lambda>_.
     p_map_err (\<lambda>e. StoreError (lit ''rename into '' @ path_display p @ lit '': ''
         @ io_display e)) (Rename tmp p Ret))))"

definition p_write_atomic ::
  "'z protect_deps_scheme \<Rightarrow> path \<Rightarrow> bytes \<Rightarrow> (StoreError + unit) prog" where
  "p_write_atomic D p data =
     p_bind (p_lift (ok_or (StoreError (lit ''path has no parent: '' @ path_display p))
       (path_parent p))) (\<lambda>dir.
     p_bind (p_map_err (\<lambda>e. StoreError (lit ''create '' @ path_display dir @ lit '': ''
         @ io_display e)) (Create_dir_all dir Ret)) (\<lambda>_.
     p_bind (p_map_err (store_err ''rng: '') (Getrandom 8 Ret)) (\<lambda>nonce.
       let tmp = tmp_name D nonce p
       in after (p_write_via_tmp tmp p data) (\<lambda>result. case result of
            Inl e \<Rightarrow> Remove_file tmp (\<lambda>_. Ret (Inl e))
          | Inr u \<Rightarrow> Ret (Inr u)))))"

fun p_seal :: "'z protect_deps_scheme \<Rightarrow> Protector \<Rightarrow> bytes \<Rightarrow> (StoreError + bytes) prog" where
  "p_seal D (Integrity_protector k) payload =
     p_lift (result_bind (map_err (store_err ''hmac key: '') (hmac_tag D k payload)) (\<lambda>tag.
       map_err (store_err ''encode envelope: '')
         (to_vec (envelope_codec D)
           \<lparr>ie_v = ENVELOPE_V, ie_payload_b64 = b64_encode D payload,
            ie_mac_b64 = b64_encode D tag\<rparr>)))"
| "p_seal D (Encrypted_protector k) payload =
     p_bind (p_map_err (store_err ''rng: '') (Getrandom 24 Ret)) (\<lambda>nonce.
       p_lift (case aead_encrypt D k nonce payload of
         None \<Rightarrow> Inl (store_err ''encrypt failed'' [])
       | Some ct \<Rightarrow> map_err (store_err ''encode aead envelope: '')
           (to_vec (aead_codec D)
             \<lparr>ae_v = AEAD_V, ae_nonce_b64 = b64_encode D nonce, ae_ct_b64 = b64_encode D ct\<rparr>)))"

definition p_write_json ::
  "string \<Rightarrow> 'a codec \<Rightarrow> 'z protect_deps_scheme \<Rightarrow> StoreRoot \<Rightarrow> path \<Rightarrow> 'a \<Rightarrow>
   (StoreError + unit) prog" where
  "p_write_json msg c D root p dto =
     p_bind (p_lift (map_err (store_err msg) (to_vec c dto))) (\<lambda>payload.
     p_bind (p_seal D (root_protector root) payload) (\<lambda>sealed. p_write_atomic D p sealed))"

text \<open>What the bytes of a record's file say, or how they fail.\<close>

definition decode_file ::
  "string \<Rightarrow> 'a codec \<Rightarrow> ('a \<Rightarrow> StoreError + unit) \<Rightarrow> 'z protect_deps_scheme \<Rightarrow> StoreRoot \<Rightarrow>
   bytes \<Rightarrow> StoreError + 'a" where
  "decode_file msg c check D root on_disk =
     result_bind (open_sealed D (root_protector root) on_disk) (\<lambda>payload.
     result_bind (map_err (store_err msg) (from_slice c payload)) (\<lambda>dto.
     result_bind (check dto) (\<lambda>_. Inr dto)))"

definition p_load_checked ::
  "string \<Rightarrow> 'a codec \<Rightarrow> ('a \<Rightarrow> StoreError + unit) \<Rightarrow> 'z protect_deps_scheme \<Rightarrow> StoreRoot \<Rightarrow>
   path \<Rightarrow> (StoreError + 'a option) prog" where
  "p_load_checked msg c check D root p =
     p_bind (p_read_file_opt p) (\<lambda>x. p_lift (case x of
         None \<Rightarrow> Inr None
       | Some on_disk \<Rightarrow> result_bind (decode_file msg c check D root on_disk) (\<lambda>dto. Inr (Some dto))))"

lemma run_read_file_opt [runs]: "run (p_read_file_opt p) = read_file_opt p"
  by (rule ext) (simp add: p_read_file_opt_def read_file_opt_def split: prod.splits sum.splits io_error.splits)

lemma run_write_via_tmp [runs]: "run (p_write_via_tmp t p b) = write_via_tmp t p b"
  by (simp add: p_write_via_tmp_def write_via_tmp_def runs)

lemma run_write_atomic [runs]: "run (p_write_atomic D p b) = write_atomic D p b"
proof -
  have "run (after (p_write_via_tmp t p b) (\<lambda>result. case result of
            Inl e \<Rightarrow> Remove_file t (\<lambda>_. Ret (Inl e)) | Inr u \<Rightarrow> Ret (Inr u))) =
        (\<lambda>w. case write_via_tmp t p b w of (Inl e, w') \<Rightarrow> (Inl e, snd (fs_remove_file t w'))
                                       | (Inr u, w') \<Rightarrow> (Inr u, w'))" for t
    by (rule ext) (simp add: run_after run_write_via_tmp split: prod.splits sum.splits)
  then show ?thesis by (simp only: p_write_atomic_def write_atomic_def runs Let_def)
qed

lemma run_seal [runs]: "run (p_seal D p b) = seal D p b"
proof (cases p)
  case (Encrypted_protector k)
  show ?thesis
    unfolding Encrypted_protector p_seal.simps seal.simps aead_seal_def runs
    by (intro arg_cong2 [where f = act_bind] refl ext) (simp add: runs split: option.splits)
qed (simp add: runs)

lemma run_write_json [runs]: "run (p_write_json msg c D root p x) = write_json msg c D root p x"
  by (simp add: p_write_json_def write_json_def write_protected_def runs)

lemma run_load_checked [runs]:
  "run (p_load_checked msg c check D root p) = load_checked msg c check D root p"
  by (rule ext)
    (simp add: p_load_checked_def decode_file_def load_checked_def read_protected_def runs
      act_bind_def act_lift_def result_bind_def act_return_def
      split: prod.splits sum.splits option.splits)

section \<open>The operations of the stores\<close>

definition p_load_dto ::
  "('on, 'pk, 'ts, 'rk, 'z) store_deps_scheme \<Rightarrow> StoreRoot \<Rightarrow> 'on \<Rightarrow>
   (StoreError + 'pk IdentityDto option) prog" where
  "p_load_dto D root site =
     p_load_checked ''decode identity: '' (identity_codec D) identity_check_version D root
       (fis_path D (fis_new root) site)"

definition p_write_dto ::
  "('on, 'pk, 'ts, 'rk, 'z) store_deps_scheme \<Rightarrow> StoreRoot \<Rightarrow> 'on \<Rightarrow> 'pk IdentityDto \<Rightarrow>
   (StoreError + unit) prog" where
  "p_write_dto D root site dto =
     p_write_json ''encode identity: '' (identity_codec D) D root (fis_path D (fis_new root) site) dto"

definition p_load_identity ::
  "('on, 'pk, 'ts, 'rk, 'z) store_deps_scheme \<Rightarrow> StoreRoot \<Rightarrow> 'on \<Rightarrow>
   (StoreError + 'pk RetainedIdentity option) prog" where
  "p_load_identity D root site =
     p_bind (p_load_dto D root site) (\<lambda>x. p_lift (case x of
         None \<Rightarrow> Inr None
       | Some d \<Rightarrow> result_bind (to_identity d) (\<lambda>i. Inr (Some i))))"

text \<open>What \<open>apply\<close> writes, if anything, when it has read \<open>x\<close>.\<close>

fun apply_write ::
  "'pk PersistenceIntent \<Rightarrow> 'pk IdentityDto option \<Rightarrow> StoreError + 'pk IdentityDto option" where
  "apply_write None_intent x = Inr None"
| "apply_write (RecordObservation k) x =
     Inr (if x = None then Some (identity_dto_new \<lparr>pubkey = k, provenance = Observed\<rparr> []) else None)"
| "apply_write (PinIdentity k) x =
     (case x of
        None \<Rightarrow> Inr (Some (identity_dto_new \<lparr>pubkey = k, provenance = Pinned\<rparr> []))
      | Some d \<Rightarrow> result_bind (to_identity d) (\<lambda>existing. Inr
          (if provenance existing = Observed
           then Some (identity_dto_new \<lparr>pubkey = k, provenance = Pinned\<rparr> (id_replaced_pubkeys d))
           else None)))"
| "apply_write (MarkExternallyVerified k) x =
     Inr (Some (identity_dto_new \<lparr>pubkey = k, provenance = ExternallyVerified_prov\<rparr>
       (replaced_or_default x)))"
| "apply_write (ReplaceIdentity n old v) x =
     Inr (Some (identity_dto_new
       \<lparr>pubkey = n, provenance = if v then ExternallyVerified_prov else Pinned\<rparr>
       (old # replaced_or_default x)))"

definition p_apply ::
  "('on, 'pk, 'ts, 'rk, 'z) store_deps_scheme \<Rightarrow> StoreRoot \<Rightarrow> 'on \<Rightarrow> 'pk PersistenceIntent \<Rightarrow>
   (StoreError + unit) prog" where
  "p_apply D root site i =
     (if i = None_intent then p_return ()
      else p_bind (p_load_dto D root site) (\<lambda>x.
        p_bind (p_lift (apply_write i x)) (\<lambda>out. case out of
          None \<Rightarrow> p_return ()
        | Some dto \<Rightarrow> p_write_dto D root site dto)))"

definition p_load_history ::
  "('on, 'pk, 'ts, 'rk, 'z) store_deps_scheme \<Rightarrow> StoreRoot \<Rightarrow> 'pk \<Rightarrow>
   (StoreError + ('ts, 'rk) PublisherHistory) prog" where
  "p_load_history D root publisher =
     p_bind (p_load_checked ''decode history: '' (history_codec D) history_check_version D root
       (fhs_path D (fhs_new root) publisher)) (\<lambda>x. p_lift (case x of
         None \<Rightarrow> Inr ph_new
       | Some dto \<Rightarrow> result_bind (into_records D (hd_records dto))
           (\<lambda>rs. Inr (from_records_newest_first rs))))"

definition p_append_record ::
  "('on, 'pk, 'ts, 'rk, 'z) store_deps_scheme \<Rightarrow> StoreRoot \<Rightarrow> 'pk \<Rightarrow>
   ('ts, 'rk) RetainedManifestRecord \<Rightarrow> (StoreError + unit) prog" where
  "p_append_record D root publisher record =
     p_bind (p_load_checked ''decode history: '' (history_codec D) history_check_version D root
       (fhs_path D (fhs_new root) publisher)) (\<lambda>x.
       p_write_json ''encode history: '' (history_codec D) D root (fhs_path D (fhs_new root) publisher)
         \<lparr>hd_v = HISTORY_V,
          hd_records = from_record D record # (case x of None \<Rightarrow> [] | Some d \<Rightarrow> hd_records d)\<rparr>)"

lemma run_load_dto [runs]: "run (p_load_dto D root site) = fis_load_dto D (fis_new root) site"
  by (simp add: p_load_dto_def fis_load_dto_def runs fis_new_def)

lemma run_write_dto [runs]:
  "run (p_write_dto D root site dto) = fis_write_dto D (fis_new root) site dto"
  by (simp add: p_write_dto_def fis_write_dto_def runs fis_new_def)

lemma run_load: "run (p_load_identity D root site) = fis_load_identity D (fis_new root) site"
  unfolding p_load_identity_def fis_load_identity_def runs
  by (intro arg_cong2 [where f = act_bind] refl ext)
    (simp add: act_lift_def act_return_def split: option.splits)

lemma act_bind_unit: "act_bind m (\<lambda>_. act_return ()) = (m :: ('w, 'e, unit) action)"
  by (rule ext) (simp add: act_bind_def act_return_def split: prod.splits sum.splits)

lemma run_apply: "run (p_apply D root site i) = fis_apply D (fis_new root) site i"
proof (cases "i = None_intent")
  case False
  have "run (p_apply D root site i) = act_bind (fis_load_dto D (fis_new root) site) (\<lambda>x.
      act_bind (act_lift (apply_write i x)) (\<lambda>out. case out of None \<Rightarrow> act_return ()
        | Some dto \<Rightarrow> fis_write_dto D (fis_new root) site dto))"
    unfolding p_apply_def if_not_P [OF False] runs by (rule refl)
  also have "\<dots> = fis_apply D (fis_new root) site i"
    using False
    by (cases i; simp only: fis_apply.simps apply_write.simps act_bind_unit;
        intro arg_cong2 [where f = act_bind] refl ext)
      (auto simp: act_bind_def act_lift_def act_return_def result_bind_def
        split: option.splits sum.splits)
  finally show ?thesis .
qed (simp add: p_apply_def runs)

lemma run_history: "run (p_load_history D root p) = fhs_load_history D (fhs_new root) p"
  unfolding p_load_history_def fhs_load_history_def fhs_load_dto_def runs fhs_new_def
    FileHistoryStore.select_convs
  by (intro arg_cong2 [where f = act_bind] refl ext)
    (simp add: act_lift_def act_return_def act_bind_def result_bind_def
      split: option.splits sum.splits)

lemma run_append:
  "run (p_append_record D root p r) = fhs_append_record D (fhs_new root) p r"
  by (simp add: p_append_record_def fhs_append_record_def fhs_load_dto_def runs fhs_new_def Let_def)

section \<open>Opening in Integrity mode\<close>

fun p_for :: "'a list \<Rightarrow> ('a \<Rightarrow> ('e + unit) prog) \<Rightarrow> ('e + unit) prog" where
  "p_for [] f = p_return ()"
| "p_for (x # xs) f = p_bind (f x) (\<lambda>_. p_for xs f)"

definition p_ensure_dirs :: "path \<Rightarrow> (StoreError + unit) prog" where
  "p_ensure_dirs base =
     p_for [lit '''', lit ''identities'', lit ''history''] (\<lambda>sub.
       let dir = (if sub = [] then base else path_join base sub)
       in p_map_err (\<lambda>e. StoreError (lit ''create '' @ path_display dir @ lit '': ''
            @ io_display e)) (Create_dir_all dir Ret))"

definition p_write_meta ::
  "'z root_deps_scheme \<Rightarrow> path \<Rightarrow> StoreMeta \<Rightarrow> (StoreError + unit) prog" where
  "p_write_meta D base meta =
     p_bind (p_lift (map_err (store_err ''encode meta: '') (to_vec (meta_codec D) meta)))
       (\<lambda>bytes. p_write_atomic D (meta_path base) bytes)"

definition p_check_mode ::
  "'z root_deps_scheme \<Rightarrow> path \<Rightarrow> ProtectionTag \<Rightarrow> (StoreError + unit) prog" where
  "p_check_mode D base expected =
     p_bind (p_read_file_opt (meta_path base)) (\<lambda>x. p_lift (case x of
         None \<Rightarrow> Inr ()
       | Some bytes \<Rightarrow> result_bind (map_err (store_err ''decode meta: '') (from_slice (meta_codec D) bytes))
           (\<lambda>meta. if meta_protection meta \<noteq> expected then Inl mode_error else Inr ())))"

text \<open>The key a first opening makes, and the opening that does or does not find one.\<close>

definition p_make_key :: "'z root_deps_scheme \<Rightarrow> path \<Rightarrow> (StoreError + bytes) prog" where
  "p_make_key D base =
     p_bind (p_map_err (store_err ''rng: '') (Getrandom 32 Ret)) (\<lambda>k.
     p_bind (p_write_atomic D (key_path base) k) (\<lambda>_.
     p_bind (p_write_meta D base \<lparr>meta_v = META_V, meta_protection = Integrity_tag,
                                  meta_salt_b64 = None\<rparr>) (\<lambda>_.
     p_return k)))"

definition p_open_with ::
  "'z root_deps_scheme \<Rightarrow> path \<Rightarrow> bytes option \<Rightarrow> (StoreError + StoreRoot) prog" where
  "p_open_with D base found =
     p_bind (case found of Some bytes \<Rightarrow> p_return bytes | None \<Rightarrow> p_make_key D base) (\<lambda>k.
     p_bind (p_check_mode D base Integrity_tag) (\<lambda>_.
     p_return \<lparr>root_base = base, root_protector = Integrity_protector k\<rparr>))"

definition p_open_integrity :: "'z root_deps_scheme \<Rightarrow> path \<Rightarrow> (StoreError + StoreRoot) prog" where
  "p_open_integrity D base =
     p_bind (p_ensure_dirs base) (\<lambda>_.
     p_bind (p_read_file_opt (key_path base)) (p_open_with D base))"

lemma run_for [runs]: "run (p_for xs f) = act_for xs (\<lambda>x. run (f x))"
  by (induction xs) (simp_all add: runs)

lemma run_ensure_dirs [runs]: "run (p_ensure_dirs base) = ensure_dirs base"
  by (simp only: p_ensure_dirs_def ensure_dirs_def runs Let_def)

lemma run_write_meta [runs]: "run (p_write_meta D base m) = write_meta D base m"
  by (simp add: p_write_meta_def write_meta_def runs)

lemma run_check_mode [runs]: "run (p_check_mode D base t) = check_mode D base t"
  by (rule ext)
    (simp add: p_check_mode_def check_mode_def read_meta_def runs act_bind_def act_lift_def
      result_bind_def act_return_def act_fail_def
      split: prod.splits sum.splits option.splits if_splits)

lemma act_bind_assoc:
  "act_bind (act_bind m f) g = act_bind m (\<lambda>a. act_bind (f a) g)"
  by (rule ext) (auto simp: act_bind_def split: prod.splits sum.splits)

lemma run_open: "run (p_open_integrity D base) = open_integrity D base"
  unfolding p_open_integrity_def open_integrity_def p_open_with_def p_make_key_def
    generate_integrity_key_def act_bind_assoc runs
  by (intro arg_cong2 [where f = act_bind] refl ext)

section \<open>Opening in Encrypted mode\<close>

definition p_read_meta :: "'z root_deps_scheme \<Rightarrow> path \<Rightarrow> (StoreError + StoreMeta option) prog" where
  "p_read_meta D base =
     p_bind (p_read_file_opt (meta_path base)) (\<lambda>x. p_lift (case x of
         None \<Rightarrow> Inr None
       | Some bytes \<Rightarrow> result_bind (map_err (store_err ''decode meta: '') (from_slice (meta_codec D) bytes))
           (\<lambda>meta. Inr (Some meta))))"

text \<open>The salt of the metadata that were found, and the one a first opening makes.\<close>

definition found_salt :: "'z root_deps_scheme \<Rightarrow> StoreMeta \<Rightarrow> StoreError + bytes" where
  "found_salt D meta =
     (if meta_protection meta \<noteq> Encrypted_tag then Inl mode_error
      else result_bind (ok_or (StoreError (lit ''encrypted store missing salt'')) (meta_salt_b64 meta))
        (\<lambda>s. map_err (store_err ''salt base64: '') (b64_decode D s)))"

definition p_make_salt :: "'z root_deps_scheme \<Rightarrow> path \<Rightarrow> (StoreError + bytes) prog" where
  "p_make_salt D base =
     p_bind (p_map_err (store_err ''rng: '') (Getrandom 16 Ret)) (\<lambda>salt.
     p_bind (p_write_meta D base \<lparr>meta_v = META_V, meta_protection = Encrypted_tag,
                                  meta_salt_b64 = Some (b64_encode D salt)\<rparr>) (\<lambda>_.
     p_return salt))"

definition p_open_salted ::
  "'z root_deps_scheme \<Rightarrow> path \<Rightarrow> ustring \<Rightarrow> StoreMeta option \<Rightarrow> (StoreError + StoreRoot) prog" where
  "p_open_salted D base passphrase found =
     p_bind (case found of Some meta \<Rightarrow> p_lift (found_salt D meta) | None \<Rightarrow> p_make_salt D base) (\<lambda>salt.
     p_bind (p_lift (derive_key D passphrase salt)) (\<lambda>k.
     p_return \<lparr>root_base = base, root_protector = Encrypted_protector k\<rparr>))"

definition p_open_encrypted ::
  "'z root_deps_scheme \<Rightarrow> path \<Rightarrow> ustring \<Rightarrow> (StoreError + StoreRoot) prog" where
  "p_open_encrypted D base passphrase =
     p_bind (p_ensure_dirs base) (\<lambda>_.
     p_bind (p_read_meta D base) (p_open_salted D base passphrase))"

lemma run_read_meta [runs]: "run (p_read_meta D base) = read_meta D base"
  by (rule ext)
    (simp add: p_read_meta_def read_meta_def runs act_bind_def act_lift_def result_bind_def
      act_return_def split: prod.splits sum.splits option.splits)

lemma act_lift_found_salt:
  "act_lift (found_salt D meta) =
     (if meta_protection meta \<noteq> Encrypted_tag then act_fail mode_error
      else act_bind (act_lift (ok_or (StoreError (lit ''encrypted store missing salt''))
             (meta_salt_b64 meta))) (\<lambda>s.
           act_lift (map_err (store_err ''salt base64: '') (b64_decode D s))))"
  by (rule ext)
    (simp add: found_salt_def act_lift_def act_bind_def act_fail_def result_bind_def split: sum.split)

lemma run_open_salted:
  "run (p_open_salted D base passphrase found) =
     act_bind (case found of Some meta \<Rightarrow> act_lift (found_salt D meta) | None \<Rightarrow> run (p_make_salt D base)) (\<lambda>salt.
     act_bind (act_lift (derive_key D passphrase salt)) (\<lambda>k.
     act_return \<lparr>root_base = base, root_protector = Encrypted_protector k\<rparr>))"
  unfolding p_open_salted_def runs by (rule refl)

lemma run_make_salt:
  "run (p_make_salt D base) = act_bind (act_map_err (store_err ''rng: '') (getrandom 16)) (\<lambda>salt.
     act_bind (write_meta D base \<lparr>meta_v = META_V, meta_protection = Encrypted_tag,
       meta_salt_b64 = Some (b64_encode D salt)\<rparr>) (\<lambda>_. act_return salt))"
  unfolding p_make_salt_def runs by (rule refl)

lemma run_open_encrypted: "run (p_open_encrypted D base passphrase) = open_encrypted D base passphrase"
  unfolding p_open_encrypted_def open_encrypted_def act_bind_assoc runs run_open_salted
  by (intro arg_cong2 [where f = act_bind] refl ext)
    (simp add: act_lift_found_salt run_make_salt split: option.split)

end
