(* ===== verification/Interference.thy ===== *)
theory Interference
  imports Store_Programs
begin

text \<open>
  Programs under interference. A schedule says which process makes the next call; a process
  that is never scheduled again has crashed, and calls may fail as everywhere.
  \<open>wp D Q m \<Phi> T own\<close> says that, as long as nobody else touches the temporary files \<open>T\<close> of the
  program and every other file \<open>p\<close> always holds bytes allowed by \<open>Q p\<close>, the program keeps to
  the same rules and ends in \<open>\<Phi>\<close>; \<open>system_exec\<close> puts any number of such programs together,
  for every schedule, as long as the nonces drawn differ.
\<close>

section \<open>Schedules\<close>

fun exec :: "nat list \<Rightarrow> 'a prog list \<Rightarrow> world \<Rightarrow> 'a prog list \<times> world" where
  "exec [] ps w = (ps, w)"
| "exec (i # sched) ps w =
     (if i < length ps
      then case prog_step (ps ! i) w of (m, w') \<Rightarrow> exec sched (ps[i := m]) w'
      else exec sched ps w)"

lemma exec_append:
  "exec (s @ t) ps w = (case exec s ps w of (ps', w') \<Rightarrow> exec t ps' w')"
  by (induction s ps w rule: exec.induct) (simp_all split: prod.splits)

text \<open>A process that is scheduled until it has finished does what it does alone.\<close>

primrec run_calls :: "nat \<Rightarrow> 'a prog \<Rightarrow> world \<Rightarrow> 'a prog \<times> world" where
  "run_calls 0 m w = (m, w)"
| "run_calls (Suc n) m w = (case prog_step m w of (m', w') \<Rightarrow> run_calls n m' w')"

lemma one_more_call:
  assumes "prog_step m w = (m', w')" and "\<exists>n. run_calls n m' w' = r"
  shows "\<exists>n. run_calls n m w = r"
proof -
  from assms obtain n where "run_calls (Suc n) m w = r" by auto
  then show ?thesis by blast
qed

lemma calls_to_end: "\<exists>n. run_calls n m w = (Ret (fst (run m w)), snd (run m w))"
proof (induction m arbitrary: w)
  case (Ret a)
  show ?case by (rule exI [of _ 0]) simp
qed (rule one_more_call [OF prod.collapse [symmetric]], simp split: prod.split)+

lemma exec_replicate:
  "i < length ps \<Longrightarrow> exec (replicate n i) ps w =
     (case run_calls n (ps ! i) w of (m, w') \<Rightarrow> (ps[i := m], w'))"
  by (induction n arbitrary: ps w) (simp_all split: prod.splits)

lemma exec_to_end:
  assumes "i < length ps"
  shows "\<exists>n. exec (replicate n i) ps w = (ps[i := Ret (fst (run (ps ! i) w))], snd (run (ps ! i) w))"
proof -
  obtain n where "run_calls n (ps ! i) w = (Ret (fst (run (ps ! i) w)), snd (run (ps ! i) w))"
    using calls_to_end by blast
  with exec_replicate [OF assms, of n w] show ?thesis by auto
qed

section \<open>A program under interference\<close>

text \<open>The names a temporary file can have when its nonce is \<open>x\<close>.\<close>

definition nonce_names :: "'z protect_deps_scheme \<Rightarrow> bytes \<Rightarrow> path set" where
  "nonce_names D x = {tmp_name D x p |p. p \<noteq> [] \<and> last p \<noteq> []}"

primrec wp ::
  "'z protect_deps_scheme \<Rightarrow> (path \<Rightarrow> bytes \<Rightarrow> bool) \<Rightarrow> 'a prog \<Rightarrow>
   ('a \<Rightarrow> path set \<Rightarrow> (path \<Rightarrow> bytes option) \<Rightarrow> bool) \<Rightarrow> path set \<Rightarrow> (path \<Rightarrow> bytes option) \<Rightarrow> bool" where
  "wp D Q (Ret a) \<Phi> T own = \<Phi> a T own"
| "wp D Q (Read p k) \<Phi> T own =
     (not_tmp p \<and> (\<forall>b. Q p b \<longrightarrow> wp D Q (k (Inr b)) \<Phi> T own) \<and> (\<forall>e. wp D Q (k (Inl e)) \<Phi> T own))"
| "wp D Q (Create_dir_all p k) \<Phi> T own = (\<forall>r. wp D Q (k r) \<Phi> T own)"
| "wp D Q (Create_new p m k) \<Phi> T own =
     (p \<in> T \<and> wp D Q (k (Inr ())) \<Phi> T (own(p \<mapsto> [])) \<and> (\<forall>e. wp D Q (k (Inl e)) \<Phi> T own))"
| "wp D Q (Write_all p b k) \<Phi> T own =
     (\<exists>x. p \<in> T \<and> own p = Some x \<and> wp D Q (k (Inr ())) \<Phi> T (own(p \<mapsto> x @ b)) \<and>
        (\<forall>e n. wp D Q (k (Inl e)) \<Phi> T (own(p \<mapsto> x @ take n b))))"
| "wp D Q (Sync_all p k) \<Phi> T own = (\<forall>r. wp D Q (k r) \<Phi> T own)"
| "wp D Q (Rename a b k) \<Phi> T own =
     (\<exists>x. a \<in> T \<and> own a = Some x \<and> not_tmp b \<and> Q b x \<and>
        wp D Q (k (Inr ())) \<Phi> T (own(a := None)) \<and> (\<forall>e. wp D Q (k (Inl e)) \<Phi> T own))"
| "wp D Q (Remove_file p k) \<Phi> T own = (p \<in> T \<and> (\<forall>r. wp D Q (k r) \<Phi> T (own(p := None))))"
| "wp D Q (Getrandom n k) \<Phi> T own =
     ((\<forall>e. wp D Q (k (Inl e)) \<Phi> T own) \<and>
      (\<forall>x. wp D Q (k (Inr x)) \<Phi> (if n = 8 then T \<union> nonce_names D x else T) own))"

lemma wp_after: "wp D Q (after m f) \<Phi> T own = wp D Q m (\<lambda>a. wp D Q (f a) \<Phi>) T own"
  by (induction m arbitrary: T own) simp_all

lemma wp_mono:
  "wp D Q m \<Phi> T own \<Longrightarrow> (\<And>a T own. \<Phi> a T own \<Longrightarrow> \<Psi> a T own) \<Longrightarrow> wp D Q m \<Psi> T own"
proof (induction m arbitrary: T own)
  case (Write_all p b k)
  then show ?case by simp blast
next
  case (Rename a b k)
  then show ?case by simp blast
qed auto

text \<open>What holds of the result, whatever the temporary files.\<close>

definition upholds ::
  "'z protect_deps_scheme \<Rightarrow> (path \<Rightarrow> bytes \<Rightarrow> bool) \<Rightarrow> 'a prog \<Rightarrow> ('a \<Rightarrow> bool) \<Rightarrow> bool" where
  "upholds D Q m P \<longleftrightarrow> (\<forall>T own. wp D Q m (\<lambda>a _ _. P a) T own)"

named_theorems uphold \<open>programs that keep to the rules\<close>

lemma upholds_Ret [uphold]: "P a \<Longrightarrow> upholds D Q (Ret a) P"
  by (simp add: upholds_def)

lemma upholds_after:
  assumes "upholds D Q m P" and "\<And>a. P a \<Longrightarrow> upholds D Q (f a) R"
  shows "upholds D Q (after m f) R"
  unfolding upholds_def wp_after
proof (intro allI)
  fix T own
  have "wp D Q m (\<lambda>a _ _. P a) T own" using assms(1) by (simp add: upholds_def)
  then show "wp D Q m (\<lambda>a. wp D Q (f a) (\<lambda>a _ _. R a)) T own"
    by (rule wp_mono) (use assms(2) in \<open>simp add: upholds_def\<close>)
qed

lemma upholds_weaken: "upholds D Q m P \<Longrightarrow> (\<And>a. P a \<Longrightarrow> R a) \<Longrightarrow> upholds D Q m R"
  unfolding upholds_def by (meson wp_mono)

text \<open>After an error nothing follows, and errors are always possible results.\<close>

definition ok_with :: "('a \<Rightarrow> bool) \<Rightarrow> 'e + 'a \<Rightarrow> bool" where
  "ok_with P r \<longleftrightarrow> (case r of Inl _ \<Rightarrow> True | Inr a \<Rightarrow> P a)"

lemma ok_with_simps [simp]: "ok_with P (Inl e)" "ok_with P (Inr a) \<longleftrightarrow> P a"
  by (simp_all add: ok_with_def)

lemma upholds_bind:
  fixes m :: "('e + 'a) prog"
  assumes "upholds D Q m (ok_with P)" and "\<And>a. P a \<Longrightarrow> upholds D Q (f a) (ok_with R)"
  shows "upholds D Q (p_bind m f) (ok_with R)"
  unfolding p_bind_def
proof (rule upholds_after [OF assms(1)])
  fix r :: "'e + 'a" assume "ok_with P r"
  with assms(2) show "upholds D Q (case r of Inl e \<Rightarrow> Ret (Inl e) | Inr a \<Rightarrow> f a) (ok_with R)"
    by (cases r) (simp_all add: uphold)
qed

section \<open>The rules for reading and writing\<close>

lemma upholds_read_file_opt:
  "not_tmp p \<Longrightarrow> upholds D Q (p_read_file_opt p) (ok_with (\<lambda>x. \<forall>b. x = Some b \<longrightarrow> Q p b))"
  by (auto simp: upholds_def p_read_file_opt_def split: io_error.splits)

lemma wp_write_via_tmp:
  assumes "t \<in> T" and "not_tmp p" and "Q p b"
  shows "wp D Q (p_write_via_tmp t p b) (\<lambda>_ T' _. t \<in> T') T own"
  using assms
  by (simp add: p_write_via_tmp_def p_bind_def p_map_err_def wp_after map_err_def split: sum.splits)

lemma upholds_write_atomic:
  assumes "p \<noteq> []" "last p \<noteq> []" "not_tmp p" and "Q p b"
  shows "upholds D Q (p_write_atomic D p b) (\<lambda>_. True)"
proof -
  have tmp: "wp D Q (p_write_via_tmp t p b) (\<lambda>a. wp D Q (case a of
      Inl e \<Rightarrow> Remove_file t (\<lambda>_. Ret (Inl e)) | Inr u \<Rightarrow> Ret (Inr ())) (\<lambda>_ _ _. True)) T own"
    if "t \<in> T" for t T own
    by (rule wp_mono [OF wp_write_via_tmp [of t T p Q b, OF that assms(3,4)]]) (simp split: sum.splits)
  have "tmp_name D x p \<in> T \<union> nonce_names D x" for x T
    using assms(1,2) by (auto simp: nonce_names_def)
  with assms(1) show ?thesis
    by (auto simp: upholds_def p_write_atomic_def p_bind_def p_map_err_def wp_after path_parent_def
        Let_def tmp split: sum.splits)
qed

lemma upholds_seal:
  assumes "protect_deps_ok D"
  shows "upholds D Q (p_seal D pr b) (ok_with (\<lambda>s. open_sealed D pr s = Inr b))"
proof (cases pr)
  case (Integrity_protector k)
  let ?r = "result_bind (map_err (store_err ''hmac key: '') (hmac_tag D k b)) (\<lambda>tag.
       map_err (store_err ''encode envelope: '')
         (to_vec (envelope_codec D)
           \<lparr>ie_v = ENVELOPE_V, ie_payload_b64 = b64_encode D b,
            ie_mac_b64 = b64_encode D tag\<rparr>))"
  have "ok_with (\<lambda>s. open_sealed D pr s = Inr b) ?r"
  proof (cases ?r)
    case (Inr s)
    have "seal D pr b w = (?r, w)" for w by (simp add: Integrity_protector)
    with Inr seal_open [OF assms, of pr b] show ?thesis by (simp add: Inr)
  qed simp
  then show ?thesis by (simp add: Integrity_protector uphold)
next
  case (Encrypted_protector k)
  have "ok_with (\<lambda>s. open_sealed D pr s = Inr b) (case aead_encrypt D k x b of
         None \<Rightarrow> Inl (store_err ''encrypt failed'' [])
       | Some ct \<Rightarrow> map_err (store_err ''encode aead envelope: '')
           (to_vec (aead_codec D)
             \<lparr>ae_v = AEAD_V, ae_nonce_b64 = b64_encode D x, ae_ct_b64 = b64_encode D ct\<rparr>))"
    (is "ok_with _ ?r") for x
  proof (cases ?r)
    case (Inr s)
    let ?w = "\<lparr>w_env = \<lparr>os_fault = \<lambda>_. None, os_partial = \<lambda>_. 0, os_random = \<lambda>_ _. Inr x\<rparr>,
        w_files = \<lambda>_. None, w_dirs = {}, w_tick = 0\<rparr>"
    have "fst (seal D pr b ?w) = Inr s"
      using Inr by (simp add: Encrypted_protector aead_seal_def act_bind_def getrandom_def
          act_map_err_def split: option.splits)
    then have "seal D pr b ?w = (Inr s, snd (seal D pr b ?w))" by (metis prod.collapse)
    with seal_open [OF assms] Inr show ?thesis by simp
  qed simp
  then show ?thesis
    by (simp add: Encrypted_protector upholds_def p_bind_def p_map_err_def wp_after)
qed

lemma upholds_write_json:
  assumes D: "protect_deps_ok D" "codec_ok c" and p: "p \<noteq> []" "last p \<noteq> []" "not_tmp p"
    and c: "check dto = Inr ()"
    and Q: "\<And>b. decode_file msg c check D root b = Inr dto \<Longrightarrow> Q p b"
  shows "upholds D Q (p_write_json msg' c D root p dto) (ok_with (\<lambda>_. True))"
  unfolding p_write_json_def
proof (rule upholds_bind)
  show "upholds D Q (p_lift (map_err (store_err msg') (to_vec c dto)))
      (ok_with (\<lambda>x. from_slice c x = Inr dto))"
    by (rule uphold) (cases "to_vec c dto"; simp add: codec_okD [OF D(2)])
  fix x assume x: "from_slice c x = Inr dto"
  show "upholds D Q (p_bind (p_seal D (root_protector root) x) (p_write_atomic D p)) (ok_with (\<lambda>_. True))"
  proof (rule upholds_bind [OF upholds_seal [OF D(1)]])
    fix s assume "open_sealed D (root_protector root) s = Inr x"
    with x c have "Q p s" by (intro Q) (simp add: decode_file_def)
    then show "upholds D Q (p_write_atomic D p s) (ok_with (\<lambda>_. True))"
      by (rule upholds_weaken [OF upholds_write_atomic [OF p]]) (simp add: ok_with_def split: sum.splits)
  qed
qed

lemma upholds_load_checked:
  assumes "not_tmp p" and "\<And>b. Q p b \<Longrightarrow> \<exists>d. decode_file msg c check D root b = Inr d \<and> P d"
  shows "upholds D Q (p_load_checked msg c check D root p) (ok_with (\<lambda>x. \<forall>d. x = Some d \<longrightarrow> P d))"
  unfolding p_load_checked_def
proof (rule upholds_bind [OF upholds_read_file_opt [OF assms(1)]], rule uphold)
  fix x assume "\<forall>b. x = Some b \<longrightarrow> Q p b"
  with assms(2) show "ok_with (\<lambda>x. \<forall>d. x = Some d \<longrightarrow> P d) (case x of None \<Rightarrow> Inr None
      | Some b \<Rightarrow> result_bind (decode_file msg c check D root b) (\<lambda>dto. Inr (Some dto)))"
    by (cases x) fastforce+
qed

section \<open>The system\<close>

text \<open>
  The guarantee of one call: it keeps the rules for the files that are not temporary, touches
  only its own temporary files, and takes new names only from the nonce it draws.
\<close>

definition files_ok :: "(path \<Rightarrow> bytes \<Rightarrow> bool) \<Rightarrow> world \<Rightarrow> bool" where
  "files_ok Q w \<longleftrightarrow> (\<forall>p f. not_tmp p \<longrightarrow> w_files w p = Some f \<longrightarrow> Q p (contents f))"

definition owns :: "path set \<Rightarrow> (path \<Rightarrow> bytes option) \<Rightarrow> world \<Rightarrow> bool" where
  "owns T own w \<longleftrightarrow>
     (\<forall>p b. own p = Some b \<longrightarrow> p \<in> T \<and> (\<exists>f. w_files w p = Some f \<and> contents f = b))"

definition names_at :: "'z protect_deps_scheme \<Rightarrow> os_env \<Rightarrow> nat \<Rightarrow> path set" where
  "names_at D env t = (case os_random env t 8 of Inl _ \<Rightarrow> {} | Inr x \<Rightarrow> nonce_names D x)"

lemma nonce_names_tmp:
  assumes "protect_deps_ok D" and "p \<in> nonce_names D x"
  shows "path_extension p = Some (lit ''tmp-'' @ hex_encode D x)" and "\<not> not_tmp p"
proof -
  from assms(2) obtain q where q: "q \<noteq> []" "last q \<noteq> []" "p = tmp_name D x q"
    by (auto simp: nonce_names_def)
  have "46 \<notin> set (lit ''tmp-'' @ hex_encode D x)"
    using protect_deps_okD(2) [OF assms(1)] by (simp add: lit_def)
  from with_extension_extension [OF this q(1,2)] q(3)
  show e: "path_extension p = Some (lit ''tmp-'' @ hex_encode D x)" by (simp add: tmp_name_def)
  then show "\<not> not_tmp p" by (auto simp: not_tmp_def)
qed

lemma nonce_names_disjoint:
  assumes "protect_deps_ok D" and "x \<noteq> y"
  shows "nonce_names D x \<inter> nonce_names D y = {}"
proof -
  have "hex_encode D x \<noteq> hex_encode D y"
    using assms(2) protect_deps_okD(1) [OF assms(1)] by (metis sum.inject(2))
  then have "p \<notin> nonce_names D y" if "p \<in> nonce_names D x" for p
    using nonce_names_tmp(1) [OF assms(1) that] nonce_names_tmp(1) [OF assms(1), of p y] by auto
  then show ?thesis by blast
qed

lemma syscall_cases:
  assumes "syscall body w = (r, w')"
  obtains e where "r = Inl (IoError e)" "w' = w\<lparr>w_tick := Suc (w_tick w)\<rparr>"
    | "body (w\<lparr>w_tick := Suc (w_tick w)\<rparr>) = (r, w')"
  using assms by (auto simp: syscall_def Let_def split: option.splits)

lemma call_files:
  "fs_read p w = (r1, w') \<Longrightarrow> w_files w' = w_files w \<and>
     (\<forall>b. r1 = Inr b \<longrightarrow> (\<exists>f. w_files w p = Some f \<and> contents f = b))"
  "fs_create_dir_all p w = (r, w') \<Longrightarrow> w_files w' = w_files w"
  "fs_create_new p m w = (r, w') \<Longrightarrow>
     (case r of Inl _ \<Rightarrow> w_files w' = w_files w | Inr _ \<Rightarrow> w_files w' = (w_files w)(p \<mapsto> File [] m))"
  "w_files w p = Some f \<Longrightarrow> fs_write_all p b w = (r, w') \<Longrightarrow>
     (case r of Inl _ \<Rightarrow> \<exists>n. w_files w' = (w_files w)(p \<mapsto> File (contents f @ take n b) (mode f))
        | Inr _ \<Rightarrow> w_files w' = (w_files w)(p \<mapsto> File (contents f @ b) (mode f)))"
  "fs_sync_all p w = (r, w') \<Longrightarrow> w_files w' = w_files w"
  "w_files w p = Some f \<Longrightarrow> fs_rename p q w = (r, w') \<Longrightarrow>
     (case r of Inl _ \<Rightarrow> w_files w' = w_files w | Inr _ \<Rightarrow> w_files w' = (w_files w)(p := None, q \<mapsto> f))"
  "fs_remove_file p w = (r, w') \<Longrightarrow> w_files w' = w_files w \<or> w_files w' = (w_files w)(p := None)"
  "getrandom n w = (r3, w') \<Longrightarrow> w_files w' = w_files w \<and> r3 = os_random (w_env w) (w_tick w) n"
  by (auto simp: fs_read_def fs_create_dir_all_def fs_create_new_def fs_write_all_def fs_sync_all_def
      fs_rename_def fs_remove_file_def getrandom_def syscall_def Let_def append_to_def
      split: option.splits)

lemma prog_step_world:
  "prog_step m w = (m', w') \<Longrightarrow> w_env w' = w_env w \<and> w_tick w \<le> w_tick w' \<and> w_tick w' \<le> Suc (w_tick w)"
  by (cases m)
    (auto simp: fs_read_def fs_create_dir_all_def fs_create_new_def fs_write_all_def fs_sync_all_def
      fs_rename_def fs_remove_file_def getrandom_def syscall_def Let_def append_to_def
      split: option.splits prod.splits)

lemma prog_step_tick: "prog_step m w = (m', w') \<Longrightarrow> (\<forall>a. m \<noteq> Ret a) \<Longrightarrow> w_tick w' = Suc (w_tick w)"
  by (cases m)
    (auto simp: fs_read_def fs_create_dir_all_def fs_create_new_def fs_write_all_def fs_sync_all_def
      fs_rename_def fs_remove_file_def getrandom_def syscall_def Let_def append_to_def
      split: option.splits prod.splits)

definition guaranteed ::
  "'z protect_deps_scheme \<Rightarrow> (path \<Rightarrow> bytes \<Rightarrow> bool) \<Rightarrow> 'a prog \<Rightarrow>
   ('a \<Rightarrow> path set \<Rightarrow> (path \<Rightarrow> bytes option) \<Rightarrow> bool) \<Rightarrow> path set \<Rightarrow> world \<Rightarrow> world \<Rightarrow> bool" where
  "guaranteed D Q m' \<Phi> T w w' \<longleftrightarrow>
     (\<exists>T' own'. wp D Q m' \<Phi> T' own' \<and> owns T' own' w' \<and> T \<subseteq> T' \<and>
        (T' = T \<or> T' \<subseteq> T \<union> names_at D (w_env w) (w_tick w) \<and> w_tick w' = Suc (w_tick w))) \<and>
     files_ok Q w' \<and> (\<forall>p. p \<notin> T \<longrightarrow> \<not> not_tmp p \<longrightarrow> w_files w' p = w_files w p)"

lemma guaranteedI:
  assumes "wp D Q m' \<Phi> T own'" and "owns T own' w'" and "files_ok Q w'"
    and "\<And>p. p \<notin> T \<Longrightarrow> \<not> not_tmp p \<Longrightarrow> w_files w' p = w_files w p"
  shows "guaranteed D Q m' \<Phi> T w w'"
  using assms unfolding guaranteed_def by blast

lemma same_files:
  "w_files w' = w_files w \<Longrightarrow> files_ok Q w \<Longrightarrow> files_ok Q w'"
  "w_files w' = w_files w \<Longrightarrow> owns T own w \<Longrightarrow> owns T own w'"
  by (simp_all add: files_ok_def owns_def)

lemma files_ok_tmp:
  "files_ok Q w \<Longrightarrow> \<not> not_tmp p \<Longrightarrow> w_files w' = (w_files w)(p := x) \<Longrightarrow> files_ok Q w'"
  by (auto simp: files_ok_def)

lemma owns_upd:
  "owns T own w \<Longrightarrow> p \<in> T \<Longrightarrow> w_files w' = (w_files w)(p \<mapsto> File b m) \<Longrightarrow> owns T (own(p \<mapsto> b)) w'"
  "owns T own w \<Longrightarrow> w_files w' = (w_files w)(p := x) \<Longrightarrow> owns T (own(p := None)) w'"
  "owns T own w \<Longrightarrow> owns T (own(p := None)) w"
  by (auto simp: owns_def)

lemma prog_step_guarantee:
  assumes ok: "files_ok Q w" and wp: "wp D Q m \<Phi> T own" and owns: "owns T own w"
    and T: "\<forall>p\<in>T. \<not> not_tmp p" and step: "prog_step m w = (m', w')"
  shows "guaranteed D Q m' \<Phi> T w w'"
proof (cases m)
  case (Ret a)
  with wp step owns ok show ?thesis by (auto intro: guaranteedI)
next
  case (Read p k)
  then obtain r where c: "fs_read p w = (r, w')" and m': "m' = k r" using step by (auto split: prod.splits)
  note f = call_files(1) [OF c]
  from wp Read have n: "not_tmp p" "\<And>b. Q p b \<Longrightarrow> wp D Q (k (Inr b)) \<Phi> T own"
    "\<And>e. wp D Q (k (Inl e)) \<Phi> T own" by auto
  have "wp D Q (k r) \<Phi> T own"
    using f ok n by (cases r) (auto simp: files_ok_def)
  then show ?thesis unfolding m' using f ok owns by (intro guaranteedI) (auto dest: same_files)
next
  case (Create_dir_all p k)
  then obtain r where c: "fs_create_dir_all p w = (r, w')" and m': "m' = k r"
    using step by (auto split: prod.splits)
  from wp Create_dir_all show ?thesis unfolding m' using call_files(2) [OF c] ok owns
    by (intro guaranteedI) (auto dest: same_files)
next
  case (Create_new p md k)
  then obtain r where c: "fs_create_new p md w = (r, w')" and m': "m' = k r"
    using step by (auto split: prod.splits)
  note f = call_files(3) [OF c]
  from wp Create_new have n: "p \<in> T" "wp D Q (k (Inr ())) \<Phi> T (own(p \<mapsto> []))"
    "\<And>e. wp D Q (k (Inl e)) \<Phi> T own" by auto
  show ?thesis
  proof (cases r)
    case (Inl e)
    with f n(3) ok owns show ?thesis unfolding m' by (intro guaranteedI) (auto dest: same_files)
  next
    case (Inr u)
    with f have f: "w_files w' = (w_files w)(p \<mapsto> File [] md)" by simp
    from n(2) owns_upd(1) [OF owns n(1) f] files_ok_tmp [OF ok _ f] T n(1) f Inr
    show ?thesis unfolding m' by (intro guaranteedI [where own' = "own(p \<mapsto> [])"]) auto
  qed
next
  case (Write_all p b k)
  then obtain r where c: "fs_write_all p b w = (r, w')" and m': "m' = k r"
    using step by (auto split: prod.splits)
  from wp Write_all obtain x where n: "p \<in> T" "own p = Some x"
    "wp D Q (k (Inr ())) \<Phi> T (own(p \<mapsto> x @ b))"
    "\<And>e n. wp D Q (k (Inl e)) \<Phi> T (own(p \<mapsto> x @ take n b))" by auto
  from owns n(2) obtain f where f: "w_files w p = Some f" "contents f = x" by (auto simp: owns_def)
  obtain y where y: "w_files w' = (w_files w)(p \<mapsto> File y (mode f))" "wp D Q (k r) \<Phi> T (own(p \<mapsto> y))"
    using call_files(4) [OF f(1) c] f(2) n(3,4) by (cases r) auto
  from y(2) owns_upd(1) [OF owns n(1) y(1)] files_ok_tmp [OF ok _ y(1)] T n(1) y(1)
  show ?thesis unfolding m' by (intro guaranteedI [where own' = "own(p \<mapsto> y)"]) auto
next
  case (Sync_all p k)
  then obtain r where c: "fs_sync_all p w = (r, w')" and m': "m' = k r"
    using step by (auto split: prod.splits)
  from wp Sync_all show ?thesis unfolding m' using call_files(5) [OF c] ok owns
    by (intro guaranteedI) (auto dest: same_files)
next
  case (Rename a b k)
  then obtain r where c: "fs_rename a b w = (r, w')" and m': "m' = k r"
    using step by (auto split: prod.splits)
  from wp Rename obtain x where n: "a \<in> T" "own a = Some x" "not_tmp b" "Q b x"
    "wp D Q (k (Inr ())) \<Phi> T (own(a := None))" "\<And>e. wp D Q (k (Inl e)) \<Phi> T own" by auto
  from owns n(2) obtain f where f: "w_files w a = Some f" "contents f = x" by (auto simp: owns_def)
  note files = call_files(6) [OF f(1) c]
  show ?thesis
  proof (cases r)
    case (Inl e)
    with files n(6) ok owns show ?thesis unfolding m' by (intro guaranteedI) (auto dest: same_files)
  next
    case (Inr u)
    with files have f': "w_files w' = (w_files w)(a := None, b \<mapsto> f)" by simp
    have "owns T (own(a := None)) w'" using owns T n(3) by (auto simp: owns_def f')
    moreover have "files_ok Q w'" using ok f(2) n(4) by (auto simp: files_ok_def f')
    ultimately show ?thesis unfolding m' using n(1,3,5) Inr
      by (intro guaranteedI [where own' = "own(a := None)"]) (auto simp: f')
  qed
next
  case (Remove_file p k)
  then obtain r where c: "fs_remove_file p w = (r, w')" and m': "m' = k r"
    using step by (auto split: prod.splits)
  from wp Remove_file have n: "p \<in> T" "wp D Q (k r) \<Phi> T (own(p := None))" by auto
  from call_files(7) [OF c] owns T n(1) ok
  have "owns T (own(p := None)) w'" "files_ok Q w'"
    "\<And>q. q \<notin> T \<Longrightarrow> w_files w' q = w_files w q"
    by (auto simp: owns_def files_ok_def split: if_splits)
  with n(2) show ?thesis unfolding m' by (intro guaranteedI [where own' = "own(p := None)"]) auto
next
  case (Getrandom n k)
  then obtain r where c: "getrandom n w = (r, w')" and m': "m' = k r"
    using step by (auto split: prod.splits)
  let ?T = "case r of Inl _ \<Rightarrow> T | Inr x \<Rightarrow> if n = 8 then T \<union> nonce_names D x else T"
  from wp Getrandom have "wp D Q (k r) \<Phi> ?T own" by (cases r) auto
  moreover have "w_tick w' = Suc (w_tick w)" and f: "w_files w' = w_files w"
    and "r = os_random (w_env w) (w_tick w) n" using c by (auto simp: getrandom_def)
  moreover have "owns ?T own w'" using owns f by (auto simp: owns_def split: sum.splits)
  ultimately show ?thesis unfolding guaranteed_def m' using same_files(1) [OF f ok] f
    by (intro conjI exI [of _ ?T] exI [of _ own]) (auto simp: names_at_def split: sum.splits)
qed

text \<open>
  The processes together: each keeps to the rules with temporary files of its own, under names
  drawn since the start. That the drawn nonces differ is what keeps them apart.
\<close>

definition drawn :: "'z protect_deps_scheme \<Rightarrow> os_env \<Rightarrow> nat \<Rightarrow> nat \<Rightarrow> path set" where
  "drawn D env a b = (\<Union>t\<in>{a ..< b}. names_at D env t)"

definition nonces_distinct :: "os_env \<Rightarrow> nat \<Rightarrow> nat \<Rightarrow> bool" where
  "nonces_distinct env a b \<longleftrightarrow>
     (\<forall>s\<in>{a ..< b}. \<forall>t\<in>{a ..< b}. s \<noteq> t \<longrightarrow>
        (case (os_random env s 8, os_random env t 8) of
           (Inr x, Inr y) \<Rightarrow> x \<noteq> y
         | _ \<Rightarrow> True))"

definition system_inv ::
  "'z protect_deps_scheme \<Rightarrow> (path \<Rightarrow> bytes \<Rightarrow> bool) \<Rightarrow> nat \<Rightarrow> 'a prog list \<Rightarrow> world \<Rightarrow> bool" where
  "system_inv D Q a ps w \<longleftrightarrow>
     files_ok Q w \<and> a \<le> w_tick w \<and>
     (\<exists>T own. (\<forall>i<length ps. wp D Q (ps ! i) (\<lambda>_ _ _. True) (T i) (own i) \<and> owns (T i) (own i) w \<and>
         T i \<subseteq> drawn D (w_env w) a (w_tick w)) \<and>
       (\<forall>i j. i < length ps \<longrightarrow> j < length ps \<longrightarrow> i \<noteq> j \<longrightarrow> T i \<inter> T j = {}))"

lemma in_drawn: "p \<in> drawn D env a b \<longleftrightarrow> (\<exists>t. a \<le> t \<and> t < b \<and> p \<in> names_at D env t)"
  by (auto simp: drawn_def)

lemma names_at_tmp: "protect_deps_ok D \<Longrightarrow> p \<in> names_at D env t \<Longrightarrow> \<not> not_tmp p"
  using nonce_names_tmp(2) [of D p] by (cases "os_random env t 8") (simp_all add: names_at_def)

lemma drawn_tmp: "protect_deps_ok D \<Longrightarrow> p \<in> drawn D env a b \<Longrightarrow> \<not> not_tmp p"
  by (metis in_drawn names_at_tmp)

lemma drawn_fresh:
  assumes D: "protect_deps_ok D" and n: "nonces_distinct env a (Suc t)" and "a \<le> t"
  shows "drawn D env a t \<inter> names_at D env t = {}"
proof -
  have "names_at D env s \<inter> names_at D env t = {}" if "a \<le> s" "s < t" for s
  proof -
    from n that have "case (os_random env s 8, os_random env t 8) of (Inr x, Inr y) \<Rightarrow> x \<noteq> y | _ \<Rightarrow> True"
      unfolding nonces_distinct_def by (auto simp: less_Suc_eq)
    then show ?thesis using nonce_names_disjoint [OF D]
      by (auto simp: names_at_def split: sum.splits)
  qed
  then show ?thesis by (metis disjoint_iff in_drawn)
qed

lemma drawn_mono: "b \<le> c \<Longrightarrow> drawn D env a b \<subseteq> drawn D env a c"
  by (meson in_drawn less_le_trans subsetI)

lemma names_at_drawn: "a \<le> t \<Longrightarrow> names_at D env t \<subseteq> drawn D env a (Suc t)"
  by (meson in_drawn lessI subsetI)

lemma nonces_distinct_mono: "nonces_distinct env a c \<Longrightarrow> b \<le> c \<Longrightarrow> nonces_distinct env a b"
  by (simp add: nonces_distinct_def)

lemma owns_others:
  assumes "owns T own w" and "\<forall>p\<in>T. \<not> not_tmp p" and "T \<inter> S = {}"
    and "\<And>p. p \<notin> S \<Longrightarrow> \<not> not_tmp p \<Longrightarrow> w_files w' p = w_files w p"
  shows "owns T own w'"
  using assms unfolding owns_def by (metis disjoint_iff)

lemma system_step:
  assumes D: "protect_deps_ok D" and inv: "system_inv D Q a ps w" and i: "i < length ps"
    and step: "prog_step (ps ! i) w = (m, w')" and n: "nonces_distinct (w_env w) a (w_tick w')"
  shows "system_inv D Q a (ps[i := m]) w'"
proof -
  from inv obtain T own where ok: "files_ok Q w" and a: "a \<le> w_tick w"
    and each: "\<And>j. j < length ps \<Longrightarrow> wp D Q (ps ! j) (\<lambda>_ _ _. True) (T j) (own j)"
      "\<And>j. j < length ps \<Longrightarrow> owns (T j) (own j) w"
      "\<And>j. j < length ps \<Longrightarrow> T j \<subseteq> drawn D (w_env w) a (w_tick w)"
    and dis: "\<And>j l. j < length ps \<Longrightarrow> l < length ps \<Longrightarrow> j \<noteq> l \<Longrightarrow> T j \<inter> T l = {}"
    unfolding system_inv_def by blast
  note tmp = drawn_tmp [OF D]
  have Ttmp: "\<forall>p\<in>T j. \<not> not_tmp p" if "j < length ps" for j using each(3) [OF that] tmp by blast
  from prog_step_world [OF step] have env: "w_env w' = w_env w" and t: "w_tick w \<le> w_tick w'" by auto
  from prog_step_guarantee [OF ok each(1) [OF i] each(2) [OF i] Ttmp [OF i] step]
  obtain T' own' where T': "wp D Q m (\<lambda>_ _ _. True) T' own'" "owns T' own' w'" "T i \<subseteq> T'"
    "T' = T i \<or> T' \<subseteq> T i \<union> names_at D (w_env w) (w_tick w) \<and> w_tick w' = Suc (w_tick w)"
    and ok': "files_ok Q w'" and same: "\<And>p. p \<notin> T i \<Longrightarrow> \<not> not_tmp p \<Longrightarrow> w_files w' p = w_files w p"
    unfolding guaranteed_def by blast
  note mono = drawn_mono [OF t, of D "w_env w" a]
  have T'sub: "T' \<subseteq> drawn D (w_env w) a (w_tick w')"
    using T'(4)
  proof
    assume "T' = T i"
    with each(3) [OF i] mono show ?thesis by blast
  next
    assume T: "T' \<subseteq> T i \<union> names_at D (w_env w) (w_tick w) \<and> w_tick w' = Suc (w_tick w)"
    then have "names_at D (w_env w) (w_tick w) \<subseteq> drawn D (w_env w) a (w_tick w')"
      using names_at_drawn [OF a] by metis
    with T each(3) [OF i] mono show ?thesis by blast
  qed
  have T'dis: "T j \<inter> T' = {}" if j: "j < length ps" "j \<noteq> i" for j
    using T'(4)
  proof
    assume "T' = T i"
    with dis [OF j(1) i j(2)] show ?thesis by simp
  next
    assume T: "T' \<subseteq> T i \<union> names_at D (w_env w) (w_tick w) \<and> w_tick w' = Suc (w_tick w)"
    with n drawn_fresh [OF D _ a, of "w_env w"] each(3) [OF j(1)]
    have "T j \<inter> names_at D (w_env w) (w_tick w) = {}" by auto
    with T dis [OF j(1) i j(2)] show ?thesis by blast
  qed
  have others: "owns (T j) (own j) w'" if j: "j < length ps" "j \<noteq> i" for j
    by (rule owns_others [OF each(2) [OF j(1)] Ttmp [OF j(1)] dis [OF j(1) i j(2)] same])
  show ?thesis unfolding system_inv_def env
  proof (intro conjI exI [of _ "T(i := T')"] exI [of _ "own(i := own')"] allI impI)
    show "a \<le> w_tick w'" using a t by simp
  next
    fix j assume "j < length (ps[i := m])"
    then have j: "j < length ps" by simp
    show "wp D Q (ps[i := m] ! j) (\<lambda>_ _ _. True) ((T(i := T')) j) ((own(i := own')) j)"
      using each(1) [OF j] T'(1) i by (cases "j = i") auto
    show "owns ((T(i := T')) j) ((own(i := own')) j) w'"
      using others [OF j] T'(2) by (cases "j = i") auto
    show "(T(i := T')) j \<subseteq> drawn D (w_env w) a (w_tick w')"
      using T'sub each(3) [OF j] mono by auto
  next
    fix j l assume "j < length (ps[i := m])" "l < length (ps[i := m])" "j \<noteq> l"
    then show "(T(i := T')) j \<inter> (T(i := T')) l = {}"
      using dis T'dis [of j] T'dis [of l] by (auto simp: Int_commute)
  qed (rule ok')
qed

lemma exec_world: "exec sched ps w = (ps', w') \<Longrightarrow> w_env w' = w_env w \<and> w_tick w \<le> w_tick w'"
proof (induction sched ps w rule: exec.induct)
  case (2 i sched ps w)
  show ?case
  proof (cases "i < length ps")
    case True
    obtain m w1 where s: "prog_step (ps ! i) w = (m, w1)" by (cases "prog_step (ps ! i) w")
    with 2(1) [OF True] 2(3) True prog_step_world [OF s] show ?thesis by auto
  qed (use 2 in simp)
qed simp

lemma exec_ticks: "exec sched ps w = (ps', w') \<Longrightarrow> w_tick w' \<le> w_tick w + length sched"
proof (induction sched ps w rule: exec.induct)
  case (2 i sched ps w)
  show ?case
  proof (cases "i < length ps")
    case True
    obtain m w1 where s: "prog_step (ps ! i) w = (m, w1)" by (cases "prog_step (ps ! i) w")
    with 2(3) True have e: "exec sched (ps[i := m]) w1 = (ps', w')" by simp
    from 2(1) [OF True s [symmetric] e] prog_step_world [OF s] show ?thesis by simp
  next
    case False
    with 2(3) have "exec sched ps w = (ps', w')" by simp
    from 2(2) [OF False this] show ?thesis by simp
  qed
qed simp

lemma system_exec:
  assumes D: "protect_deps_ok D"
  shows "exec sched ps w = (ps', w') \<Longrightarrow> system_inv D Q a ps w \<Longrightarrow>
    nonces_distinct (w_env w) a (w_tick w') \<Longrightarrow> system_inv D Q a ps' w'"
proof (induction sched ps w rule: exec.induct)
  case (2 i sched ps w)
  show ?case
  proof (cases "i < length ps")
    case True
    obtain m w1 where s: "prog_step (ps ! i) w = (m, w1)" by (cases "prog_step (ps ! i) w")
    with 2(3) True have e: "exec sched (ps[i := m]) w1 = (ps', w')" by simp
    from exec_world [OF e] prog_step_world [OF s] 2(5)
    have n: "nonces_distinct (w_env w) a (w_tick w1)" and n': "nonces_distinct (w_env w1) a (w_tick w')"
      using nonces_distinct_mono by auto
    from 2(1) [OF True s [symmetric] e system_step [OF D 2(4) True s n] n'] show ?thesis .
  qed (use 2 in simp)
qed simp

end
