(* ===== verification/Concurrent.thy ===== *)
theory Concurrent
  imports Interference
begin

text \<open>
  Several windows over one store directory. Nothing in \<open>crates/entangled-client-store\<close> locks
  the directory, so the calls of the processes interleave. A process is a client: a strategy
  that does store operations one after the other, each chosen from the results so far. The
  rules of \<open>Interference\<close> are instantiated with what the files of the store may hold: under
  every schedule each record and each history stays complete, authentic and readable, with
  keys and records that some client was given to write.
\<close>

section \<open>Clients\<close>

datatype ('on, 'pk, 'ts, 'rk) store_op =
    Load_op 'on
  | Apply_op 'on "'pk PersistenceIntent"
  | Load_history_op 'pk
  | Append_op 'pk "('ts, 'rk) RetainedManifestRecord"

datatype ('pk, 'ts, 'rk) op_result =
    Identity_result "StoreError + 'pk RetainedIdentity option"
  | History_result "StoreError + ('ts, 'rk) PublisherHistory"
  | Unit_result "StoreError + unit"

fun op_prog ::
  "('on, 'pk, 'ts, 'rk, 'z) store_deps_scheme \<Rightarrow> StoreRoot \<Rightarrow> ('on, 'pk, 'ts, 'rk) store_op \<Rightarrow>
   ('pk, 'ts, 'rk) op_result prog" where
  "op_prog D root (Load_op site) = after (p_load_identity D root site) (\<lambda>r. Ret (Identity_result r))"
| "op_prog D root (Apply_op site i) = after (p_apply D root site i) (\<lambda>r. Ret (Unit_result r))"
| "op_prog D root (Load_history_op p) = after (p_load_history D root p) (\<lambda>r. Ret (History_result r))"
| "op_prog D root (Append_op p x) = after (p_append_record D root p x) (\<lambda>r. Ret (Unit_result r))"

datatype ('on, 'pk, 'ts, 'rk, 'a) client =
    Stop 'a
  | Do "('on, 'pk, 'ts, 'rk) store_op" "('pk, 'ts, 'rk) op_result \<Rightarrow> ('on, 'pk, 'ts, 'rk, 'a) client"

primrec client_prog ::
  "('on, 'pk, 'ts, 'rk, 'z) store_deps_scheme \<Rightarrow> StoreRoot \<Rightarrow> ('on, 'pk, 'ts, 'rk, 'a) client \<Rightarrow>
   'a prog" where
  "client_prog D root (Stop a) = Ret a"
| "client_prog D root (Do op k) = after (op_prog D root op) (\<lambda>r. client_prog D root (k r))"

section \<open>The rules of the store\<close>

text \<open>
  \<open>K site\<close> is the set of keys that may stand in the record of a site, \<open>H publisher\<close> the set of
  records that may stand in a history. The file of a site holds a complete authentic record
  with such keys, the file of a publisher a complete authentic history of such records.
\<close>

definition record_rule ::
  "('on, 'pk, 'ts, 'rk, 'z) store_deps_scheme \<Rightarrow> StoreRoot \<Rightarrow> ('on \<Rightarrow> 'pk set) \<Rightarrow>
   ('pk \<Rightarrow> ('ts, 'rk) RetainedManifestRecord set) \<Rightarrow> path \<Rightarrow> bytes \<Rightarrow> bool" where
  "record_rule D root K H p b \<longleftrightarrow>
     (\<forall>site. p = fis_path D (fis_new root) site \<longrightarrow>
       (\<exists>d i. decode_file ''decode identity: '' (identity_codec D) identity_check_version D root b = Inr d \<and>
          to_identity d = Inr i \<and> pubkey i \<in> K site \<and> set (id_replaced_pubkeys d) \<subseteq> K site)) \<and>
     (\<forall>publisher. p = fhs_path D (fhs_new root) publisher \<longrightarrow>
       (\<exists>d rs. decode_file ''decode history: '' (history_codec D) history_check_version D root b = Inr d \<and>
          into_records D (hd_records d) = Inr rs \<and> set rs \<subseteq> H publisher))"

definition store_within ::
  "('on, 'pk, 'ts, 'rk, 'z) store_deps_scheme \<Rightarrow> StoreRoot \<Rightarrow> ('on \<Rightarrow> 'pk set) \<Rightarrow>
   ('pk \<Rightarrow> ('ts, 'rk) RetainedManifestRecord set) \<Rightarrow> world \<Rightarrow> bool" where
  "store_within D root K H w \<longleftrightarrow>
     fis_inv D (fis_new root) w \<and> fhs_inv D (fhs_new root) w \<and>
     (\<forall>site i ks. fis_content D (fis_new root) w site = Some (i, ks) \<longrightarrow>
        pubkey i \<in> K site \<and> set ks \<subseteq> K site) \<and>
     (\<forall>publisher. set (fhs_content D (fhs_new root) w publisher) \<subseteq> H publisher)"

lemma dto_at_decode:
  "dto_at msg c check D root p w =
     (case w_files w p of
        None \<Rightarrow> Inr None
      | Some f \<Rightarrow> result_bind (decode_file msg c check D root (contents f)) (\<lambda>d. Inr (Some d)))"
  by (auto simp: dto_at_def protected_content_def decode_file_def result_bind_def
      split: option.splits sum.splits)

lemma new_root [simp]: "fis_root (fis_new root) = root" "fhs_root (fhs_new root) = root"
  by (simp_all add: fis_new_def fhs_new_def)

lemma fis_fhs_paths [simp]:
  "fis_path D (fis_new root) site \<noteq> fhs_path D (fhs_new root) p"
  "fhs_path D (fhs_new root) p \<noteq> fis_path D (fis_new root) site"
  "store_deps_ok D \<Longrightarrow> fis_path D (fis_new root) a = fis_path D (fis_new root) b \<longleftrightarrow> a = b"
  "store_deps_ok D \<Longrightarrow> fhs_path D (fhs_new root) q = fhs_path D (fhs_new root) p \<longleftrightarrow> q = p"
  by (simp_all add: fis_path_def fhs_path_def)

lemma store_within_files:
  "store_within D root K H w \<longleftrightarrow> store_deps_ok D \<and> files_ok (record_rule D root K H) w"
proof -
  have id: "(fis_readable D (fis_new root) w site \<and>
      (\<forall>i ks. fis_content D (fis_new root) w site = Some (i, ks) \<longrightarrow> pubkey i \<in> K site \<and> set ks \<subseteq> K site)) \<longleftrightarrow>
    (\<forall>f. w_files w (fis_path D (fis_new root) site) = Some f \<longrightarrow> record_rule D root K H (fis_path D (fis_new root) site) (contents f))"
    if "store_deps_ok D" for site
    using that by (auto simp: fis_readable_def fis_content_def fis_dto_at_def dto_at_decode record_rule_def
        is_ok_def result_bind_def split: option.splits sum.splits)
  have hist: "(is_ok (fhs_records_at D (fhs_new root) w p) \<and>
      set (fhs_content D (fhs_new root) w p) \<subseteq> H p) \<longleftrightarrow>
    (\<forall>f. w_files w (fhs_path D (fhs_new root) p) = Some f \<longrightarrow> record_rule D root K H (fhs_path D (fhs_new root) p) (contents f))"
    if "store_deps_ok D" for p
    using that by (auto simp: fhs_content_def fhs_records_at_def fhs_dto_at_def dto_at_decode record_rule_def
        is_ok_def result_bind_def split: option.splits sum.splits)
  have files: "files_ok (record_rule D root K H) w \<longleftrightarrow>
    (\<forall>site f. w_files w (fis_path D (fis_new root) site) = Some f \<longrightarrow> record_rule D root K H (fis_path D (fis_new root) site) (contents f)) \<and>
    (\<forall>p f. w_files w (fhs_path D (fhs_new root) p) = Some f \<longrightarrow> record_rule D root K H (fhs_path D (fhs_new root) p) (contents f))"
    using fis_path_facts(3) fhs_path_facts(3) unfolding files_ok_def
    by (metis record_rule_def)
  show ?thesis unfolding files store_within_def fis_inv_def fhs_inv_def using id hist by blast
qed

fun intent_keys :: "'pk PersistenceIntent \<Rightarrow> 'pk list" where
  "intent_keys None_intent = []"
| "intent_keys (RecordObservation k) = [k]"
| "intent_keys (PinIdentity k) = [k]"
| "intent_keys (MarkExternallyVerified k) = [k]"
| "intent_keys (ReplaceIdentity n old v) = [n, old]"

text \<open>
  What a client may ask for, where it may rely on the results it got: keys of \<open>K\<close> for the site,
  records of \<open>H\<close> for the publisher.
\<close>

fun op_within ::
  "('on \<Rightarrow> 'pk set) \<Rightarrow> ('pk \<Rightarrow> ('ts, 'rk) RetainedManifestRecord set) \<Rightarrow>
   ('on, 'pk, 'ts, 'rk) store_op \<Rightarrow> bool" where
  "op_within K H (Load_op site) = True"
| "op_within K H (Apply_op site i) = (set (intent_keys i) \<subseteq> K site)"
| "op_within K H (Load_history_op p) = True"
| "op_within K H (Append_op p x) = (record_ok x \<and> x \<in> H p)"

fun result_within ::
  "('on \<Rightarrow> 'pk set) \<Rightarrow> ('pk \<Rightarrow> ('ts, 'rk) RetainedManifestRecord set) \<Rightarrow>
   ('on, 'pk, 'ts, 'rk) store_op \<Rightarrow> ('pk, 'ts, 'rk) op_result \<Rightarrow> bool" where
  "result_within K H (Load_op site) (Identity_result r) =
     ok_with (\<lambda>x. \<forall>i. x = Some i \<longrightarrow> pubkey i \<in> K site) r"
| "result_within K H (Load_history_op p) (History_result r) = ok_with (\<lambda>h. set (records h) \<subseteq> H p) r"
| "result_within K H (Apply_op site i) (Unit_result r) = True"
| "result_within K H (Append_op p x) (Unit_result r) = True"
| "result_within K H _ _ = False"

primrec client_within ::
  "('on \<Rightarrow> 'pk set) \<Rightarrow> ('pk \<Rightarrow> ('ts, 'rk) RetainedManifestRecord set) \<Rightarrow>
   ('on, 'pk, 'ts, 'rk, 'a) client \<Rightarrow> bool" where
  "client_within K H (Stop a) = True"
| "client_within K H (Do op k) =
     (op_within K H op \<and> (\<forall>r. result_within K H op r \<longrightarrow> client_within K H (k r)))"

lemma upholds_load_dto:
  assumes "Q = record_rule D root K H"
  shows "upholds D Q (p_load_dto D root site) (ok_with (\<lambda>x. \<forall>d. x = Some d \<longrightarrow>
    (\<exists>i. to_identity d = Inr i \<and> pubkey i \<in> K site \<and> set (id_replaced_pubkeys d) \<subseteq> K site)))"
  unfolding p_load_dto_def assms
  by (rule upholds_load_checked [OF fis_path_facts(3)]) (auto simp: record_rule_def)

lemma upholds_write_dto:
  assumes D: "store_deps_ok D" and "Q = record_rule D root K H"
    and "pubkey i \<in> K site" and "set ks \<subseteq> K site"
  shows "upholds D Q (p_write_dto D root site (identity_dto_new i ks)) (ok_with (\<lambda>_. True))"
  unfolding p_write_dto_def assms(2)
proof (rule upholds_write_json [OF store_deps_okD(1,2) [OF D] fis_path_facts])
  show "identity_check_version (identity_dto_new i ks) = Inr ()" by simp
  fix b assume "decode_file ''decode identity: '' (identity_codec D) identity_check_version D root b =
      Inr (identity_dto_new i ks)"
  with D assms(3,4) show "record_rule D root K H (fis_path D (fis_new root) site) b"
    by (auto simp: record_rule_def)
qed

lemma apply_write_within:
  assumes "\<forall>d. x = Some d \<longrightarrow> (\<exists>i. to_identity d = Inr i \<and> pubkey i \<in> S \<and> set (id_replaced_pubkeys d) \<subseteq> S)"
    and "set (intent_keys i) \<subseteq> S"
  shows "ok_with (\<lambda>out. \<forall>d. out = Some d \<longrightarrow>
    (\<exists>j ks. d = identity_dto_new j ks \<and> pubkey j \<in> S \<and> set ks \<subseteq> S)) (apply_write i x)"
proof -
  have new: "\<exists>j ks. identity_dto_new a l = identity_dto_new j ks \<and> pubkey j \<in> S \<and> set ks \<subseteq> S"
    if "pubkey a \<in> S" "set l \<subseteq> S" for a l
    using that by blast
  show ?thesis
    using assms
    by (cases i; cases x) (auto simp: replaced_or_default_def intro!: new)
qed

lemma upholds_apply:
  assumes D: "store_deps_ok D" and Q: "Q = record_rule D root K H" and K: "set (intent_keys i) \<subseteq> K site"
  shows "upholds D Q (p_apply D root site i) (ok_with (\<lambda>_. True))"
proof (cases "i = None_intent")
  case False
  show ?thesis unfolding p_apply_def if_not_P [OF False]
  proof (rule upholds_bind [OF upholds_load_dto [OF Q]])
    fix x assume "\<forall>d. x = Some d \<longrightarrow>
      (\<exists>i. to_identity d = Inr i \<and> pubkey i \<in> K site \<and> set (id_replaced_pubkeys d) \<subseteq> K site)"
    then have out: "upholds D Q (p_lift (apply_write i x)) (ok_with (\<lambda>out. \<forall>d. out = Some d \<longrightarrow>
        (\<exists>j ks. d = identity_dto_new j ks \<and> pubkey j \<in> K site \<and> set ks \<subseteq> K site)))"
      by (intro uphold apply_write_within [OF _ K])
    show "upholds D Q (p_bind (p_lift (apply_write i x)) (\<lambda>out. case out of None \<Rightarrow> p_return ()
        | Some dto \<Rightarrow> p_write_dto D root site dto)) (ok_with (\<lambda>_. True))"
    proof (rule upholds_bind [OF out])
      fix out assume "\<forall>d. out = Some d \<longrightarrow>
        (\<exists>j ks. d = identity_dto_new j ks \<and> pubkey j \<in> K site \<and> set ks \<subseteq> K site)"
      with upholds_write_dto [OF D Q, of _ site] show "upholds D Q (case out of None \<Rightarrow> p_return ()
          | Some dto \<Rightarrow> p_write_dto D root site dto) (ok_with (\<lambda>_. True))"
        by (cases out) (auto intro: uphold)
    qed
  qed
qed (simp add: p_apply_def uphold)

lemma upholds_history_dto:
  assumes "Q = record_rule D root K H"
  shows "upholds D Q (p_load_checked ''decode history: '' (history_codec D) history_check_version D root
      (fhs_path D (fhs_new root) p)) (ok_with (\<lambda>x. \<forall>d. x = Some d \<longrightarrow>
    (\<exists>rs. into_records D (hd_records d) = Inr rs \<and> set rs \<subseteq> H p)))"
  unfolding assms by (rule upholds_load_checked [OF fhs_path_facts(3)]) (auto simp: record_rule_def)

lemma upholds_append:
  assumes D: "store_deps_ok D" and Q: "Q = record_rule D root K H" and x: "record_ok x" "x \<in> H p"
  shows "upholds D Q (p_append_record D root p x) (ok_with (\<lambda>_. True))"
  unfolding p_append_record_def
proof (rule upholds_bind [OF upholds_history_dto [OF Q]])
  fix old assume "\<forall>d. old = Some d \<longrightarrow> (\<exists>rs. into_records D (hd_records d) = Inr rs \<and> set rs \<subseteq> H p)"
  then obtain rs where rs: "into_records D (case old of None \<Rightarrow> [] | Some d \<Rightarrow> hd_records d) = Inr rs"
    "set rs \<subseteq> H p" by (cases old) auto
  let ?dto = "\<lparr>hd_v = HISTORY_V,
    hd_records = from_record D x # (case old of None \<Rightarrow> [] | Some d \<Rightarrow> hd_records d)\<rparr>"
  have new: "into_records D (hd_records ?dto) = Inr (x # rs)"
    using rs(1) into_from_record [OF store_deps_okD(1) [OF D] x(1)] by simp
  show "upholds D Q (p_write_json ''encode history: '' (history_codec D) D root
      (fhs_path D (fhs_new root) p) ?dto) (ok_with (\<lambda>_. True))"
    unfolding Q
  proof (rule upholds_write_json [OF store_deps_okD(1,3) [OF D] fhs_path_facts])
    show "history_check_version ?dto = Inr ()" by (simp add: history_check_version_def)
    fix b assume "decode_file ''decode history: '' (history_codec D) history_check_version D root b =
        Inr ?dto"
    with D new rs(2) x(2) show "record_rule D root K H (fhs_path D (fhs_new root) p) b"
      by (auto simp: record_rule_def)
  qed
qed

lemma upholds_result:
  "upholds D Q m P \<Longrightarrow> (\<And>a. P a \<Longrightarrow> R (f a)) \<Longrightarrow> upholds D Q (after m (\<lambda>r. Ret (f r))) R"
  by (erule upholds_after) (simp add: uphold)

text \<open>Every operation a client may ask for keeps to the rules and gives a result of its kind.\<close>

lemma upholds_op:
  assumes D: "store_deps_ok D" and Q: "Q = record_rule D root K H" and op: "op_within K H op"
  shows "upholds D Q (op_prog D root op) (result_within K H op)"
proof (cases op)
  case (Load_op site)
  have "upholds D Q (p_load_identity D root site) (ok_with (\<lambda>x. \<forall>i. x = Some i \<longrightarrow> pubkey i \<in> K site))"
    unfolding p_load_identity_def
    by (rule upholds_bind [OF upholds_load_dto [OF Q]], rule uphold)
      (auto simp: ok_with_def result_bind_def split: option.splits)
  from upholds_result [OF this, where f = Identity_result and R = "result_within K H op"] show ?thesis
    by (simp add: Load_op)
next
  case (Load_history_op p)
  have "upholds D Q (p_load_history D root p) (ok_with (\<lambda>h. set (records h) \<subseteq> H p))"
    unfolding p_load_history_def
    by (rule upholds_bind [OF upholds_history_dto [OF Q]], rule uphold)
      (auto simp: ok_with_def result_bind_def ph_new_def records_def from_records_newest_first_def
        split: option.splits)
  from upholds_result [OF this, where f = History_result and R = "result_within K H op"] show ?thesis
    by (simp add: Load_history_op)
next
  case (Apply_op site i)
  with op have "set (intent_keys i) \<subseteq> K site" by simp
  from upholds_result [OF upholds_apply [OF D Q this], where f = Unit_result and R = "result_within K H op"] show ?thesis
    by (simp add: Apply_op)
next
  case (Append_op p x)
  with op have "record_ok x" "x \<in> H p" by simp_all
  from upholds_result [OF upholds_append [OF D Q this], where f = Unit_result and R = "result_within K H op"] show ?thesis
    by (simp add: Append_op)
qed

lemma upholds_client:
  assumes "store_deps_ok D" and "Q = record_rule D root K H"
  shows "client_within K H c \<Longrightarrow> upholds D Q (client_prog D root c) (\<lambda>_. True)"
proof (induction c)
  case (Do op k)
  then have "op_within K H op" by simp
  from upholds_op [OF assms this] show ?case
    unfolding client_prog.simps by (rule upholds_after) (use Do in auto)
qed (simp add: uphold)

theorem concurrent_store:
  assumes clients: "list_all (client_within K H) cs" and start: "store_within D root K H w"
    and ex: "exec sched (map (client_prog D root) cs) w = (ps, w')"
    and n: "nonces_distinct (w_env w) (w_tick w) (w_tick w')"
  shows "store_within D root K H w'"
proof -
  let ?Q = "record_rule D root K H"
  from start have D: "store_deps_ok D" and ok: "files_ok ?Q w" by (simp_all add: store_within_files)
  have "wp D ?Q (client_prog D root (cs ! i)) (\<lambda>_ _ _. True) {} (\<lambda>_. None)" if "i < length cs" for i
    using upholds_client [OF D refl, where c = "cs ! i"] clients that
    by (auto simp: upholds_def list_all_length)
  then have "system_inv D ?Q (w_tick w) (map (client_prog D root) cs) w"
    using ok unfolding system_inv_def
    by (intro conjI exI [of _ "\<lambda>_. {}"] exI [of _ "\<lambda>_ _. None"]) (auto simp: owns_def)
  from system_exec [OF store_deps_okD(1) [OF D] ex this n] D show ?thesis
    by (simp add: store_within_files system_inv_def)
qed

end
