(* ===== verification/Races.thy ===== *)
theory Races
  imports Concurrent Store_Setup
begin

text \<open>
  What the missing lock costs although every file stays complete: two windows that interleave
  can do what neither could do after the other. Two pins of one site both report success and
  the later write replaces the earlier key without a trace (a second pin that started later
  would have kept it), and two first openings each make a key, of which the first window goes
  on using the one that is no longer on disk.
\<close>

section \<open>Schedules that stop at a point of the program\<close>

lemma calls_to_point: "\<exists>n. run_calls n (after m f) w = (f (fst (run m w)), snd (run m w))"
proof (induction m arbitrary: w)
  case (Ret a)
  show ?case by (rule exI [of _ 0]) simp
qed (rule one_more_call [OF prod.collapse [symmetric]], simp split: prod.split)+

lemma exec_to_point:
  assumes "i < length ps" and "ps ! i = after m f" and "run m w = (a, w')"
  obtains n where "exec (replicate n i) ps w = (ps[i := f a], w')"
proof -
  obtain n where "run_calls n (after m f) w = (f a, w')"
    using calls_to_point [of m f w] assms(3) by auto
  with exec_replicate [OF assms(1), of n w] assms(2) have "exec (replicate n i) ps w = (ps[i := f a], w')"
    by simp
  then show thesis by (rule that)
qed

lemma exec_to_result:
  assumes "i < length ps" and "run (ps ! i) w = (a, w')"
  obtains n where "exec (replicate n i) ps w = (ps[i := Ret a], w')"
  using exec_to_end [OF assms(1), of w] assms(2) by auto

text \<open>The second process up to a point, the first to its end, the second to its end.\<close>

lemma exec_overtaken:
  assumes "run m w = (b, w1)" and "run p w1 = (r, w2)" and "run (f b) w2 = (s, w3)"
  shows "\<exists>sched. exec sched [p, after m f] w = ([Ret r, Ret s], w3)"
proof -
  obtain n1 where 1: "exec (replicate n1 1) [p, after m f] w = ([p, f b], w1)"
    by (rule exec_to_point [of 1 "[p, after m f]" m f w b w1]) (use assms(1) in simp_all)
  obtain n2 where 2: "exec (replicate n2 0) [p, f b] w1 = ([Ret r, f b], w2)"
    by (rule exec_to_result [of 0 "[p, f b]" w1 r w2]) (use assms(2) in simp_all)
  obtain n3 where 3: "exec (replicate n3 1) [Ret r, f b] w2 = ([Ret r, Ret s], w3)"
    by (rule exec_to_result [of 1 "[Ret r, f b]" w2 s w3]) (use assms(3) in simp_all)
  have "exec (replicate n1 1 @ replicate n2 0 @ replicate n3 1) [p, after m f] w = ([Ret r, Ret s], w3)"
    unfolding exec_append 1 2 3 prod.case by (rule refl)
  then show ?thesis by blast
qed

section \<open>Two pins of one site\<close>

definition pin_client :: "'on \<Rightarrow> 'pk \<Rightarrow> ('on, 'pk, 'ts, 'rk, ('pk, 'ts, 'rk) op_result) client" where
  "pin_client site k = Do (Apply_op site (PinIdentity k)) Stop"

lemma after_assoc: "after (after m f) g = after m (\<lambda>a. after (f a) g)"
  by (induction m) simp_all

lemma after_Ret: "after m Ret = m"
  by (induction m) simp_all

text \<open>A pin is a read of the record and then what follows from it.\<close>

lemma pin_client_prog:
  "client_prog D root (pin_client site k) =
     after (p_load_dto D root site) (\<lambda>x. after (case x of Inl e \<Rightarrow> Ret (Inl e)
         | Inr x \<Rightarrow> p_bind (p_lift (apply_write (PinIdentity k) x)) (\<lambda>out. case out of
             None \<Rightarrow> p_return () | Some dto \<Rightarrow> p_write_dto D root site dto))
       (\<lambda>r. Ret (Unit_result r)))"
  by (simp add: pin_client_def p_apply_def p_bind_def [of "p_load_dto D root site"] after_assoc
      del: apply_write.simps)

lemma run_pin_client:
  "run (client_prog D root (pin_client site k)) w =
     (case fis_apply D (fis_new root) site (PinIdentity k) w of (r, w') \<Rightarrow> (Unit_result r, w'))"
  by (simp add: pin_client_def after_assoc run_after run_apply split: prod.split)

lemma pin_then_pin:
  assumes D: "store_deps_ok D" and new: "fis_dto_at D st w site = Inr None"
    and a: "fis_apply D st site (PinIdentity k) w = (Inr (), w1)"
  shows "fis_content D st w1 site = Some (\<lparr>pubkey = k, provenance = Pinned\<rparr>, [])"
    and "fis_content D st (snd (fis_apply D st site (PinIdentity k') w1)) site =
      Some (\<lparr>pubkey = k, provenance = Pinned\<rparr>, [])"
proof -
  from a new obtain wl where "fis_write_dto D st site
      (identity_dto_new \<lparr>pubkey = k, provenance = Pinned\<rparr> []) wl = (Inr (), w1)"
    by (auto simp: action_elims dest!: fis_load_dto_facts(2) [OF _ refl])
  from fis_write_Ok(1) [OF D this]
  show c: "fis_content D st w1 site = Some (\<lparr>pubkey = k, provenance = Pinned\<rparr>, [])" by simp
  obtain r w2 where a2: "fis_apply D st site (PinIdentity k') w1 = (r, w2)"
    by (cases "fis_apply D st site (PinIdentity k') w1")
  have "w_files w2 = w_files w1"
    using a2
  proof (cases rule: fis_apply_run)
    case (written x wl ident ks)
    note at = fis_load_dto_facts(2) [OF written(1) refl]
    with c have "\<exists>d. x = Some d \<and> to_identity d = Inr \<lparr>pubkey = k, provenance = Pinned\<rparr>"
      by (auto simp: fis_content_def split: option.splits sum.splits)
    with written(2) show ?thesis by (auto simp: fis_written_def)
  qed (auto dest: fis_load_dto_facts(1))
  with c a2 fis_same_files(1) [of w2 w1 D st]
  show "fis_content D st (snd (fis_apply D st site (PinIdentity k') w1)) site =
      Some (\<lparr>pubkey = k, provenance = Pinned\<rparr>, [])" by simp
qed

section \<open>Two first openings\<close>

text \<open>A window that opens the store and then applies an intent.\<close>

definition then_apply ::
  "('on, 'pk, 'ts, 'rk, 'z) store_deps_scheme \<Rightarrow> (StoreError + StoreRoot) prog \<Rightarrow> 'on \<Rightarrow>
   'pk PersistenceIntent \<Rightarrow> (StoreError + StoreRoot) prog" where
  "then_apply D opening site i =
     p_bind opening (\<lambda>root. p_bind (p_apply D root site i) (\<lambda>_. p_return root))"

lemma run_then_apply:
  "run opening w = (Inr root, w1) \<Longrightarrow> fis_apply D (fis_new root) site i w1 = (Inr (), w2) \<Longrightarrow>
     run (then_apply D opening site i) w = (Inr root, w2)"
  by (simp add: then_apply_def runs run_apply act_bind_def act_return_def)

definition open_then_apply ::
  "('on, 'pk, 'ts, 'rk, 'z) store_deps_scheme \<Rightarrow> path \<Rightarrow> 'on \<Rightarrow> 'pk PersistenceIntent \<Rightarrow>
   (StoreError + StoreRoot) prog" where
  "open_then_apply D base site i = then_apply D (p_open_integrity D base) site i"

lemma open_with_none_facts:
  assumes D: "root_deps_ok D" and o: "run (p_open_with D base None) w = (Inr root, w')"
  shows "\<exists>f. w_files w' (key_path base) = Some f \<and> root_protector root = Integrity_protector (contents f)"
    and "root_base root = base"
    and "not_tmp q \<Longrightarrow> q \<noteq> key_path base \<Longrightarrow> q \<noteq> meta_path base \<Longrightarrow> w_files w' q = w_files w q"
proof -
  have P: "protect_deps_ok D" using D by (simp add: root_deps_ok_def)
  let ?m = "\<lparr>meta_v = META_V, meta_protection = Integrity_tag, meta_salt_b64 = None\<rparr>"
  from o obtain k w1 w2 w3 where g: "getrandom 32 w = (Inr k, w1)"
    and wk: "write_atomic D (key_path base) k w1 = (Inr (), w2)"
    and wm: "write_meta D base ?m w2 = (Inr (), w3)" and cm: "check_mode D base Integrity_tag w3 = (Inr (), w')"
    and root: "root = \<lparr>root_base = base, root_protector = Integrity_protector k\<rparr>"
    by (auto simp: p_open_with_def p_make_key_def runs action_elims)
  show "root_base root = base" by (simp add: root)
  have meta: "keeps q (write_meta D base ?m)" if "not_tmp q" "q \<noteq> meta_path base" for q
    unfolding write_meta_def by (intro keeps_bind keeps_write_atomic P that) simp_all
  have f1: "w_files w1 = w_files w" using getrandom_files [OF g] by simp
  have f3: "w_files w' = w_files w3"
    using check_mode_touches [OF cm] by (simp add: touches_nothing)
  obtain f where "w_files w2 (key_path base) = Some f" "contents f = k"
    using write_atomic_Ok [OF wk] by auto
  moreover have "w_files w3 (key_path base) = w_files w2 (key_path base)"
    by (rule keepsD [OF meta wm]) simp_all
  ultimately show "\<exists>f. w_files w' (key_path base) = Some f \<and>
      root_protector root = Integrity_protector (contents f)" by (simp add: f3 root)
  show "w_files w' q = w_files w q" if q: "not_tmp q" "q \<noteq> key_path base" "q \<noteq> meta_path base"
  proof -
    have "w_files w2 q = w_files w1 q"
      by (rule keepsD [OF keeps_write_atomic wk]) (use P q in simp_all)
    moreover have "w_files w3 q = w_files w2 q" by (rule keepsD [OF meta wm]) (use q in simp_all)
    ultimately show ?thesis by (simp add: f1 f3)
  qed
qed

lemma fis_path_not_key:
  "root_base root = base \<Longrightarrow> fis_path D (fis_new root) site \<noteq> key_path base"
  "root_base root = base \<Longrightarrow> fis_path D (fis_new root) site \<noteq> meta_path base"
  by (auto simp: fis_path_def identity_path_def key_path_def meta_path_def path_join_def lit_def)

text \<open>What was written under the first key stays, and is an error under the second.\<close>

lemma overtaken_opening:
  assumes "root_base rb = base" and "root_base ra = base"
    and sep: "seals_apart D (root_protector ra) (root_protector rb)"
    and new: "w_files wa (fis_path D (fis_new ra) site) = None" and i: "i \<noteq> None_intent"
    and a: "fis_apply D (fis_new ra) site i wa = (Inr (), w)"
    and kept: "\<And>q. not_tmp q \<Longrightarrow> q \<noteq> key_path base \<Longrightarrow> q \<noteq> meta_path base \<Longrightarrow> w_files w' q = w_files w q"
  shows "\<exists>e. fis_dto_at D (fis_new rb) w' site = Inl e"
proof -
  have "root_base rb = root_base ra" by (simp add: assms(1,2))
  from fis_apply_wrong_key [OF sep this new i a] obtain e where
    e: "fis_dto_at D (fis_new rb) w site = Inl e" by blast
  have "w_files w' (fis_path D (fis_new rb) site) = w_files w (fis_path D (fis_new rb) site)"
    by (rule kept [OF fis_path_facts(3) fis_path_not_key [OF assms(1)]])
  from fis_files(1) [OF this] e show ?thesis by simp
qed

text \<open>An opening is the look for the key file and then what follows from it.\<close>

lemma open_integrity_prog:
  "p_open_integrity D base =
     after (p_bind (p_ensure_dirs base) (\<lambda>_. p_read_file_opt (key_path base)))
       (\<lambda>r. case r of Inl e \<Rightarrow> Ret (Inl e) | Inr found \<Rightarrow> p_open_with D base found)"
  unfolding p_open_integrity_def p_bind_def after_assoc
  by (intro arg_cong2 [where f = after] refl ext) (simp split: sum.split)

lemma racing_opens:
  assumes D: "store_deps_ok D" and ens: "ensure_dirs base w = (Inr (), wb)"
    and read: "read_file_opt (key_path base) wb = (Inr None, w1)"
    and opened: "open_integrity D base w1 = (Inr ra, wa)"
    and new: "w_files w (fis_path D (fis_new ra) site) = None" and i: "i \<noteq> None_intent"
    and a: "fis_apply D (fis_new ra) site i wa = (Inr (), w2)"
    and late: "run (p_open_with D base None) w2 = (Inr rb, w3)"
    and sep: "hmac_separates D (key (root_protector ra)) (key (root_protector rb))"
  shows "\<exists>sched. exec sched [open_then_apply D base site i, p_open_integrity D base] w =
        ([Ret (Inr ra), Ret (Inr rb)], w3)"
    and "\<exists>f. w_files w3 (key_path base) = Some f \<and> contents f = key (root_protector rb)"
    and "\<exists>e. fis_dto_at D (fis_new rb) w3 site = Inl e"
proof -
  have R: "root_deps_ok D" and P: "protect_deps_ok D"
    using D by (simp_all add: store_deps_ok_def root_deps_ok_def)
  have "run (p_bind (p_ensure_dirs base) (\<lambda>_. p_read_file_opt (key_path base))) w = (Inr None, w1)"
    using ens read by (simp add: runs act_bind_def)
  from exec_overtaken [OF this run_then_apply [OF opened [folded run_open] a]] late
  show "\<exists>sched. exec sched [open_then_apply D base site i, p_open_integrity D base] w =
        ([Ret (Inr ra), Ret (Inr rb)], w3)"
    unfolding open_integrity_prog open_then_apply_def by simp
  note facts = open_with_none_facts [OF R late]
  show "\<exists>f. w_files w3 (key_path base) = Some f \<and> contents f = key (root_protector rb)"
    using facts(1) by auto
  have ra: "root_base ra = base" "\<exists>k. root_protector ra = Integrity_protector k"
    using opened by (auto simp: open_integrity_def action_elims)
  have apart: "seals_apart D (root_protector ra) (root_protector rb)"
    using seals_apart_hmac [OF P sep] ra(2) facts(1) by auto
  have "w_files wa (fis_path D (fis_new ra) site) = w_files w1 (fis_path D (fis_new ra) site)"
    by (rule keepsD [OF open_integrity_keeps [OF P fis_path_facts(3) fis_path_not_key [OF ra(1)]] opened])
  also have "\<dots> = None"
    using new ensure_dirs_touches [OF ens] read_file_opt_result(2) [OF read]
    by (simp add: touches_nothing)
  finally have unwritten: "w_files wa (fis_path D (fis_new ra) site) = None" .
  show "\<exists>e. fis_dto_at D (fis_new rb) w3 site = Inl e"
    by (rule overtaken_opening [OF facts(2) ra(1) apart unwritten i a]) (rule facts(3))
qed

section \<open>Two first openings in Encrypted mode\<close>

text \<open>
  The same with the salt: each first opening makes one, and the metadata keep the later.
\<close>

lemma open_salted_none_facts:
  assumes D: "root_deps_ok D" and o: "run (p_open_salted D base pass None) w = (Inr root, w')"
  shows "root_base root = base" and "\<exists>k. root_protector root = Encrypted_protector k"
    and "keyed D \<lparr>su_feature = True, su_base = base, su_protection = Encrypted,
      su_passphrase = Some pass\<rparr> root w'"
    and "not_tmp q \<Longrightarrow> q \<noteq> meta_path base \<Longrightarrow> w_files w' q = w_files w q"
proof -
  have P: "protect_deps_ok D" using D by (simp add: root_deps_ok_def)
  let ?m = "\<lambda>salt. \<lparr>meta_v = META_V, meta_protection = Encrypted_tag,
      meta_salt_b64 = Some (b64_encode D salt)\<rparr>"
  from o obtain salt w1 k where g: "getrandom 16 w = (Inr salt, w1)"
    and wm: "write_meta D base (?m salt) w1 = (Inr (), w')" and k: "derive_key D pass salt = Inr k"
    and root: "root = \<lparr>root_base = base, root_protector = Encrypted_protector k\<rparr>"
    by (auto simp: run_open_salted run_make_salt action_elims)
  show "root_base root = base" "\<exists>k. root_protector root = Encrypted_protector k"
    by (simp_all add: root)
  from wm obtain b where b: "to_vec (meta_codec D) (?m salt) = Inr b"
    and wa: "write_atomic D (meta_path base) b w1 = (Inr (), w')"
    by (auto simp: write_meta_def action_elims result_inv)
  have "from_slice (meta_codec D) b = Inr (?m salt)"
    using D b by (simp add: root_deps_ok_def codec_ok_def)
  moreover have "b64_decode D (b64_encode D salt) = Inr salt"
    using P by (simp add: protect_deps_ok_def)
  moreover obtain f where "w_files w' (meta_path base) = Some f" "contents f = b"
    using write_atomic_Ok [OF wa] by auto
  ultimately show "keyed D \<lparr>su_feature = True, su_base = base, su_protection = Encrypted,
      su_passphrase = Some pass\<rparr> root w'"
    using k by (auto simp: keyed_def root)
  show "w_files w' q = w_files w q" if "not_tmp q" "q \<noteq> meta_path base"
  proof -
    have "w_files w' q = w_files w1 q"
      by (rule keepsD [OF keeps_write_atomic wa]) (use P that in simp_all)
    with getrandom_files [OF g] show ?thesis by simp
  qed
qed

lemma open_encrypted_prog:
  "p_open_encrypted D base pass =
     after (p_bind (p_ensure_dirs base) (\<lambda>_. p_read_meta D base))
       (\<lambda>r. case r of Inl e \<Rightarrow> Ret (Inl e) | Inr found \<Rightarrow> p_open_salted D base pass found)"
  unfolding p_open_encrypted_def p_bind_def after_assoc
  by (intro arg_cong2 [where f = after] refl ext) (simp split: sum.split)

lemma racing_encrypted_opens:
  assumes D: "store_deps_ok D" and ens: "ensure_dirs base w = (Inr (), wb)"
    and read: "read_meta D base wb = (Inr None, w1)"
    and opened: "open_encrypted D base pass w1 = (Inr ra, wa)"
    and new: "w_files w (fis_path D (fis_new ra) site) = None" and i: "i \<noteq> None_intent"
    and a: "fis_apply D (fis_new ra) site i wa = (Inr (), w2)"
    and late: "run (p_open_salted D base pass None) w2 = (Inr rb, w3)"
    and sep: "aead_separates D (key (root_protector ra)) (key (root_protector rb))"
  shows "\<exists>sched. exec sched [then_apply D (p_open_encrypted D base pass) site i,
          p_open_encrypted D base pass] w = ([Ret (Inr ra), Ret (Inr rb)], w3)"
    and "keyed D \<lparr>su_feature = True, su_base = base, su_protection = Encrypted,
          su_passphrase = Some pass\<rparr> rb w3"
    and "\<exists>e. fis_dto_at D (fis_new rb) w3 site = Inl e"
proof -
  have R: "root_deps_ok D" and P: "protect_deps_ok D"
    using D by (simp_all add: store_deps_ok_def root_deps_ok_def)
  have "run (p_bind (p_ensure_dirs base) (\<lambda>_. p_read_meta D base)) w = (Inr None, w1)"
    using ens read by (simp add: runs act_bind_def)
  from exec_overtaken [OF this run_then_apply [OF opened [folded run_open_encrypted] a]] late
  show "\<exists>sched. exec sched [then_apply D (p_open_encrypted D base pass) site i,
          p_open_encrypted D base pass] w = ([Ret (Inr ra), Ret (Inr rb)], w3)"
    unfolding open_encrypted_prog by simp
  note facts = open_salted_none_facts [OF R late]
  show "keyed D \<lparr>su_feature = True, su_base = base, su_protection = Encrypted,
          su_passphrase = Some pass\<rparr> rb w3" by (rule facts(3))
  have ra: "root_base ra = base" "\<exists>k. root_protector ra = Encrypted_protector k"
    using opened by (cases rule: open_encrypted_run; simp)+
  have apart: "seals_apart D (root_protector ra) (root_protector rb)"
    using seals_apart_aead [OF P sep] ra(2) facts(2) by auto
  have "w_files wa (fis_path D (fis_new ra) site) = w_files w1 (fis_path D (fis_new ra) site)"
    by (rule keepsD [OF open_encrypted_keeps [OF P fis_path_facts(3) fis_path_not_key(2) [OF ra(1)]] opened])
  also have "\<dots> = None"
    using new ensure_dirs_touches [OF ens] read_meta_touches [OF read]
    by (simp add: touches_nothing)
  finally have unwritten: "w_files wa (fis_path D (fis_new ra) site) = None" .
  show "\<exists>e. fis_dto_at D (fis_new rb) w3 site = Inl e"
    by (rule overtaken_opening [OF facts(1) ra(1) apart unwritten i a]) (rule facts(4))
qed

end
