(* ===== verification/Windows.thy ===== *)
theory Windows
  imports Races Cli
begin

text \<open>
  The windows of \<open>crates/entangled-client-gui\<close> as clients of the store: what \<open>build\<close>,
  \<open>App::new\<close> and the frames ask of it, each definition beside the one it mirrors, with proofs
  that a window that runs alone does what \<open>App\<close> and \<open>Cli\<close> say. So the results on concurrent
  clients are results on windows that are open at the same time.
\<close>

section \<open>Sequencing\<close>

primrec c_bind ::
  "('on, 'pk, 'ts, 'rk, 'a) client \<Rightarrow> ('a \<Rightarrow> ('on, 'pk, 'ts, 'rk, 'b) client) \<Rightarrow>
   ('on, 'pk, 'ts, 'rk, 'b) client" where
  "c_bind (Stop a) f = f a"
| "c_bind (Do op k) f = Do op (\<lambda>r. c_bind (k r) f)"

fun unit_of :: "('pk, 'ts, 'rk) op_result \<Rightarrow> StoreError + unit" where
  "unit_of (Unit_result r) = r"
| "unit_of _ = Inr ()"

fun identity_of :: "('pk, 'ts, 'rk) op_result \<Rightarrow> StoreError + 'pk RetainedIdentity option" where
  "identity_of (Identity_result r) = r"
| "identity_of _ = Inr None"

fun history_of :: "('pk, 'ts, 'rk) op_result \<Rightarrow> StoreError + ('ts, 'rk) PublisherHistory" where
  "history_of (History_result r) = r"
| "history_of _ = Inr ph_new"

lemma client_prog_bind:
  "client_prog D root (c_bind c f) = after (client_prog D root c) (\<lambda>a. client_prog D root (f a))"
  by (induction c) (simp_all add: after_assoc)

definition client_run ::
  "('on, 'pk, 'ts, 'rk, 'z) store_deps_scheme \<Rightarrow> StoreRoot \<Rightarrow> ('on, 'pk, 'ts, 'rk, 'a) client \<Rightarrow>
   world \<Rightarrow> 'a \<times> world" where
  "client_run D root c w = run (client_prog D root c) w"

lemma client_run_bind:
  "client_run D root (c_bind c f) w = (case client_run D root c w of (a, w') \<Rightarrow> client_run D root (f a) w')"
  by (simp add: client_run_def client_prog_bind run_after)

lemma client_run_simps [simp]:
  "client_run D root (Stop a) w = (a, w)"
  "client_run D root (Do (Load_op site) k) w =
     (case fis_load_identity D (fis_new root) site w of (r, w') \<Rightarrow>
        client_run D root (k (Identity_result r)) w')"
  "client_run D root (Do (Apply_op site i) k) w =
     (case fis_apply D (fis_new root) site i w of (r, w') \<Rightarrow> client_run D root (k (Unit_result r)) w')"
  "client_run D root (Do (Load_history_op p) k) w =
     (case fhs_load_history D (fhs_new root) p w of (h, w') \<Rightarrow>
        client_run D root (k (History_result h)) w')"
  "client_run D root (Do (Append_op p x) k) w =
     (case fhs_append_record D (fhs_new root) p x w of (r, w') \<Rightarrow>
        client_run D root (k (Unit_result r)) w')"
  by (simp_all add: client_run_def run_after run_load run_apply run_history run_append split: prod.split)

section \<open>The window\<close>

definition c_persist ::
  "('pk, 'rk, 'ts, 'on, 'p, 'sh) App \<Rightarrow> 'pk PersistenceIntent \<Rightarrow>
   ('on, 'pk, 'ts, 'rk, StoreError + unit) client" where
  "c_persist app intent =
     Do (Apply_op (ld_site (app_loaded app)) intent) (\<lambda>r. case unit_of r of
       Inl e \<Rightarrow> Stop (Inl e)
     | Inr _ \<Rightarrow>
         (case intent_publisher intent of
            None \<Rightarrow> Stop (Inr ())
          | Some publisher \<Rightarrow>
              (case ld_record (app_loaded app) of
                 Some record \<Rightarrow> Do (Append_op publisher record) (\<lambda>r. Stop (unit_of r))
               | None \<Rightarrow> Stop (Inr ()))))"

definition c_persist_and_reload ::
  "string \<Rightarrow> 'pk PersistenceIntent \<Rightarrow> ('pk, 'rk, 'ts, 'on, 'p, 'sh) App \<Rightarrow>
   ('on, 'pk, 'ts, 'rk, ('pk, 'rk, 'ts, 'on, 'p, 'sh) App \<times> ustring list) client" where
  "c_persist_and_reload msg intent app =
     c_bind (c_persist app intent) (\<lambda>r.
     Do (Load_op (ld_site (app_loaded app))) (\<lambda>l. Stop
          ((case identity_of l of
              Inr retained \<Rightarrow> app\<lparr>app_loaded := (app_loaded app)\<lparr>ld_retained := retained\<rparr>\<rparr>
            | Inl _ \<Rightarrow> app),
           (case r of Inl e \<Rightarrow> [lit msg @ store_error_display e] | Inr _ \<Rightarrow> []) @
           (case identity_of l of Inl e \<Rightarrow>
              [lit ''error: reloading retained identity: '' @ store_error_display e] | Inr _ \<Rightarrow> []))))"

definition c_app_new ::
  "('pk \<Rightarrow> ustring) \<Rightarrow> ('pk, 'rk, 'ts, 'on, 'p, 'sh) Loaded \<Rightarrow> StoreHandle \<Rightarrow>
   ('on, 'pk, 'ts, 'rk, ('pk, 'rk, 'ts, 'on, 'p, 'sh) App \<times> ustring list) client" where
  "c_app_new pip_of loaded store =
     (case prompts_for pip_of loaded of (pin_prompt, mismatch_prompt) \<Rightarrow>
        c_persist_and_reload ''error: persisting first-contact observation: ''
          (ld_initial_intent loaded)
          \<lparr>app_loaded = loaded, app_store = store, app_handoff = None,
           app_canary_override = False, app_pin_prompt = pin_prompt,
           app_mismatch_prompt = mismatch_prompt\<rparr>)"

definition c_apply_and_persist ::
  "('pk \<Rightarrow> ustring) \<Rightarrow> UserDecision \<Rightarrow> ('pk, 'rk, 'ts, 'on, 'p, 'sh) App \<Rightarrow>
   ('on, 'pk, 'ts, 'rk, ('pk, 'rk, 'ts, 'on, 'p, 'sh) App \<times> ustring list) client" where
  "c_apply_and_persist pip_of decision app =
     (case apply_decision pip_of decision (app_loaded app) of (intent, loaded) \<Rightarrow>
      c_bind (c_persist_and_reload ''error: persisting trust decision: '' intent
             (app\<lparr>app_loaded := loaded\<rparr>)) (\<lambda>(app, msgs).
      Stop (app\<lparr>app_pin_prompt := None, app_mismatch_prompt := None\<rparr>, msgs)))"

text \<open>The rest of a frame, once the decision has been dealt with.\<close>

definition frame_rest ::
  "frame_input \<Rightarrow> widget list \<Rightarrow> ('pk, 'rk, 'ts, 'on, 'p, 'sh) App \<times> ustring list \<Rightarrow>
   frame_output \<times> ('pk, 'rk, 'ts, 'on, 'p, 'sh) App" where
  "frame_rest inp chrome_widgets am =
     (case am of (app, msgs) \<Rightarrow>
      case draw_content inp app of (content_widgets, requested, override_clicked) \<Rightarrow>
      let app = (if override_clicked then app\<lparr>app_canary_override := True\<rparr> else app);
          app = (case requested of Some target \<Rightarrow> app\<lparr>app_handoff := Some target\<rparr> | None \<Rightarrow> app)
      in case show_handoff inp (app_handoff app) of (window, copied, handoff) \<Rightarrow>
           (\<lparr>fo_chrome = chrome_widgets, fo_content = content_widgets, fo_window = window,
             fo_copied = copied, fo_messages = msgs\<rparr>, app\<lparr>app_handoff := handoff\<rparr>))"

definition c_update ::
  "('pk \<Rightarrow> ustring) \<Rightarrow> frame_input \<Rightarrow> ('pk, 'rk, 'ts, 'on, 'p, 'sh) App \<Rightarrow>
   ('on, 'pk, 'ts, 'rk, frame_output \<times> ('pk, 'rk, 'ts, 'on, 'p, 'sh) App) client" where
  "c_update pip_of inp app =
     (case draw_action_panel inp app (None, False) of (panel, chrome_decision, chrome_decline) \<Rightarrow>
      c_bind (case chrome_decision of
                 Some d \<Rightarrow> c_apply_and_persist pip_of d app
               | None \<Rightarrow> Stop
                   (if chrome_decline then app\<lparr>app_pin_prompt := None, app_mismatch_prompt := None\<rparr>
                    else app, []))
        (\<lambda>am. Stop (frame_rest inp (draw_chrome (ld_chrome (app_loaded app)) @ panel) am)))"

fun c_app_run ::
  "('pk \<Rightarrow> ustring) \<Rightarrow> frame_input list \<Rightarrow> ('pk, 'rk, 'ts, 'on, 'p, 'sh) App \<Rightarrow>
   ('on, 'pk, 'ts, 'rk, frame_output list \<times> ('pk, 'rk, 'ts, 'on, 'p, 'sh) App) client" where
  "c_app_run pip_of [] app = Stop ([], app)"
| "c_app_run pip_of (inp # inps) app =
     c_bind (c_update pip_of inp app) (\<lambda>(out, app).
     c_bind (c_app_run pip_of inps app) (\<lambda>(outs, app). Stop (out # outs, app)))"

text \<open>\<open>build\<close> from the bytes of the documents on, and the window that follows.\<close>

definition c_build ::
  "('m, 'pk, 'rk, 'ts, 'on, 'ci, 'cd, 'st, 'p, 'sh, 'y) gui_core_scheme \<Rightarrow>
   ('pk, 'ts, 'on, 'j) cli_api \<Rightarrow> bytes \<Rightarrow> bytes option \<Rightarrow> ustring \<Rightarrow>
   ('on, 'pk, 'ts, 'rk, failure + ('pk, 'rk, 'ts, 'on, 'p, 'sh) Loaded) client" where
  "c_build C A manifest_bytes content_bytes onion =
     (case map_err (\<lambda>e. Message (lit ''invalid onion address: '' @ e)) (onion_try_from A onion) of
        Inl f \<Rightarrow> Stop (Inl f)
      | Inr address \<Rightarrow>
     (case fixed_clock A of
        Inl f \<Rightarrow> Stop (Inl f)
      | Inr clock \<Rightarrow> Do (Load_op address) (\<lambda>r.
     (case map_err (\<lambda>e. Message (lit ''loading retained identity: '' @ store_error_display e))
             (identity_of r) of
        Inl f \<Rightarrow> Stop (Inl f)
      | Inr retained \<Rightarrow>
     (case peek_publisher_pubkey A manifest_bytes of
        Inl f \<Rightarrow> Stop (Inl f)
      | Inr publisher \<Rightarrow> Do (Load_history_op publisher) (\<lambda>h. Stop
          (result_bind (map_err (\<lambda>e. Message (lit ''loading publisher history: '' @ store_error_display e))
             (history_of h)) (\<lambda>history.
           map_err (\<lambda>e. Message (load_error_display e))
             (load C manifest_bytes content_bytes address onion fixed_now clock retained history)))))))))"

record session =
  se_manifest :: bytes
  se_content :: "bytes option"
  se_onion :: ustring
  se_frames :: "frame_input list"

definition c_session ::
  "('m, 'pk, 'rk, 'ts, 'on, 'ci, 'cd, 'st, 'p, 'sh, 'y) gui_core_scheme \<Rightarrow>
   ('pk, 'ts, 'on, 'j) cli_api \<Rightarrow> StoreRoot \<Rightarrow> session \<Rightarrow>
   ('on, 'pk, 'ts, 'rk, failure + frame_output list \<times> ('pk, 'rk, 'ts, 'on, 'p, 'sh) App) client" where
  "c_session C A root s =
     c_bind (c_build C A (se_manifest s) (se_content s) (se_onion s)) (\<lambda>built. case built of
         Inl f \<Rightarrow> Stop (Inl f)
       | Inr loaded \<Rightarrow>
           c_bind (c_app_new (derive_pip C) loaded (store_handle_open root)) (\<lambda>(app, msgs).
           c_bind (c_app_run (derive_pip C) (se_frames s) app) (\<lambda>r. Stop (Inr r))))"

section \<open>A window that runs alone\<close>

lemma client_run_persist:
  assumes "app_store app = store_handle_open root"
  shows "client_run D root (c_persist app i) w = app_persist D app i w"
  using assms
  by (auto simp: c_persist_def app_persist_def store_handle_open_def act_bind_def act_return_def
      split: prod.split sum.split option.split)

lemma client_run_persist_and_reload:
  assumes "app_store app = store_handle_open root"
  shows "client_run D root (c_persist_and_reload msg i app) w =
    (case persist_and_reload D msg i app w of (app', msgs, w') \<Rightarrow> ((app', msgs), w'))"
  using assms
  by (auto simp: c_persist_and_reload_def persist_and_reload_def client_run_bind
      client_run_persist [OF assms] store_handle_open_def split: prod.split sum.split)

lemma persist_and_reload_store:
  "persist_and_reload D msg i app w = (app', msgs, w') \<Longrightarrow> app_store app' = app_store app"
  by (auto simp: persist_and_reload_def split: prod.splits sum.splits)

lemma client_run_app_new:
  "client_run D root (c_app_new pip_of l (store_handle_open root)) w =
    (case app_new D pip_of l (store_handle_open root) w of (app', msgs, w') \<Rightarrow> ((app', msgs), w'))"
  by (auto simp: c_app_new_def app_new_def client_run_persist_and_reload split: prod.split)

lemma client_run_apply_and_persist:
  assumes "app_store app = store_handle_open root"
  shows "client_run D root (c_apply_and_persist pip_of d app) w =
    (case apply_and_persist D pip_of d app w of (app', msgs, w') \<Rightarrow> ((app', msgs), w'))"
  using assms
  by (auto simp: c_apply_and_persist_def apply_and_persist_def client_run_bind
      client_run_persist_and_reload split: prod.split)

lemma client_run_update:
  assumes "app_store app = store_handle_open root"
  shows "client_run D root (c_update pip_of inp app) w =
    (case update D pip_of inp app w of (out, app', w') \<Rightarrow> ((out, app'), w'))"
proof -
  obtain panel d dec where pan: "draw_action_panel inp app (None, False) = (panel, d, dec)"
    by (cases "draw_action_panel inp app (None, False)") auto
  show ?thesis
  proof (cases d)
    case None
    show ?thesis by (simp add: c_update_def update_def pan None frame_rest_def Let_def split: prod.split)
  next
    case (Some x)
    show ?thesis
      by (simp add: c_update_def update_def pan Some frame_rest_def Let_def client_run_bind
          client_run_apply_and_persist [OF assms] split: prod.split)
  qed
qed

lemma update_store:
  assumes "update D pip_of inp app w = (out, app', w')"
  shows "app_store app' = app_store app"
  using assms
proof (cases rule: update_run)
  case (decided d app1)
  then show ?thesis
    by (auto simp: apply_and_persist_def dest!: persist_and_reload_store split: prod.splits)
qed

lemma client_run_app_run:
  "app_store app = store_handle_open root \<Longrightarrow>
   client_run D root (c_app_run pip_of inps app) w =
    (case app_run D pip_of inps app w of (outs, app', w') \<Rightarrow> ((outs, app'), w'))"
proof (induction inps arbitrary: app w)
  case (Cons inp inps)
  obtain out app1 w1 where u: "update D pip_of inp app w = (out, app1, w1)"
    by (cases "update D pip_of inp app w") auto
  with Cons.prems have "app_store app1 = store_handle_open root" by (simp add: update_store)
  from Cons.IH [OF this] show ?case
    by (simp add: client_run_bind client_run_update [OF Cons.prems] u split: prod.split)
qed simp

lemma build_reads:
  "build C D A mp onion cp (store_handle_open root) =
     act_bind (act_map_err (\<lambda>e. Message (lit ''reading manifest: '' @ io_display e)) (fs_read mp)) (\<lambda>mb.
     act_bind (case cp of
         Some p \<Rightarrow> act_bind (act_map_err (\<lambda>e. Message (lit ''reading content: '' @ io_display e))
           (fs_read p)) (\<lambda>b. act_return (Some b))
       | None \<Rightarrow> act_return None) (\<lambda>cb.
     client_run D root (c_build C A mb cb onion)))"
  unfolding build_def
  by (intro arg_cong2 [where f = act_bind] refl ext)
    (auto simp: c_build_def act_bind_def act_lift_def act_map_err_def store_handle_open_def
      result_bind_def split: sum.split prod.split)

lemma client_run_session:
  assumes "client_run D root (c_build C A (se_manifest s) (se_content s) (se_onion s)) w = (Inr l, w1)"
    and "app_new D (derive_pip C) l (store_handle_open root) w1 = (app, msgs, w2)"
    and "app_run D (derive_pip C) (se_frames s) app w2 = (outs, app', w3)"
  shows "client_run D root (c_session C A root s) w = (Inr (outs, app'), w3)"
proof -
  have "app_store app = store_handle_open root"
    using assms(2) by (auto simp: app_new_def dest!: persist_and_reload_store split: prod.splits)
  then show ?thesis
    using assms by (simp add: c_session_def client_run_bind client_run_app_new client_run_app_run)
qed

section \<open>What a window may write\<close>

primrec client_post ::
  "('on \<Rightarrow> 'pk set) \<Rightarrow> ('pk \<Rightarrow> ('ts, 'rk) RetainedManifestRecord set) \<Rightarrow> ('a \<Rightarrow> bool) \<Rightarrow>
   ('on, 'pk, 'ts, 'rk, 'a) client \<Rightarrow> bool" where
  "client_post K H P (Stop a) = P a"
| "client_post K H P (Do op k) =
     (op_within K H op \<and> (\<forall>r. result_within K H op r \<longrightarrow> client_post K H P (k r)))"

lemma client_post_within: "client_post K H P c \<Longrightarrow> client_within K H c"
  by (induction c) auto

lemma client_post_bind:
  "client_post K H P c \<Longrightarrow> (\<And>a. P a \<Longrightarrow> client_post K H R (f a)) \<Longrightarrow> client_post K H R (c_bind c f)"
  by (induction c) auto

lemma result_cases:
  "result_within K H (Load_op site) r \<Longrightarrow> \<exists>x. r = Identity_result x \<and>
     (\<forall>y. x = Inr y \<longrightarrow> (\<forall>i. y = Some i \<longrightarrow> pubkey i \<in> K site))"
  "result_within K H (Load_history_op p) r \<Longrightarrow> \<exists>x. r = History_result x"
  "result_within K H (Apply_op site i) r \<Longrightarrow> \<exists>x. r = Unit_result x"
  "result_within K H (Append_op p z) r \<Longrightarrow> \<exists>x. r = Unit_result x"
  by (cases r; simp add: ok_with_def split: sum.splits)+

text \<open>The keys of an application's document, and the record it would append.\<close>

definition loaded_within ::
  "('on \<Rightarrow> 'pk set) \<Rightarrow> ('pk \<Rightarrow> ('ts, 'rk) RetainedManifestRecord set) \<Rightarrow>
   ('pk, 'rk, 'ts, 'on, 'p, 'sh) Loaded \<Rightarrow> bool" where
  "loaded_within K H l \<longleftrightarrow>
     ld_publisher l \<in> K (ld_site l) \<and>
     (\<forall>r. ld_retained l = Some r \<longrightarrow> pubkey r \<in> K (ld_site l)) \<and>
     (\<forall>x. ld_record l = Some x \<longrightarrow> record_ok x \<and> x \<in> H (ld_publisher l))"

lemma resolve_keys:
  "set (intent_keys (res_intent (resolve k ret d))) \<subseteq> insert k (case ret of None \<Rightarrow> {} | Some r \<Rightarrow> {pubkey r})"
  "intent_publisher (res_intent (resolve k ret d)) = Some q \<Longrightarrow> q = k"
  by (cases d; auto simp: resolve_def matched_def split: option.splits if_splits RetainedProvenance.splits)+

lemma post_persist_and_reload:
  assumes l: "loaded_within K H (app_loaded app)"
    and i: "i = res_intent (resolve (ld_publisher (app_loaded app)) (ld_retained (app_loaded app)) d)"
  shows "client_post K H (\<lambda>(app', msgs). loaded_within K H (app_loaded app')) (c_persist_and_reload msg i app)"
proof -
  let ?l = "app_loaded app"
  have keys: "set (intent_keys i) \<subseteq> K (ld_site ?l)"
    using l resolve_keys(1) [of "ld_publisher ?l" "ld_retained ?l" d]
    by (auto simp: loaded_within_def i split: option.splits)
  have "op_within K H (Append_op q x)" if "intent_publisher i = Some q" "ld_record ?l = Some x" for q x
    using l resolve_keys(2) [of "ld_publisher ?l" "ld_retained ?l" d q] that
    by (auto simp: loaded_within_def i)
  then have persist: "client_post K H (\<lambda>_. True) (c_persist app i)"
    using keys by (auto simp: c_persist_def split: sum.split option.split dest!: result_cases(3))
  show ?thesis
    unfolding c_persist_and_reload_def
  proof (rule client_post_bind [OF persist])
    fix r :: "StoreError + unit"
    show "client_post K H (\<lambda>(app', msgs). loaded_within K H (app_loaded app'))
      (Do (Load_op (ld_site ?l)) (\<lambda>x. Stop
          ((case identity_of x of
              Inr retained \<Rightarrow> app\<lparr>app_loaded := ?l\<lparr>ld_retained := retained\<rparr>\<rparr>
            | Inl _ \<Rightarrow> app),
           (case r of Inl e \<Rightarrow> [lit msg @ store_error_display e] | Inr _ \<Rightarrow> []) @
           (case identity_of x of Inl e \<Rightarrow>
              [lit ''error: reloading retained identity: '' @ store_error_display e] | Inr _ \<Rightarrow> []))))"
      using l by (auto simp: loaded_within_def split: sum.split dest!: result_cases(1))
  qed
qed

lemma post_update:
  assumes l: "loaded_within K H (app_loaded app)"
  shows "client_post K H (\<lambda>(out, app'). loaded_within K H (app_loaded app')) (c_update pip_of inp app)"
proof -
  have dec: "client_post K H (\<lambda>(app', msgs). loaded_within K H (app_loaded app')) (c_apply_and_persist pip_of d app)" for d
  proof -
    obtain i l' where ad: "apply_decision pip_of d (app_loaded app) = (i, l')"
      by (cases "apply_decision pip_of d (app_loaded app)")
    then have i: "i = res_intent (resolve (ld_publisher l') (ld_retained l') d)"
      and l': "loaded_within K H l'"
      using l by (auto simp: apply_decision_def Let_def loaded_within_def)
    from post_persist_and_reload [where app = "app\<lparr>app_loaded := l'\<rparr>" and i = i and d = d] i l'
    have p: "client_post K H (\<lambda>(app', msgs). loaded_within K H (app_loaded app'))
        (c_persist_and_reload ''error: persisting trust decision: '' i (app\<lparr>app_loaded := l'\<rparr>))" by simp
    show ?thesis
      by (simp add: c_apply_and_persist_def ad) (rule client_post_bind [OF p]; auto)
  qed
  have rest: "app_loaded app'' = app_loaded app'" if "frame_rest inp ws (app', msgs) = (out, app'')"
    for ws app' msgs out app''
    using that by (auto simp: frame_rest_def Let_def split: prod.splits option.splits if_splits)
  obtain panel d x where pan: "draw_action_panel inp app (None, False) = (panel, d, x)"
    by (cases "draw_action_panel inp app (None, False)") auto
  show ?thesis
    unfolding c_update_def pan prod.case
  proof (rule client_post_bind)
    show "client_post K H (\<lambda>(app', msgs). loaded_within K H (app_loaded app'))
        (case d of Some d \<Rightarrow> c_apply_and_persist pip_of d app | None \<Rightarrow> Stop
          (if x then app\<lparr>app_pin_prompt := None, app_mismatch_prompt := None\<rparr> else app, []))"
      using dec l by (cases d) auto
  qed (auto split: prod.splits dest!: rest)
qed

lemma post_app_run:
  "loaded_within K H (app_loaded app) \<Longrightarrow> client_post K H (\<lambda>_. True) (c_app_run pip_of inps app)"
proof (induction inps arbitrary: app)
  case (Cons inp inps)
  show ?case
    unfolding c_app_run.simps
    by (rule client_post_bind [OF post_update [OF Cons.prems]])
      (auto split: prod.splits intro!: client_post_bind [OF Cons.IH])
qed simp

lemma post_app_new:
  assumes "loaded_within K H l"
    and "ld_initial_intent l = res_intent (resolve (ld_publisher l) (ld_retained l) None_decision)"
  shows "client_post K H (\<lambda>(app', msgs). loaded_within K H (app_loaded app')) (c_app_new pip_of l store)"
  using assms by (auto simp: c_app_new_def split: prod.split intro: post_persist_and_reload)

text \<open>
  What \<open>K\<close> and \<open>H\<close> must allow for a session: the key of the manifest at the site, and the
  record it is accepted with.
\<close>

definition session_within ::
  "('m, 'pk, 'rk, 'ts, 'on, 'ci, 'cd, 'st, 'p, 'sh, 'y) gui_core_scheme \<Rightarrow>
   ('pk, 'ts, 'on, 'j) cli_api \<Rightarrow> ('on \<Rightarrow> 'pk set) \<Rightarrow>
   ('pk \<Rightarrow> ('ts, 'rk) RetainedManifestRecord set) \<Rightarrow> session \<Rightarrow> bool" where
  "session_within C A K H s \<longleftrightarrow>
     (\<forall>site now m cs ix. onion_try_from A (se_onion s) = Inr site \<longrightarrow>
        chain_passes C (se_manifest s) site None now (m, cs, ix) \<longrightarrow>
        manifest_publisher_pubkey C m \<in> K site \<and>
        (\<forall>x. record_for C m = Some x \<longrightarrow> record_ok x \<and> x \<in> H (manifest_publisher_pubkey C m)))"

lemma post_build:
  assumes s: "session_within C A K H s"
  shows "client_post K H (\<lambda>r. \<forall>l. r = Inr l \<longrightarrow> loaded_within K H l \<and>
      ld_initial_intent l = res_intent (resolve (ld_publisher l) (ld_retained l) None_decision))
    (c_build C A (se_manifest s) (se_content s) (se_onion s))"
proof -
  have ok: "loaded_within K H l \<and>
      ld_initial_intent l = res_intent (resolve (ld_publisher l) (ld_retained l) None_decision)"
    if a: "onion_try_from A (se_onion s) = Inr site" and ret: "\<forall>i. ret = Some i \<longrightarrow> pubkey i \<in> K site"
      and l: "load C (se_manifest s) cb site addr fixed_now clk ret h = Inr l"
    for site ret cb addr clk h l
  proof -
    from load_Ok [OF l] obtain m cs ix where c: "chain_passes C (se_manifest s) site None (fixed_now clk) (m, cs, ix)"
      and p: "ld_publisher l = manifest_publisher_pubkey C m" "ld_record l = record_for C m"
        "ld_site l = site" "ld_retained l = ret"
      by (auto simp: load_spec_def)
    with s a ret load_resolution [OF l] show ?thesis by (auto simp: session_within_def loaded_within_def)
  qed
  show ?thesis
    unfolding c_build_def
    by (auto simp: result_inv dest!: result_cases(1,2) split: sum.split) (blast dest: ok)+
qed

lemma session_client_within:
  assumes "session_within C A K H s"
  shows "client_within K H (c_session C A root s)"
proof (rule client_post_within)
  show "client_post K H (\<lambda>_. True) (c_session C A root s)"
    unfolding c_session_def
    by (rule client_post_bind [OF post_build [OF assms]])
      (auto split: sum.split prod.split intro!: client_post_bind [OF post_app_new]
        client_post_bind [OF post_app_run])
qed

end
