(* ===== verification/Pin_Publisher.thy ===== *)
theory Pin_Publisher
  imports Windows
begin

text \<open>
  The helper \<open>crates/entangled-client-gui/examples/pin_publisher.rs\<close>, which pins the fixture
  publisher for a site without a window: its arguments, the opening of the store in Integrity
  mode and the one \<open>apply\<close>. \<open>key\<close> is the verifying key of the fixture's seed. A failing
  \<open>expect\<close> is a panic with its message.
\<close>

definition pin_usage :: ustring where
  "pin_usage = lit ''usage: pin_publisher <store-dir> <onion-address> [verified]''"

definition pin_publisher ::
  "('on, 'pk, 'ts, 'rk, 'z) store_deps_scheme \<Rightarrow> ('pk, 'ts, 'on, 'j) cli_api \<Rightarrow> bool \<Rightarrow> 'pk \<Rightarrow>
   ustring list \<Rightarrow> world \<Rightarrow> main_result \<times> world" where
  "pin_publisher D A feature_encrypted publisher args w =
     (case args of
        store_dir # onion # rest \<Rightarrow>
          (let verified = (case rest of [] \<Rightarrow> False | s # _ \<Rightarrow> s = lit ''verified'')
           in case onion_try_from A onion of
                Inl e \<Rightarrow> (exits EXIT_PANIC [lit ''valid onion''], w)
              | Inr site \<Rightarrow>
                  (case root_open D feature_encrypted (path_from store_dir) Integrity None w of
                     (Inl e, w1) \<Rightarrow> (exits EXIT_PANIC [lit ''open store''], w1)
                   | (Inr root, w1) \<Rightarrow>
                       (let intent = (if verified then MarkExternallyVerified publisher
                                      else PinIdentity publisher)
                        in case fis_apply D (fis_new root) site intent w1 of
                             (Inl e, w2) \<Rightarrow> (exits EXIT_PANIC [lit ''apply pin''], w2)
                           | (Inr _, w2) \<Rightarrow>
                               (exits EXIT_SUCCESS [lit ''pinned publisher '' @ pk_display D publisher @
                                  lit '' for site '' @ on_display D site @ lit '' ('' @
                                  (if verified then lit ''externally verified'' else lit ''TOFU'') @
                                  lit '')''], w2))))
      | _ \<Rightarrow> (exits EXIT_PANIC [pin_usage], w))"

text \<open>
  What it leaves: the site's record as the intent makes it, and, unlike the window's button,
  no entry in the publisher's history.
\<close>

lemma pin_publisher_run:
  assumes "pin_publisher D A fe publisher args w = (r, w')" and "mr_exit r = EXIT_SUCCESS"
  obtains dir onion rest site root w1 intent where "args = dir # onion # rest"
    "onion_try_from A onion = Inr site" "open_integrity D (path_from dir) w = (Inr root, w1)"
    "intent = (if rest \<noteq> [] \<and> hd rest = lit ''verified'' then MarkExternallyVerified publisher
       else PinIdentity publisher)"
    "fis_apply D (fis_new root) site intent w1 = (Inr (), w')"
proof -
  note exits = exits_def EXIT_SUCCESS_def EXIT_PANIC_def
  obtain dir onion rest where args: "args = dir # onion # rest"
    using assms by (auto simp: pin_publisher_def exits split: list.splits)
  note run = assms [unfolded args]
  obtain site where site: "onion_try_from A onion = Inr site"
    using run by (cases "onion_try_from A onion") (auto simp: pin_publisher_def exits Let_def)
  obtain q w1 where q: "open_integrity D (path_from dir) w = (q, w1)"
    by (cases "open_integrity D (path_from dir) w")
  obtain root where "q = Inr root"
    using run site q by (cases q) (auto simp: pin_publisher_def exits Let_def)
  with q have o: "open_integrity D (path_from dir) w = (Inr root, w1)" by simp
  let ?i = "if rest \<noteq> [] \<and> hd rest = lit ''verified'' then MarkExternallyVerified publisher
       else PinIdentity publisher"
  obtain u w2 where u: "fis_apply D (fis_new root) site ?i w1 = (u, w2)"
    by (cases "fis_apply D (fis_new root) site ?i w1")
  have intent: "(if (case rest of [] \<Rightarrow> False | s # _ \<Rightarrow> s = lit ''verified'')
      then MarkExternallyVerified publisher else PinIdentity publisher) = ?i"
    by (cases rest) simp_all
  have "fis_apply D (fis_new root) site ?i w1 = (Inr (), w')"
    using run by (cases u) (auto simp: pin_publisher_def exits Let_def site o intent u)
  with args site o show thesis by (intro that [OF _ _ _ refl])
qed

lemma pin_publisher_effect:
  assumes p: "pin_publisher D A fe publisher args w = (r, w')" "mr_exit r = EXIT_SUCCESS"
    and open_inv: "\<And>root w1. open_integrity D (path_from (hd args)) w = (Inr root, w1) \<Longrightarrow>
      fis_inv D (fis_new root) w1"
  shows "\<exists>site root w1 i. open_integrity D (path_from (hd args)) w = (Inr root, w1) \<and>
    (i = PinIdentity publisher \<or> i = MarkExternallyVerified publisher) \<and>
    fis_content D (fis_new root) w' =
      (fis_content D (fis_new root) w1)(site := intent_effect i (fis_content D (fis_new root) w1 site)) \<and>
    fhs_content D (fhs_new root) w' = fhs_content D (fhs_new root) w1"
  using p
proof (cases rule: pin_publisher_run)
  case (1 dir onion rest site root w1 intent)
  have o: "open_integrity D (path_from (hd args)) w = (Inr root, w1)" using 1(1,3) by simp
  from open_inv [OF o] have inv: "fis_inv D (fis_new root) w1" .
  have D: "store_deps_ok D" using inv by (simp add: fis_inv_def)
  have "fhs_content D (fhs_new root) w' = fhs_content D (fhs_new root) w1"
    using fis_apply_keeps_history [OF D 1(5)] by blast
  moreover have "intent = PinIdentity publisher \<or> intent = MarkExternallyVerified publisher"
    using 1(4) by simp
  ultimately show ?thesis using o fis_apply_Ok [OF inv 1(5)] by blast
qed

end
