(* ===== verification/Fixture.thy ===== *)
theory Fixture
  imports Pin_Publisher
begin

text \<open>
  The helper \<open>crates/entangled-client-gui/examples/dump_fixture.rs\<close>, which writes the documents
  the shell is tried out with: a manifest, the same with an expired canary, one of another
  publisher for the same address, and a content document. The types and functions of
  \<open>entangled-core\<close>, SHA3 and BASE32 are parameters; of the core's structures the fields and of
  its enumerations the variants the helper names. A failing \<open>expect\<close> is a panic.
\<close>

section \<open>What the helper builds\<close>

datatype TextMark = Bold_mark | Italic_mark | Code_mark

datatype InlineElement = Text_element ustring "TextMark list"

datatype NoteVariant = Info

datatype CarrierKind = TorV3

datatype LinkTarget = Carrier_target CarrierKind ustring | Citation_target ustring

datatype ('hl, 'sl) Block =
    Heading_block 'hl "InlineElement list"
  | Paragraph_block "InlineElement list"
  | List_block bool "InlineElement list list"
  | Quote_block "InlineElement list" "InlineElement list option"
  | Code_block 'sl ustring
  | Note_block NoteVariant "ustring option" "InlineElement list"
  | Link_block "InlineElement list" LinkTarget

record ('on, 'ok, 'ts) Origin =
  or_carrier :: CarrierKind
  or_address :: 'on
  or_origin_pubkey :: 'ok
  or_not_after :: "'ts option"

record ('rk, 'ct) Canary =
  ca_runtime_pubkey :: 'rk
  ca_issued_at :: 'ct
  ca_next_expected :: 'ct
  ca_statement :: ustring
  ca_freshness_proof :: "unit option"

text \<open>The fields that the helper leaves empty hold values of types it does not name: \<open>unit\<close>.
  \<open>SpecVersion\<close> is a type with one value, its fields are left out.\<close>

record ('pk, 'rk, 'ts, 'ct, 'on, 'ok) UnsignedManifest =
  um_publisher_pubkey :: 'pk
  um_origin :: "('on, 'ok, 'ts) Origin"
  um_canary :: "('rk, 'ct) Canary"
  um_state_policy :: "unit list"
  um_navigation :: "unit list"
  um_min_refresh_interval :: nat
  um_updated :: 'ts
  um_migration_pointer :: "unit option"
  um_content_root :: "unit option"

record ('ep, 'ts, 'hl, 'sl) UnsignedContent =
  uc_path :: 'ep
  uc_title :: ustring
  uc_published_at :: 'ts
  uc_blocks :: "('hl, 'sl) Block list"
  uc_seq :: "unit option"

record ('psk, 'rsk, 'pk, 'rk, 'ts, 'ct, 'on, 'ok, 'ep, 'hl, 'sl, 'm, 'cd) fixture_api =
  publisher_from_seed :: "bytes \<Rightarrow> 'psk"
  publisher_verifying_key :: "'psk \<Rightarrow> 'pk"
  publisher_as_bytes :: "'pk \<Rightarrow> bytes"
  runtime_from_seed :: "bytes \<Rightarrow> 'rsk"
  runtime_verifying_key :: "'rsk \<Rightarrow> 'rk"
  origin_from_bytes :: "bytes \<Rightarrow> 'ok"
  sha3_256 :: "bytes \<Rightarrow> bytes"
  base32_encode :: "bytes \<Rightarrow> ustring"
  canary_time :: "'ts \<Rightarrow> 'ct"
  entangled_path_try_from :: "ustring \<Rightarrow> ustring + 'ep"
  heading_level_try_from :: "byte \<Rightarrow> ustring + 'hl"
  slug_try_from :: "ustring \<Rightarrow> ustring + 'sl"
  build_manifest :: "('pk, 'rk, 'ts, 'ct, 'on, 'ok) UnsignedManifest \<Rightarrow> 'psk \<Rightarrow> 'ts \<Rightarrow> ustring + 'm \<times> bytes"
  build_content :: "('ep, 'ts, 'hl, 'sl) UnsignedContent \<Rightarrow> 'rsk \<Rightarrow> ustring + 'cd \<times> bytes"

text \<open>\<open>Result::expect\<close>: the panic message is the one of the call.\<close>

definition expect :: "string \<Rightarrow> 'e + 'a \<Rightarrow> failure + 'a" where
  "expect msg r = map_err (\<lambda>_. Panic (lit msg)) r"

definition ts :: "('pk, 'ts, 'on, 'j) cli_api \<Rightarrow> ustring \<Rightarrow> failure + 'ts" where
  "ts A s = expect ''valid timestamp'' (timestamp_try_from A s)"

text \<open>
  The address of a Tor v3 service: base32 of the key, the first two bytes of the checksum and
  the version. The three \<open>update\<close> calls hash what was fed in order.
\<close>

definition onion_for ::
  "('psk, 'rsk, 'pk, 'rk, 'ts, 'ct, 'on, 'ok, 'ep, 'hl, 'sl, 'm, 'cd, 'z) fixture_api_scheme \<Rightarrow>
   bytes \<Rightarrow> ustring" where
  "onion_for F pubkey_bytes =
     (let digest = sha3_256 F (map of_nat (lit ''.onion checksum'') @ pubkey_bytes @ [0x03]);
          payload = pubkey_bytes @ [digest ! 0, digest ! 1] @ [0x03]
      in to_ascii_lowercase (base32_encode F payload) @ lit ''.onion'')"

definition text_run :: "string \<Rightarrow> TextMark list \<Rightarrow> InlineElement" where
  "text_run value marks = Text_element (lit value) marks"

definition unsigned_manifest ::
  "('psk, 'rsk, 'pk, 'rk, 'ts, 'ct, 'on, 'ok, 'ep, 'hl, 'sl, 'm, 'cd, 'z) fixture_api_scheme \<Rightarrow>
   'psk \<Rightarrow> 'rsk \<Rightarrow> bytes \<Rightarrow> 'on \<Rightarrow> 'ts \<Rightarrow> 'ts \<Rightarrow> ('pk, 'rk, 'ts, 'ct, 'on, 'ok) UnsignedManifest" where
  "unsigned_manifest F signer runtime_key origin_pk_bytes onion issued next_expected =
     \<lparr>um_publisher_pubkey = publisher_verifying_key F signer,
      um_origin = \<lparr>or_carrier = TorV3, or_address = onion,
                   or_origin_pubkey = origin_from_bytes F origin_pk_bytes, or_not_after = None\<rparr>,
      um_canary = \<lparr>ca_runtime_pubkey = runtime_verifying_key F runtime_key,
                   ca_issued_at = canary_time F issued,
                   ca_next_expected = canary_time F next_expected,
                   ca_statement = lit ''All clear.'', ca_freshness_proof = None\<rparr>,
      um_state_policy = [], um_navigation = [], um_min_refresh_interval = 86400,
      um_updated = issued, um_migration_pointer = None, um_content_root = None\<rparr>"

definition make_manifest ::
  "('psk, 'rsk, 'pk, 'rk, 'ts, 'ct, 'on, 'ok, 'ep, 'hl, 'sl, 'm, 'cd, 'z) fixture_api_scheme \<Rightarrow>
   ('pk, 'ts, 'on, 'j) cli_api \<Rightarrow> 'rsk \<Rightarrow> bytes \<Rightarrow> 'on \<Rightarrow> 'psk \<Rightarrow> ustring \<Rightarrow> failure + bytes" where
  "make_manifest F A runtime_key origin_pk_bytes onion signer next_expected =
     result_bind (ts A (lit ''2026-05-07T00:00:00Z'')) (\<lambda>issued.
     result_bind (ts A next_expected) (\<lambda>next.
     result_bind (expect ''manifest''
       (build_manifest F (unsigned_manifest F signer runtime_key origin_pk_bytes onion issued next)
          signer issued)) (\<lambda>built. Inr (snd built))))"

definition content_blocks :: "'hl \<Rightarrow> 'sl \<Rightarrow> ustring \<Rightarrow> ('hl, 'sl) Block list" where
  "content_blocks level language carrier_url =
     [Heading_block level [text_run ''Entangled chrome restyle'' []],
      Paragraph_block
        [text_run ''This paragraph mixes '' [],
         text_run ''bold'' [Bold_mark],
         text_run '', '' [],
         text_run ''italic'' [Italic_mark],
         text_run '', and '' [],
         text_run ''inline code'' [Code_mark],
         text_run '' in one wrapping line.'' []],
      List_block False
        [[text_run ''first bullet'' []],
         [text_run ''second bullet, '' [], text_run ''emphasized'' [Italic_mark]]],
      Quote_block [text_run ''A quoted line, shown italic by the shell.'' []]
        (Some [text_run ''Someone'' []]),
      Code_block language (lit ''fn main() {'' @ [10] @ lit ''    // a fenced code block'' @ [10] @ lit ''}''),
      Note_block Info (Some (lit ''A note''))
        [text_run ''A boxed callout, stretched to the full content column.'' []],
      Link_block [text_run ''A carrier-reachable service'' []] (Carrier_target TorV3 carrier_url),
      Link_block [text_run ''A clearnet citation'' []]
        (Citation_target (lit ''https://example.org/ref''))]"

definition fixture_content ::
  "('psk, 'rsk, 'pk, 'rk, 'ts, 'ct, 'on, 'ok, 'ep, 'hl, 'sl, 'm, 'cd, 'z) fixture_api_scheme \<Rightarrow>
   ('pk, 'ts, 'on, 'j) cli_api \<Rightarrow> ustring \<Rightarrow> failure + ('ep, 'ts, 'hl, 'sl) UnsignedContent" where
  "fixture_content F A carrier_url =
     result_bind (expect ''path'' (entangled_path_try_from F (lit ''/hello''))) (\<lambda>path.
     result_bind (ts A (lit ''2026-05-07T00:00:00Z'')) (\<lambda>published_at.
     result_bind (expect ''level'' (heading_level_try_from F 1)) (\<lambda>level.
     result_bind (expect ''slug'' (slug_try_from F (lit ''text''))) (\<lambda>language.
       Inr \<lparr>uc_path = path, uc_title = lit ''Hello'', uc_published_at = published_at,
            uc_blocks = content_blocks level language carrier_url, uc_seq = None\<rparr>))))"

section \<open>The files it writes\<close>

text \<open>
  \<open>std::fs::write\<close>: creates the file or cuts it to nothing, then writes. \<open>mode\<close> is what the
  process's umask leaves of \<open>0666\<close> for a new file.
\<close>

definition fs_create :: "path \<Rightarrow> nat \<Rightarrow> (world, io_error, unit) action" where
  "fs_create p m = syscall (\<lambda>w. (Inr (), w\<lparr>w_files := (w_files w)
     (p \<mapsto> File [] (case w_files w p of None \<Rightarrow> m | Some f \<Rightarrow> mode f))\<rparr>))"

definition fs_write :: "nat \<Rightarrow> path \<Rightarrow> bytes \<Rightarrow> (world, io_error, unit) action" where
  "fs_write m p data = act_bind (fs_create p m) (\<lambda>_. fs_write_all p data)"

definition MANIFEST_FILE :: ustring where "MANIFEST_FILE = lit ''/tmp/ent-manifest.json''"
definition EXPIRED_FILE :: ustring where "EXPIRED_FILE = lit ''/tmp/ent-manifest-expired.json''"
definition CHANGED_FILE :: ustring where "CHANGED_FILE = lit ''/tmp/ent-manifest-changed.json''"
definition CONTENT_FILE :: ustring where "CONTENT_FILE = lit ''/tmp/ent-content.json''"

text \<open>The documents, and the address they are for.\<close>

record fixture =
  fx_manifest :: bytes
  fx_expired :: bytes
  fx_changed :: bytes
  fx_content :: bytes
  fx_onion :: ustring

definition fixture_documents ::
  "('psk, 'rsk, 'pk, 'rk, 'ts, 'ct, 'on, 'ok, 'ep, 'hl, 'sl, 'm, 'cd, 'z) fixture_api_scheme \<Rightarrow>
   ('pk, 'ts, 'on, 'j) cli_api \<Rightarrow> failure + fixture" where
  "fixture_documents F A =
     (let publisher_key = publisher_from_seed F (replicate 32 0xB1);
          runtime_key = runtime_from_seed F (replicate 32 0xB3);
          origin_pk_bytes = publisher_as_bytes F
            (publisher_verifying_key F (publisher_from_seed F (replicate 32 0xB2)))
      in result_bind (expect ''onion'' (onion_try_from A (onion_for F origin_pk_bytes))) (\<lambda>onion.
      let make = make_manifest F A runtime_key origin_pk_bytes onion
      in result_bind (make publisher_key (lit ''2026-06-06T00:00:00Z'')) (\<lambda>manifest_bytes.
         result_bind (make publisher_key (lit ''2026-06-01T00:00:00Z'')) (\<lambda>expired_manifest_bytes.
      let changed_publisher_key = publisher_from_seed F (replicate 32 0xC1)
      in result_bind (make changed_publisher_key (lit ''2026-06-06T00:00:00Z''))
           (\<lambda>changed_manifest_bytes.
      let carrier_url = lit ''http://'' @ onion_for F origin_pk_bytes @ lit ''/docs''
      in result_bind (fixture_content F A carrier_url) (\<lambda>content.
         result_bind (expect ''content'' (build_content F content runtime_key)) (\<lambda>built.
         Inr \<lparr>fx_manifest = manifest_bytes, fx_expired = expired_manifest_bytes,
              fx_changed = changed_manifest_bytes, fx_content = snd built,
              fx_onion = onion_for F origin_pk_bytes\<rparr>)))))))"

definition write_documents :: "nat \<Rightarrow> fixture \<Rightarrow> (world, failure, unit) action" where
  "write_documents m fx =
     act_bind (act_map_err (\<lambda>_. Panic (lit ''write manifest''))
       (fs_write m (path_from MANIFEST_FILE) (fx_manifest fx))) (\<lambda>_.
     act_bind (act_map_err (\<lambda>_. Panic (lit ''write expired manifest''))
       (fs_write m (path_from EXPIRED_FILE) (fx_expired fx))) (\<lambda>_.
     act_bind (act_map_err (\<lambda>_. Panic (lit ''write changed-key manifest''))
       (fs_write m (path_from CHANGED_FILE) (fx_changed fx))) (\<lambda>_.
     act_map_err (\<lambda>_. Panic (lit ''write content''))
       (fs_write m (path_from CONTENT_FILE) (fx_content fx)))))"

text \<open>The result is what it prints: the line on stderr and the line on stdout.\<close>

definition dump_fixture ::
  "('psk, 'rsk, 'pk, 'rk, 'ts, 'ct, 'on, 'ok, 'ep, 'hl, 'sl, 'm, 'cd, 'z) fixture_api_scheme \<Rightarrow>
   ('pk, 'ts, 'on, 'j) cli_api \<Rightarrow> nat \<Rightarrow> (world, failure, ustring \<times> ustring) action" where
  "dump_fixture F A m =
     act_bind (act_lift (fixture_documents F A)) (\<lambda>fx.
     act_bind (write_documents m fx) (\<lambda>_.
     act_return
       (lit ''wrote /tmp/ent-manifest.json, /tmp/ent-manifest-expired.json, '' @
        lit ''/tmp/ent-manifest-changed.json, /tmp/ent-content.json'',
        fx_onion fx)))"

section \<open>The address\<close>

text \<open>
  What BASE32 promises of the 35 bytes of an address: 56 characters of its alphabet, and
  different texts for different bytes. SHA3-256 gives 32 bytes.
\<close>

definition address_deps_ok ::
  "('psk, 'rsk, 'pk, 'rk, 'ts, 'ct, 'on, 'ok, 'ep, 'hl, 'sl, 'm, 'cd, 'z) fixture_api_scheme \<Rightarrow> bool" where
  "address_deps_ok F \<longleftrightarrow>
     (\<forall>b. length b = 35 \<longrightarrow> length (base32_encode F b) = 56 \<and>
        set (base32_encode F b) \<subseteq> {65..90} \<union> {50..55}) \<and>
     inj_on (base32_encode F) {b. length b = 35} \<and> (\<forall>b. length (sha3_256 F b) = 32)"

lemma to_ascii_lowercase_base32:
  assumes "set s \<subseteq> {65..90} \<union> {50..55}" and "set t \<subseteq> {65..90} \<union> {50..55}"
    and "to_ascii_lowercase s = to_ascii_lowercase t"
  shows "s = t"
proof -
  have "inj_on (\<lambda>c::nat. if 65 \<le> c \<and> c \<le> 90 then c + 32 else c) ({65..90} \<union> {50..55})"
    by (auto simp: inj_on_def)
  then have "inj_on (\<lambda>c::nat. if 65 \<le> c \<and> c \<le> 90 then c + 32 else c) (set s \<union> set t)"
    by (rule inj_on_subset) (use assms(1,2) in blast)
  with assms(3) show ?thesis by (simp add: to_ascii_lowercase_def inj_on_map_eq_map)
qed

text \<open>
  Addresses are 62 characters of the lower-case alphabet and the suffix, and different keys
  have different addresses: lower-casing loses nothing.
\<close>

lemma onion_for_shape:
  assumes "address_deps_ok F" and "length k = 32"
  shows "length (onion_for F k) = 62"
    and "set (onion_for F k) \<subseteq> {97..122} \<union> {50..55} \<union> {46}"
proof -
  let ?p = "k @ [sha3_256 F (map of_nat (lit ''.onion checksum'') @ k @ [0x03]) ! 0,
      sha3_256 F (map of_nat (lit ''.onion checksum'') @ k @ [0x03]) ! 1] @ [0x03]"
  have b: "length (base32_encode F ?p) = 56" "set (base32_encode F ?p) \<subseteq> {65..90} \<union> {50..55}"
    using assms by (simp_all add: address_deps_ok_def)
  have o: "onion_for F k = to_ascii_lowercase (base32_encode F ?p) @ lit ''.onion''"
    by (simp add: onion_for_def Let_def)
  from b(1) show "length (onion_for F k) = 62" by (simp add: o to_ascii_lowercase_def)
  have "set (to_ascii_lowercase (base32_encode F ?p)) \<subseteq> {97..122} \<union> {50..55}"
    using b(2) by (fastforce simp: to_ascii_lowercase_def)
  moreover have "set (lit ''.onion'') \<subseteq> {97..122} \<union> {46}" by (simp add: lit_def)
  ultimately show "set (onion_for F k) \<subseteq> {97..122} \<union> {50..55} \<union> {46}" unfolding o set_append by blast
qed

lemma onion_for_inject:
  assumes "address_deps_ok F" and "length k = 32" "length k' = 32" and "onion_for F k = onion_for F k'"
  shows "k = k'"
proof -
  define p where "p k = k @ [sha3_256 F (map of_nat (lit ''.onion checksum'') @ k @ [0x03]) ! 0,
      sha3_256 F (map of_nat (lit ''.onion checksum'') @ k @ [0x03]) ! 1] @ [0x03]" for k
  have l: "length (p k) = 35" "length (p k') = 35" by (simp_all add: p_def assms)
  have "to_ascii_lowercase (base32_encode F (p k)) = to_ascii_lowercase (base32_encode F (p k'))"
    using assms(4) by (simp add: onion_for_def Let_def p_def)
  then have "base32_encode F (p k) = base32_encode F (p k')"
    by (rule to_ascii_lowercase_base32 [rotated -1]) (use assms(1) l in \<open>simp_all add: address_deps_ok_def\<close>)
  with assms(1) l have "p k = p k'" by (auto simp: address_deps_ok_def dest: inj_onD)
  then show ?thesis using assms(2,3) by (simp add: p_def)
qed

section \<open>What a run that succeeds has done\<close>

lemma expect_Inr: "expect msg r = Inr a \<longleftrightarrow> r = Inr a"
  by (simp add: expect_def map_err_Inr)

lemma make_manifest_Ok:
  assumes "make_manifest F A rk bs site signer next = Inr b"
  obtains issued n m where "timestamp_try_from A (lit ''2026-05-07T00:00:00Z'') = Inr issued"
    "timestamp_try_from A next = Inr n"
    "build_manifest F (unsigned_manifest F signer rk bs site issued n) signer issued = Inr (m, b)"
  using assms by (auto simp: make_manifest_def ts_def result_bind_Inr expect_Inr)

text \<open>The documents of the fixture, as \<open>make_manifest\<close> and \<open>build_content\<close> gave them.\<close>

definition fixture_signers ::
  "('psk, 'rsk, 'pk, 'rk, 'ts, 'ct, 'on, 'ok, 'ep, 'hl, 'sl, 'm, 'cd, 'z) fixture_api_scheme \<Rightarrow> 'psk \<times> 'psk" where
  "fixture_signers F =
     (publisher_from_seed F (replicate 32 0xB1), publisher_from_seed F (replicate 32 0xC1))"

lemma fixture_documents_Ok:
  assumes "fixture_documents F A = Inr fx"
  obtains site bs rk c d where
    "onion_try_from A (fx_onion fx) = Inr site" "rk = runtime_from_seed F (replicate 32 0xB3)"
    "make_manifest F A rk bs site (fst (fixture_signers F)) (lit ''2026-06-06T00:00:00Z'') = Inr (fx_manifest fx)"
    "make_manifest F A rk bs site (fst (fixture_signers F)) (lit ''2026-06-01T00:00:00Z'') = Inr (fx_expired fx)"
    "make_manifest F A rk bs site (snd (fixture_signers F)) (lit ''2026-06-06T00:00:00Z'') = Inr (fx_changed fx)"
    "build_content F c rk = Inr (d, fx_content fx)"
  using assms
  by (auto simp: fixture_documents_def fixture_signers_def Let_def result_bind_Inr expect_Inr)

lemma fs_write_Ok:
  assumes "fs_write m p data w = (Inr u, w')"
  shows "(\<exists>md. w_files w' = (w_files w)(p \<mapsto> File data md)) \<and> w_env w' = w_env w"
proof -
  from assms obtain w1 where c: "fs_create p m w = (Inr (), w1)" and a: "fs_write_all p data w1 = (Inr u, w')"
    by (auto simp: fs_write_def action_elims)
  obtain md where "w_files w1 = (w_files w)(p \<mapsto> File [] md)" "w_env w1 = w_env w"
    using c by (auto simp: fs_create_def syscall_def Let_def split: option.splits)
  with fs_write_all_Ok [OF a, of "File [] md"] touches_env [OF fs_write_all_touches [OF a]]
  show ?thesis by auto
qed

lemmas fixture_files = MANIFEST_FILE_def EXPIRED_FILE_def CHANGED_FILE_def CONTENT_FILE_def path_from_def

lemma write_documents_Ok:
  assumes "write_documents m fx w = (Inr u, w')"
  shows "map_option contents (w_files w' (path_from MANIFEST_FILE)) = Some (fx_manifest fx)"
    and "map_option contents (w_files w' (path_from EXPIRED_FILE)) = Some (fx_expired fx)"
    and "map_option contents (w_files w' (path_from CHANGED_FILE)) = Some (fx_changed fx)"
    and "map_option contents (w_files w' (path_from CONTENT_FILE)) = Some (fx_content fx)"
    and "p \<notin> path_from ` {MANIFEST_FILE, EXPIRED_FILE, CHANGED_FILE, CONTENT_FILE} \<Longrightarrow>
      w_files w' p = w_files w p"
    and "w_env w' = w_env w"
proof -
  from assms obtain w1 w2 w3 where
    "fs_write m (path_from MANIFEST_FILE) (fx_manifest fx) w = (Inr (), w1)"
    "fs_write m (path_from EXPIRED_FILE) (fx_expired fx) w1 = (Inr (), w2)"
    "fs_write m (path_from CHANGED_FILE) (fx_changed fx) w2 = (Inr (), w3)"
    "fs_write m (path_from CONTENT_FILE) (fx_content fx) w3 = (Inr u, w')"
    by (auto simp: write_documents_def action_elims)
  from this(1-4) [THEN fs_write_Ok] show
    "map_option contents (w_files w' (path_from MANIFEST_FILE)) = Some (fx_manifest fx)"
    "map_option contents (w_files w' (path_from EXPIRED_FILE)) = Some (fx_expired fx)"
    "map_option contents (w_files w' (path_from CHANGED_FILE)) = Some (fx_changed fx)"
    "map_option contents (w_files w' (path_from CONTENT_FILE)) = Some (fx_content fx)"
    "p \<notin> path_from ` {MANIFEST_FILE, EXPIRED_FILE, CHANGED_FILE, CONTENT_FILE} \<Longrightarrow>
      w_files w' p = w_files w p"
    "w_env w' = w_env w"
    by (auto simp: fixture_files)
qed

lemma dump_fixture_Ok:
  assumes "dump_fixture F A m w = (Inr out, w')"
  obtains fx where "fixture_documents F A = Inr fx" "snd out = fx_onion fx"
    "write_documents m fx w = (Inr (), w')"
  using assms by (auto simp: dump_fixture_def action_elims)

end
