(* ===== verification/Fixture_Scenarios.thy ===== *)
theory Fixture_Scenarios
  imports Fixture Lifetime
begin

text \<open>
  What the helpers and the window do one after the other: the scenarios the fixture was made
  for. Where no call fails, \<open>build\<close> on a document that verifies succeeds with what the store
  retains of the site (\<open>quiet_build\<close>); so a document of \<open>dump_fixture\<close> opens as a known site
  after \<open>pin_publisher\<close>, and that of the other publisher as a mismatch.
\<close>

section \<open>Loading where no call fails\<close>

lemma quiet_read_protected:
  assumes "quiet w"
  shows "\<exists>w'. read_protected D root p w = (protected_content D root p w, w') \<and> touches {} w w'"
proof -
  obtain w' where "read_file_opt p w = (Inr (map_option contents (w_files w p)), w')" "touches {} w w'"
    using quiet_read_file_opt [OF assms] by blast
  then show ?thesis
    by (auto simp: read_protected_def protected_content_def act_bind_def act_lift_def act_return_def
        split: option.splits sum.splits)
qed

lemma quiet_load_checked:
  assumes "quiet w"
  shows "\<exists>w'. load_checked msg c check D root p w = (dto_at msg c check D root p w, w') \<and> touches {} w w'"
proof -
  obtain w' where "read_protected D root p w = (protected_content D root p w, w')" "touches {} w w'"
    using quiet_read_protected [OF assms] by blast
  then show ?thesis
    by (auto simp: load_checked_def dto_at_def act_bind_def act_lift_def act_return_def result_bind_def
        split: option.splits sum.splits)
qed

lemma quiet_load_identity:
  assumes "quiet w" and "fis_readable D st w site"
  shows "\<exists>w'. fis_load_identity D st site w = (Inr (map_option fst (fis_content D st w site)), w') \<and>
    touches {} w w'"
proof -
  obtain w' where "fis_load_dto D st site w = (fis_dto_at D st w site, w')" "touches {} w w'"
    unfolding fis_load_dto_def fis_dto_at_def using quiet_load_checked [OF assms(1)] by blast
  with assms(2) show ?thesis
    by (auto simp: fis_load_identity_def fis_readable_def fis_content_def act_bind_def act_lift_def
        act_return_def is_ok_def split: option.splits sum.splits)
qed

lemma quiet_load_history:
  assumes "quiet w" and "fhs_records_at D st w p = Inr rs"
  shows "\<exists>w'. fhs_load_history D st p w = (Inr (from_records_newest_first rs), w') \<and> touches {} w w'"
proof -
  obtain w' where "fhs_load_dto D st p w = (fhs_dto_at D st w p, w')" "touches {} w w'"
    unfolding fhs_load_dto_def fhs_dto_at_def using quiet_load_checked [OF assms(1)] by blast
  with assms(2) show ?thesis
    by (auto simp: fhs_load_history_def fhs_records_at_def act_bind_def act_lift_def act_return_def
        ph_new_def from_records_newest_first_def result_inv split: option.splits sum.splits)
qed

lemma quiet_fs_read:
  "quiet w \<Longrightarrow> w_files w p = Some f \<Longrightarrow> \<exists>w'. fs_read p w = (Inr (contents f), w') \<and> touches {} w w'"
  by (simp add: fs_read_def quiet_syscall touches_def)

lemma load_passes:
  assumes "chain_passes C mb site None now (m, cs, ix)" and "check_against_history C m h = Inr ()"
    and "case cb of None \<Rightarrow> True
      | Some b \<Rightarrow> \<exists>doc. parse_and_verify_content C b (canary_runtime_pubkey C m) = Inr doc"
  shows "\<exists>l. load C mb cb site addr fixed_now (FixedClock now) retained h = Inr l"
proof -
  let ?v = "\<lparr>vm_manifest = m, vm_canary_state = cs, vm_content_index = ix\<rparr>"
  have "verify_manifest C mb site None fixed_now (FixedClock now) h = Accept ?v"
    unfolding verify_manifest_Accept using assms(1,2) by simp
  with assms(3) show ?thesis
    by (cases cb) (auto simp: load_def Let_def verify_content_def vm_runtime_pubkey_def)
qed

text \<open>A first manifest of a publisher fits every history: there is nothing to compare with.\<close>

lemma check_against_no_history:
  assumes "core_checks_ok C"
  shows "check_against_history C m (from_records_newest_first []) = Inr ()"
proof (cases "check_against_history C m (from_records_newest_first [])")
  case (Inl d)
  from check_against_history_Err [OF assms Inl] show ?thesis
    by cases (simp_all add: from_records_newest_first_def newest_def records_def)
qed simp

lemma quiet_build:
  fixes w :: world
  assumes q: "quiet w" and mp: "map_option contents (w_files w mp) = Some mb"
    and cp: "case cp of None \<Rightarrow> cb = None | Some p \<Rightarrow> map_option contents (w_files w p) = cb \<and> cb \<noteq> None"
    and site: "onion_try_from A onion = Inr site"
    and now: "timestamp_try_from A (lit ''2026-06-05T00:00:00Z'') = Inr now"
    and ids: "fis_readable D (sh_identities store) w site"
    and pub: "peek_publisher_pubkey A mb = Inr publisher"
    and recs: "fhs_records_at D (sh_history store) w publisher = Inr rs"
    and l: "load C mb cb site onion fixed_now (FixedClock now)
      (map_option fst (fis_content D (sh_identities store) w site)) (from_records_newest_first rs) = Inr l"
  shows "\<exists>w'. build C D A mp onion cp store w = (Inr l, w') \<and> touches {} w w'"
proof -
  obtain w1 where 1: "fs_read mp w = (Inr mb, w1)" "touches {} w w1"
    using quiet_fs_read [OF q] mp by blast
  have q1: "quiet w1" using q 1(2) by (simp add: quiet_touches)
  have "\<exists>w2. (case cp of Some p \<Rightarrow> act_bind (act_map_err
        (\<lambda>e. Message (lit ''reading content: '' @ io_display e)) (fs_read p)) (\<lambda>b. act_return (Some b))
      | None \<Rightarrow> act_return None) w1 = (Inr cb, w2) \<and> touches {} w1 w2"
  proof (cases cp)
    case (Some p)
    with cp obtain f where f: "w_files w1 p = Some f" "cb = Some (contents f)"
      using 1(2) by (auto simp: touches_nothing)
    from quiet_fs_read [OF q1 f(1)] show ?thesis
      by (auto simp: Some f(2) act_bind_def act_map_err_def act_return_def)
  qed (use cp in \<open>simp add: act_return_def\<close>)
  then obtain w2 where 2: "(case cp of Some p \<Rightarrow> act_bind (act_map_err
        (\<lambda>e. Message (lit ''reading content: '' @ io_display e)) (fs_read p)) (\<lambda>b. act_return (Some b))
      | None \<Rightarrow> act_return None) w1 = (Inr cb, w2)" "touches {} w1 w2" by blast
  have q2: "quiet w2" and f2: "w_files w2 = w_files w"
    using quiet_touches [OF 2(2)] q1 1(2) 2(2) by (simp_all add: touches_nothing)
  have "fis_readable D (sh_identities store) w2 site"
    and c2: "fis_content D (sh_identities store) w2 site = fis_content D (sh_identities store) w site"
    using ids fis_files(2,3) [of w2 D "sh_identities store" site w] by (simp_all add: f2)
  from quiet_load_identity [OF q2 this(1)] c2 obtain w3 where
    3: "fis_load_identity D (sh_identities store) site w2 =
      (Inr (map_option fst (fis_content D (sh_identities store) w site)), w3)" "touches {} w2 w3" by auto
  have q3: "quiet w3" and f3: "w_files w3 = w_files w"
    using quiet_touches [OF 3(2)] q2 3(2) f2 by (simp_all add: touches_nothing)
  have "fhs_records_at D (sh_history store) w3 publisher = Inr rs"
    using recs fhs_files [of w3 D "sh_history store" publisher w] by (simp add: f3)
  from quiet_load_history [OF q3 this] obtain w4 where
    4: "fhs_load_history D (sh_history store) publisher w3 = (Inr (from_records_newest_first rs), w4)"
      "touches {} w3 w4" by blast
  have "build C D A mp onion cp store w = (Inr l, w4)"
    unfolding build_def
    by (simp add: act_bind_def act_map_err_def act_lift_def 1(1) 2(1) 3(1) 4(1) site fixed_clock_def
        now pub l)
  moreover have "touches {} w w4" using 1(2) 2(2) 3(2) 4(2) by (blast intro: touches_trans)
  ultimately show ?thesis by blast
qed

section \<open>What the helper says of its documents\<close>

text \<open>
  \<open>dump_fixture\<close> calls its input signature-valid: what \<open>build_manifest\<close> builds and signs passes
  the chain at the address it names, with the publisher, the runtime key and the canary it was
  built from, which is expired or not as the end of its period is before or after the clock;
  what \<open>build_content\<close> builds is verified by the key it was signed with.
\<close>

definition fixture_core_ok ::
  "('psk, 'rsk, 'pk, 'rk, 'ts::linorder, 'ct, 'on, 'ok, 'ep, 'hl, 'sl, 'm, 'cd, 'a) fixture_api_scheme \<Rightarrow>
   ('m, 'pk, 'rk, 'ts, 'on, 'ci, 'cd, 'st, 'p, 'sh, 'y) gui_core_scheme \<Rightarrow>
   ('pk, 'ts, 'on, 'j) cli_api \<Rightarrow> 'ts \<Rightarrow> bool" where
  "fixture_core_ok F C A now \<longleftrightarrow>
     (\<forall>u s t n m b. build_manifest F u s t = Inr (m, b) \<longrightarrow>
        um_publisher_pubkey u = publisher_verifying_key F s \<longrightarrow>
        ca_issued_at (um_canary u) = canary_time F t \<longrightarrow>
        ca_next_expected (um_canary u) = canary_time F n \<longrightarrow> t < n \<longrightarrow> t \<le> now \<longrightarrow>
        manifest_publisher_pubkey C m = um_publisher_pubkey u \<and>
        canary_runtime_pubkey C m = ca_runtime_pubkey (um_canary u) \<and>
        peek_publisher_pubkey A b = Inr (um_publisher_pubkey u) \<and>
        (\<exists>cs ix. chain_passes C b (or_address (um_origin u)) None now (m, cs, ix) \<and>
           (now < n \<longrightarrow> cs = Fresh \<or> cs = NearExpiration) \<and> (n < now \<longrightarrow> cs = Expired))) \<and>
     (\<forall>c rk d b. build_content F c rk = Inr (d, b) \<longrightarrow>
        parse_and_verify_content C b (runtime_verifying_key F rk) = Inr d)"

text \<open>The four instants are in the order they are written in.\<close>

definition fixture_times_ok :: "('pk, 'ts::linorder, 'on, 'j) cli_api \<Rightarrow> 'ts \<Rightarrow> bool" where
  "fixture_times_ok A now \<longleftrightarrow>
     timestamp_try_from A (lit ''2026-06-05T00:00:00Z'') = Inr now \<and>
     (\<exists>issued past next. timestamp_try_from A (lit ''2026-05-07T00:00:00Z'') = Inr issued \<and>
        timestamp_try_from A (lit ''2026-06-01T00:00:00Z'') = Inr past \<and>
        timestamp_try_from A (lit ''2026-06-06T00:00:00Z'') = Inr next \<and>
        issued < past \<and> past < now \<and> now < next)"

lemma made_manifest_passes:
  assumes core: "fixture_core_ok F C A now" and times: "fixture_times_ok A now"
    and made: "make_manifest F A rk bs site signer until = Inr b"
    and u: "until = lit ''2026-06-06T00:00:00Z'' \<or> until = lit ''2026-06-01T00:00:00Z''"
  obtains m cs ix where "manifest_publisher_pubkey C m = publisher_verifying_key F signer"
    "canary_runtime_pubkey C m = runtime_verifying_key F rk"
    "peek_publisher_pubkey A b = Inr (publisher_verifying_key F signer)"
    "chain_passes C b site None now (m, cs, ix)"
    "cs = Expired \<longleftrightarrow> until = lit ''2026-06-01T00:00:00Z''"
proof -
  from made obtain issued n m where issued: "timestamp_try_from A (lit ''2026-05-07T00:00:00Z'') = Inr issued"
    and n: "timestamp_try_from A until = Inr n"
    and b: "build_manifest F (unsigned_manifest F signer rk bs site issued n) signer issued = Inr (m, b)"
    by (rule make_manifest_Ok)
  have "issued < n \<and> issued \<le> now \<and> (if until = lit ''2026-06-01T00:00:00Z'' then n < now else now < n)"
    using times issued n u by (auto simp: fixture_times_ok_def)
  with core [unfolded fixture_core_ok_def, THEN conjunct1, rule_format, OF b, of n]
  show thesis by (auto simp: unsigned_manifest_def split: if_splits intro!: that)
qed

text \<open>So a window on one of the documents opens, with the trust the site's record calls for.\<close>

lemma fixture_window:
  assumes checks: "core_checks_ok C" and core: "fixture_core_ok F C A now" and times: "fixture_times_ok A now"
    and made: "make_manifest F A rk bs site signer until = Inr b"
    and u: "until = lit ''2026-06-06T00:00:00Z'' \<or> until = lit ''2026-06-01T00:00:00Z''"
    and content: "build_content F c rk = Inr (d, cb)"
    and q: "quiet w" and mp: "map_option contents (w_files w mp) = Some b"
    and cp: "map_option contents (w_files w cp) = Some cb" and site: "onion_try_from A onion = Inr site"
    and ids: "fis_readable D (sh_identities store) w site"
    and new: "fhs_records_at D (sh_history store) w (publisher_verifying_key F signer) = Inr []"
  shows "\<exists>l w'. build C D A mp onion (Some cp) store w = (Inr l, w') \<and>
    cv_trust_state (ld_chrome l) = res_state (resolve (publisher_verifying_key F signer)
      (map_option fst (fis_content D (sh_identities store) w site)) None_decision) \<and>
    ld_required_action l = res_action (resolve (publisher_verifying_key F signer)
      (map_option fst (fis_content D (sh_identities store) w site)) None_decision) \<and>
    ld_scene l = Some (scene_from_content C d) \<and>
    (ld_canary_state l = Expired \<longleftrightarrow> until = lit ''2026-06-01T00:00:00Z'')"
proof -
  let ?r = "map_option fst (fis_content D (sh_identities store) w site)"
  from made_manifest_passes [OF core times made u] obtain m cs ix where
    m: "manifest_publisher_pubkey C m = publisher_verifying_key F signer"
      "canary_runtime_pubkey C m = runtime_verifying_key F rk"
    and peek: "peek_publisher_pubkey A b = Inr (publisher_verifying_key F signer)"
    and chain: "chain_passes C b site None now (m, cs, ix)"
    and cs: "cs = Expired \<longleftrightarrow> until = lit ''2026-06-01T00:00:00Z''" by metis
  have doc: "parse_and_verify_content C cb (canary_runtime_pubkey C m) = Inr d"
    using core content by (simp add: fixture_core_ok_def m(2))
  from load_passes [OF chain check_against_no_history [OF checks], of "Some cb" onion ?r] doc
  obtain l where l: "load C b (Some cb) site onion fixed_now (FixedClock now) ?r
      (from_records_newest_first []) = Inr l" by auto
  have now: "timestamp_try_from A (lit ''2026-06-05T00:00:00Z'') = Inr now"
    using times by (simp add: fixture_times_ok_def)
  from quiet_build [OF q mp _ site now ids peek new l, of "Some cp"] cp obtain w' where
    b: "build C D A mp onion (Some cp) store w = (Inr l, w')" by auto
  from load_Ok [OF l] obtain m' cs' ix' doc where c': "chain_passes C b site None now (m', cs', ix')"
    and p: "ld_publisher l = manifest_publisher_pubkey C m'" and s: "ld_canary_state l = cs'"
    and sc: "parse_and_verify_content C cb (canary_runtime_pubkey C m') = Inr doc"
      "ld_scene l = Some (scene_from_content C doc)"
    by (auto simp: load_spec_def)
  from chain_passes_unique [OF c' chain] have same: "m' = m" "cs' = cs" by simp_all
  from sc(1) doc have "doc = d" by (simp add: same(1))
  with load_resolution [OF l] b p s sc(2) cs show ?thesis by (auto simp: same m(1))
qed

section \<open>The store after pinning\<close>

lemma pin_publisher_fresh:
  assumes D: "store_deps_ok D" and empty: "\<And>p. prefix (path_from dir) p \<Longrightarrow> w_files w p = None"
    and p: "pin_publisher D A fe k (dir # onion # rest) w = (r, w1)" "mr_exit r = EXIT_SUCCESS"
    and o: "open_integrity D (path_from dir) w1 = (Inr root, w2)"
  obtains site where "onion_try_from A onion = Inr site" "fis_inv D (fis_new root) w2"
    "fis_content D (fis_new root) w2 site = Some (\<lparr>pubkey = k, provenance =
       if rest \<noteq> [] \<and> hd rest = lit ''verified'' then ExternallyVerified_prov else Pinned\<rparr>, [])"
    "\<And>p. fhs_records_at D (fhs_new root) w2 p = Inr []"
    "\<And>q. \<not> prefix (path_from dir) q \<Longrightarrow> not_tmp q \<Longrightarrow> w_files w2 q = w_files w q"
  using p
proof (cases rule: pin_publisher_run)
  case (1 dir' onion' rest' site root' wa intent)
  let ?S = "\<lparr>su_feature = False, su_base = path_from dir, su_protection = Integrity,
      su_passphrase = None\<rparr>"
  have R: "root_deps_ok D" using D by (simp add: store_deps_ok_def)
  have a: "fis_apply D (fis_new root') site intent wa = (Inr (), w1)" by (rule 1(5))
  have oa: "setup_open D ?S w = (Inr root', wa)" using 1(1,3) by (simp add: setup_open_def)
  have ob: "setup_open D ?S w1 = (Inr root, w2)" using o by (simp add: setup_open_def)
  have e: "\<And>p. prefix (su_base ?S) p \<Longrightarrow> w_files w p = None" using empty by simp
  note fresh = life_inv_fresh [OF D e oa]
  have inv: "fis_inv D (fis_new root') wa" and keyed: "keyed D ?S root' wa"
    using fresh(1) by (simp_all add: life_inv_def)
  have base: "root_base root' = path_from dir" using keyed by (simp add: keyed_def)
  have other: "w_files w1 q = w_files wa q" if "not_tmp q" "q \<noteq> fis_path D (fis_new root') site" for q
    by (rule fis_apply_other [OF D a that])
  have "keyed D ?S root' w1"
    by (rule keyed_other [OF keyed]) (use other in \<open>simp add: not_record_def\<close>)
  note again = keyed_open [OF this ob]
  show thesis
  proof (rule that)
    show "onion_try_from A onion = Inr site" using 1(1,2) by simp
    show "fis_inv D (fis_new root) w2"
      using fis_apply_inv [OF inv a] by (simp add: again(1) fis_inv_files [OF again(2)])
    have "fis_content D (fis_new root) w2 site = fis_content D (fis_new root') w1 site"
      by (simp add: again(1) fis_same_files(1) [OF again(2)])
    then show "fis_content D (fis_new root) w2 site = Some (\<lparr>pubkey = k, provenance =
       if rest \<noteq> [] \<and> hd rest = lit ''verified'' then ExternallyVerified_prov else Pinned\<rparr>, [])"
      using fis_apply_Ok [OF inv a] fresh(2) 1(1,4) by (auto split: if_splits)
    have "fhs_inv D (fhs_new root') w2 \<and> fhs_content D (fhs_new root') w2 = (\<lambda>_. [])"
      using fis_apply_keeps_history [OF D a] fresh(3,4) fhs_same_files [OF again(2)] by metis
    then show "fhs_records_at D (fhs_new root) w2 p = Inr []" for p
      by (cases "fhs_records_at D (fhs_new root') w2 p")
        (auto simp: again(1) fhs_inv_def fhs_content_def is_ok_def fun_eq_iff split: sum.splits)
    show "w_files w2 q = w_files w q" if q: "\<not> prefix (path_from dir) q" "not_tmp q" for q
    proof -
      have "q \<noteq> fis_path D (fis_new root') site" "q \<noteq> key_path (path_from dir)" "q \<noteq> meta_path (path_from dir)"
        using q(1) by (auto simp: fis_path_def fis_new_def identity_path_def key_path_def meta_path_def
            path_join_def base)
      with other [OF q(2)] keyed_fresh(2) [OF R oa _ _ q(2)] e again(2) show ?thesis
        by (simp add: key_path_def meta_path_def path_join_def)
    qed
  qed
qed

lemma fixture_files_not_tmp:
  "not_tmp (path_from MANIFEST_FILE)" "not_tmp (path_from EXPIRED_FILE)"
  "not_tmp (path_from CHANGED_FILE)" "not_tmp (path_from CONTENT_FILE)"
  using not_tmp_json [of "[]" "lit ''/tmp/ent-manifest''"] not_tmp_json [of "[]" "lit ''/tmp/ent-manifest-expired''"]
    not_tmp_json [of "[]" "lit ''/tmp/ent-manifest-changed''"] not_tmp_json [of "[]" "lit ''/tmp/ent-content''"]
  by (simp_all add: fixture_files flip: lit_append)

text \<open>Neither helper changes what the environment will do.\<close>

lemma run_env:
  assumes "run m w = (a, w')"
  shows "w_env w' = w_env w"
proof -
  obtain n where "exec (replicate n 0) [m] w = ([m][0 := Ret a], w')"
    by (rule exec_to_result [of 0 "[m]" w a w']) (use assms in simp_all)
  from exec_world [OF this] show ?thesis by blast
qed

lemma pin_publisher_env:
  assumes "pin_publisher D A fe k args w = (r, w')" and "mr_exit r = EXIT_SUCCESS"
  shows "w_env w' = w_env w"
  using assms
proof (cases rule: pin_publisher_run)
  case (1 dir onion rest site root w1 intent)
  from run_env [OF 1(3) [folded run_open]] run_env [OF 1(5) [folded run_apply]] show ?thesis by simp
qed

lemma prepared_env:
  assumes "dump_fixture F A md w = (Inr out, w1)"
    and "pin_publisher D A fe k args w1 = (r, w2)" "mr_exit r = EXIT_SUCCESS"
    and "open_integrity D base w2 = (Inr root, w3)"
  shows "w_env w3 = w_env w"
proof -
  from dump_fixture_Ok [OF assms(1)] obtain fx where "write_documents md fx w = (Inr (), w1)" by auto
  from write_documents_Ok(6) [OF this] pin_publisher_env [OF assms(2,3)]
    run_env [OF assms(4) [folded run_open]] show ?thesis by simp
qed

text \<open>The helpers run one after the other, and a store is opened on what they left.\<close>

lemma fixture_prepared:
  assumes D: "store_deps_ok D" and dump: "dump_fixture F A md w = (Inr (msg, onion), w1)"
    and empty: "\<And>p. prefix (path_from dir) p \<Longrightarrow> w_files w p = None"
    and dir: "dir \<notin> {MANIFEST_FILE, EXPIRED_FILE, CHANGED_FILE, CONTENT_FILE}"
    and pin: "pin_publisher D A fe k (dir # onion # rest) w1 = (r, w2)" "mr_exit r = EXIT_SUCCESS"
    and o: "open_integrity D (path_from dir) w2 = (Inr root, w3)"
  obtains fx site where "fixture_documents F A = Inr fx" "onion = fx_onion fx"
    "onion_try_from A onion = Inr site" "fis_inv D (fis_new root) w3"
    "fis_content D (fis_new root) w3 site = Some (\<lparr>pubkey = k, provenance =
       if rest \<noteq> [] \<and> hd rest = lit ''verified'' then ExternallyVerified_prov else Pinned\<rparr>, [])"
    "\<And>p. fhs_records_at D (fhs_new root) w3 p = Inr []"
    "map_option contents (w_files w3 (path_from MANIFEST_FILE)) = Some (fx_manifest fx)"
    "map_option contents (w_files w3 (path_from EXPIRED_FILE)) = Some (fx_expired fx)"
    "map_option contents (w_files w3 (path_from CHANGED_FILE)) = Some (fx_changed fx)"
    "map_option contents (w_files w3 (path_from CONTENT_FILE)) = Some (fx_content fx)"
proof -
  from dump_fixture_Ok [OF dump] obtain fx where fx: "fixture_documents F A = Inr fx" "onion = fx_onion fx"
    and wr: "write_documents md fx w = (Inr (), w1)" by auto
  have "w_files w1 p = None" if "prefix (path_from dir) p" for p
  proof -
    have "p \<notin> path_from ` {MANIFEST_FILE, EXPIRED_FILE, CHANGED_FILE, CONTENT_FILE}"
      using that dir by (auto simp: path_from_def)
    with write_documents_Ok(5) [OF wr] empty [OF that] show ?thesis by simp
  qed
  from pin_publisher_fresh [OF D this pin o] obtain site where
    site: "onion_try_from A onion = Inr site" "fis_inv D (fis_new root) w3"
      "fis_content D (fis_new root) w3 site = Some (\<lparr>pubkey = k, provenance =
         if rest \<noteq> [] \<and> hd rest = lit ''verified'' then ExternallyVerified_prov else Pinned\<rparr>, [])"
      "\<And>p. fhs_records_at D (fhs_new root) w3 p = Inr []"
    and other: "\<And>q. \<not> prefix (path_from dir) q \<Longrightarrow> not_tmp q \<Longrightarrow> w_files w3 q = w_files w1 q" by metis
  have "\<not> prefix (path_from dir) (path_from name)" if "dir \<noteq> name" for name
    using that by (simp add: path_from_def)
  with other fixture_files_not_tmp dir have kept:
    "w_files w3 (path_from MANIFEST_FILE) = w_files w1 (path_from MANIFEST_FILE)"
    "w_files w3 (path_from EXPIRED_FILE) = w_files w1 (path_from EXPIRED_FILE)"
    "w_files w3 (path_from CHANGED_FILE) = w_files w1 (path_from CHANGED_FILE)"
    "w_files w3 (path_from CONTENT_FILE) = w_files w1 (path_from CONTENT_FILE)" by blast+
  show thesis
    by (rule that [OF fx site]) (simp_all only: kept write_documents_Ok(1-4) [OF wr])
qed

end
