(* ===== verification/Gui_Theme.thy ===== *)
theory Gui_Theme
  imports Gui_Text
begin

text \<open>
  The fonts and the theme of \<open>crates/entangled-client-gui/src/main.rs\<close>: \<open>install_fonts\<close>,
  \<open>install_theme\<close> and \<open>chrome_frame\<close> as functions on what the toolkit starts from (its default
  font definitions, its style, its dark visuals, its empty frame), which are parameters. Sizes
  and distances are in tenths of a point. The toolkit panics when it lays out text in a family
  that no font is bound to, so the lemmas say that every family a text is drawn in has one of
  the embedded fonts first.
\<close>

section \<open>Fonts\<close>

datatype asset = DejaVuSans_ttf | DejaVuSans_Bold_ttf | DejaVuSansMono_ttf

datatype 'f font_data = From_static asset | Toolkit_font 'f

record 'f font_definitions =
  font_data :: "ustring \<Rightarrow> 'f font_data option"
  families :: "font_family \<Rightarrow> ustring list option"

text \<open>\<open>entry(family).or_default().insert(0, name)\<close> on the families.\<close>

definition insert_first ::
  "font_family \<Rightarrow> ustring \<Rightarrow> (font_family \<Rightarrow> ustring list option) \<Rightarrow> font_family \<Rightarrow> ustring list option"
where
  "insert_first family name fs =
     fs(family \<mapsto> name # (case fs family of None \<Rightarrow> [] | Some names \<Rightarrow> names))"

definition install_fonts :: "'f font_definitions \<Rightarrow> 'f font_definitions" where
  "install_fonts fonts =
     fonts\<lparr>font_data := (font_data fonts)
              (lit ''dejavu'' \<mapsto> From_static DejaVuSans_ttf,
               lit ''dejavu-bold'' \<mapsto> From_static DejaVuSans_Bold_ttf,
               lit ''dejavu-mono'' \<mapsto> From_static DejaVuSansMono_ttf),
           families := (insert_first Monospace (lit ''dejavu-mono'')
              (insert_first Proportional (lit ''dejavu'') (families fonts)))
              (bold_family \<mapsto> [lit ''dejavu-bold''])\<rparr>"

text \<open>The font a family starts with, if it is bound and its data is there.\<close>

definition first_font :: "'f font_definitions \<Rightarrow> font_family \<Rightarrow> 'f font_data option" where
  "first_font fonts family =
     (case families fonts family of Some (name # _) \<Rightarrow> font_data fonts name | _ \<Rightarrow> None)"

lemma install_fonts_first:
  "first_font (install_fonts fonts) Proportional = Some (From_static DejaVuSans_ttf)"
  "first_font (install_fonts fonts) Monospace = Some (From_static DejaVuSansMono_ttf)"
  "first_font (install_fonts fonts) Bold_family = Some (From_static DejaVuSans_Bold_ttf)"
  by (simp_all add: first_font_def install_fonts_def insert_first_def bold_family_def lit_def)

text \<open>So every piece of styled publisher text is laid out, code in the monospace font.\<close>

lemma run_section_font:
  "first_font (install_fonts fonts) (sec_family (run_section sz col run)) =
     Some (From_static
       (case run of RunText _ style \<Rightarrow>
            if style_code style then DejaVuSansMono_ttf
            else if style_bold style then DejaVuSans_Bold_ttf else DejaVuSans_ttf
        | RunLink _ style \<Rightarrow>
            if style_code style then DejaVuSansMono_ttf
            else if style_bold style then DejaVuSans_Bold_ttf else DejaVuSans_ttf))"
  by (cases run) (simp_all add: run_section_def bold_family_def install_fonts_first)

lemma runs_job_fonts:
  "list_all (\<lambda>s. \<exists>a. first_font (install_fonts fonts) (sec_family s) = Some (From_static a))
     (runs_job runs sz col)"
  by (induction runs) (auto simp: run_section_font)

section \<open>Theme\<close>

datatype text_style = Heading_style | Body_style | Monospace_style | Button_style | Small_style

record visuals =
  panel_fill :: color
  noninteractive_rounding :: nat
  inactive_rounding :: nat
  hovered_rounding :: nat
  active_rounding :: nat
  window_rounding :: nat
  hyperlink_color :: color
  selection_bg_fill :: color

record 'v style =
  text_styles :: "text_style \<Rightarrow> (nat \<times> font_family) option"
  visuals :: "'v visuals_scheme"
  item_spacing :: "nat \<times> nat"
  button_padding :: "nat \<times> nat"

definition install_theme :: "'v visuals_scheme \<Rightarrow> ('v, 'z) style_scheme \<Rightarrow> ('v, 'z) style_scheme" where
  "install_theme dark st =
     st\<lparr>text_styles := (\<lambda>_. None)
          (Heading_style \<mapsto> (220, Proportional),
           Body_style \<mapsto> (150, Proportional),
           Monospace_style \<mapsto> (140, Monospace),
           Button_style \<mapsto> (150, Proportional),
           Small_style \<mapsto> (120, Proportional)),
        visuals := dark
          \<lparr>panel_fill := Rgb 0x12 0x15 0x1a,
           noninteractive_rounding := 60, inactive_rounding := 60, hovered_rounding := 60,
           active_rounding := 60, window_rounding := 80,
           hyperlink_color := Rgb 0x6c 0xa8 0xff,
           selection_bg_fill := Rgb 0x2a 0x40 0x60\<rparr>,
        item_spacing := (80, 60),
        button_padding := (100, 50)\<rparr>"

text \<open>Although the table is replaced as a whole, every style has an entry, with a bound font.\<close>

lemma install_theme_styles:
  "\<exists>sz family a. text_styles (install_theme dark st) ts = Some (sz, family) \<and>
     first_font (install_fonts fonts) family = Some (From_static a)"
  by (cases ts) (simp_all add: install_theme_def install_fonts_first)

lemma theme_link_color: "hyperlink_color (visuals (install_theme dark st)) = LINK_COLOR"
  by (simp add: install_theme_def LINK_COLOR_def)

section \<open>The frame of the chrome panel\<close>

record frame =
  frame_fill :: color
  inner_margin :: "nat \<times> nat"
  frame_stroke :: "nat \<times> color"

text \<open>\<open>none\<close> is the toolkit's empty frame.\<close>

definition chrome_frame :: "'z frame_scheme \<Rightarrow> 'z frame_scheme" where
  "chrome_frame none =
     none\<lparr>frame_fill := Rgb 0x1c 0x22 0x2c, inner_margin := (120, 80),
          frame_stroke := (10, Rgb 0x3a 0x44 0x52)\<rparr>"

text \<open>
  The boundary the comment of \<open>chrome_frame\<close> promises is visible: neither the fill nor the
  separating stroke has the colour of the panel the publisher's content is drawn on, and the
  stroke is not of zero width.
\<close>

lemma chrome_boundary_visible:
  "frame_fill (chrome_frame none) \<noteq> panel_fill (visuals (install_theme dark st))"
  "snd (frame_stroke (chrome_frame none)) \<notin>
     {frame_fill (chrome_frame none), panel_fill (visuals (install_theme dark st))}"
  "0 < fst (frame_stroke (chrome_frame none))"
  by (simp_all add: chrome_frame_def install_theme_def)

end
