(* ===== verification/Instances.thy ===== *)
theory Instances
  imports Lifetime_History Call_Bounds Fixture_Scenarios Gui_Theme "HOL-Library.Code_Target_Numeral"
begin

text \<open>
  One concrete instance of every parameter: a small core over natural numbers, codecs given
  by finite tables, a keyed tag, an operating system that fails nothing. The theorems hold
  for every instance that obeys the stated laws; this one shows that the laws can be met,
  and the witnesses of the properties are evaluated on it.
\<close>

section \<open>Table codecs\<close>

definition table_encode :: "'a list \<Rightarrow> 'a \<Rightarrow> ustring + bytes" where
  "table_encode xs x =
     (if x \<in> set xs then Inr [of_nat (length (takeWhile (\<lambda>y. y \<noteq> x) xs))]
      else Inl (lit ''not in the table''))"

definition table_decode :: "'a list \<Rightarrow> bytes \<Rightarrow> ustring + 'a" where
  "table_decode xs b =
     (if length b = 1 \<and> unat (hd b) < length xs then Inr (xs ! unat (hd b))
      else Inl (lit ''malformed''))"

definition table_codec :: "'a list \<Rightarrow> 'a codec" where
  "table_codec xs = \<lparr>to_vec = table_encode xs, from_slice = table_decode xs\<rparr>"

lemma takeWhile_index: "x \<in> set xs \<Longrightarrow> length (takeWhile (\<lambda>y. y \<noteq> x) xs) < length xs \<and>
    xs ! length (takeWhile (\<lambda>y. y \<noteq> x) xs) = x"
  by (induction xs) auto

lemma table_codec_ok: "length xs < 256 \<Longrightarrow> codec_ok (table_codec xs)"
  unfolding codec_ok_def table_codec_def table_encode_def table_decode_def
  using takeWhile_index by (fastforce simp: unat_of_nat split: if_splits)

section \<open>The store's dependencies\<close>

definition ex_identity :: "nat \<Rightarrow> RetainedProvenance \<Rightarrow> nat list \<Rightarrow> nat IdentityDto" where
  "ex_identity k p ks = identity_dto_new \<lparr>pubkey = k, provenance = p\<rparr> ks"

definition ex_bad_shape :: "nat IdentityDto" where
  "ex_bad_shape = \<lparr>id_v = 2, id_pubkey = 1, id_provenance = None, id_externally_verified = None,
     id_replaced_pubkeys = []\<rparr>"

definition ex_record :: "nat \<Rightarrow> nat \<Rightarrow> nat \<Rightarrow> (nat, nat) RetainedManifestRecord" where
  "ex_record t r h = \<lparr>issued_at = t, runtime_pubkey = r, manifest_payload_hash = replicate 32 (of_nat h)\<rparr>"

definition ex_hex :: "bytes \<Rightarrow> ustring" where
  "ex_hex b = map (\<lambda>x. unat x + 256) b"

definition ex_history :: "(nat, nat) RetainedManifestRecord list \<Rightarrow> (nat, nat) HistoryDto" where
  "ex_history rs = \<lparr>hd_v = 1, hd_records = map (\<lambda>r. \<lparr>mr_issued_at = issued_at r,
     mr_runtime_pubkey = runtime_pubkey r,
     mr_payload_hash_hex = ex_hex (manifest_payload_hash r)\<rparr>) rs\<rparr>"

text \<open>
  The functions are named, and not written into the record, so that the record is small when
  the examples are evaluated.
\<close>

definition ex_hex_decode :: "ustring \<Rightarrow> ustring + bytes" where
  [simp]: "ex_hex_decode s = Inr (map (\<lambda>c. of_nat (c - 256)) s)"

definition ex_b64_encode :: "bytes \<Rightarrow> ustring" where
  [simp]: "ex_b64_encode b = map unat b"

definition ex_b64_decode :: "ustring \<Rightarrow> ustring + bytes" where
  [simp]: "ex_b64_decode s = Inr (map of_nat s)"

definition ex_tag :: "bytes \<Rightarrow> bytes \<Rightarrow> ustring + bytes" where
  [simp]: "ex_tag k p = Inr (take 1 k)"

definition ex_verify :: "bytes \<Rightarrow> bytes \<Rightarrow> bytes \<Rightarrow> ustring + bool" where
  [simp]: "ex_verify k p t = Inr (t = take 1 k)"

definition ex_plain :: "bytes \<Rightarrow> bytes \<Rightarrow> bytes \<Rightarrow> bytes option" where
  [simp]: "ex_plain k n p = Some p"

definition ex_argon :: "ustring \<Rightarrow> bytes \<Rightarrow> ustring + bytes" where
  [simp]: "ex_argon p salt = Inr (map of_nat p)"

definition ex_display :: "nat \<Rightarrow> ustring" where
  [simp]: "ex_display n = [n + 100]"

definition ex_envelopes :: "unit \<Rightarrow> IntegrityEnvelope list" where
  "ex_envelopes _ = map (\<lambda>k. \<lparr>ie_v = 1, ie_payload_b64 = [k], ie_mac_b64 = [7]\<rparr>) [0 ..< 9]"

definition ex_identities :: "unit \<Rightarrow> nat IdentityDto list" where
  "ex_identities _ =
     [ex_identity 1 Observed [], ex_identity 1 Pinned [], ex_identity 1 ExternallyVerified_prov [],
      ex_identity 2 Pinned [1], ex_identity 2 ExternallyVerified_prov [1], ex_bad_shape,
      ex_identity 2 Pinned []]"

definition ex_histories :: "unit \<Rightarrow> (nat, nat) HistoryDto list" where
  "ex_histories _ =
     [ex_history [ex_record 5 3 1], ex_history [ex_record 7 4 2, ex_record 5 3 1],
      ex_history [ex_record 7 4 2], ex_history [ex_record 7 4 2, ex_record 7 4 2]]"

text \<open>A codec whose table is looked up only where it is used.\<close>

definition late_encode :: "(unit \<Rightarrow> 'a list) \<Rightarrow> 'a \<Rightarrow> ustring + bytes" where
  "late_encode xs x = table_encode (xs ()) x"

definition late_decode :: "(unit \<Rightarrow> 'a list) \<Rightarrow> bytes \<Rightarrow> ustring + 'a" where
  "late_decode xs b = table_decode (xs ()) b"

definition late_codec :: "(unit \<Rightarrow> 'a list) \<Rightarrow> 'a codec" where
  "late_codec xs = \<lparr>to_vec = late_encode xs, from_slice = late_decode xs\<rparr>"

lemma late_codec: "late_codec xs = table_codec (xs ())"
  by (simp add: late_codec_def table_codec_def late_encode_def late_decode_def fun_eq_iff)

definition ex_deps :: "(nat, nat, nat, nat) store_deps" where
  "ex_deps =
     \<lparr>hex_encode = ex_hex, hex_decode = ex_hex_decode,
      b64_encode = ex_b64_encode, b64_decode = ex_b64_decode,
      hmac_tag = ex_tag, hmac_verify = ex_verify,
      aead_encrypt = ex_plain, aead_decrypt = ex_plain, argon2id = ex_argon,
      envelope_codec = late_codec ex_envelopes,
      aead_codec = table_codec [],
      meta_codec = table_codec
        [\<lparr>meta_v = 1, meta_protection = Integrity_tag, meta_salt_b64 = None\<rparr>,
         \<lparr>meta_v = 1, meta_protection = Encrypted_tag, meta_salt_b64 = Some [5]\<rparr>],
      on_display = ex_display, pk_display = ex_display,
      identity_codec = late_codec ex_identities,
      history_codec = late_codec ex_histories\<rparr>"

lemma ex_deps_ok: "store_deps_ok ex_deps"
proof -
  have m: "map (of_nat \<circ> (\<lambda>x. unat x + 256 - 256)) b = b" "map (of_nat \<circ> unat) b = b" for b :: bytes
    by (simp_all add: o_def)
  have h: "map (\<lambda>c. of_nat (c - 256)) (ex_hex b) = b" for b
    using m(1) [of b] by (simp add: ex_hex_def o_def)
  have "46 \<notin> set (ex_hex b)" for b by (auto simp: ex_hex_def)
  then have "protect_deps_ok ex_deps"
    unfolding protect_deps_ok_def ex_deps_def
    using h m(2) by (auto simp: table_codec_ok late_codec ex_envelopes_def)
  moreover have "codec_ok (meta_codec ex_deps)" "codec_ok (identity_codec ex_deps)"
    "codec_ok (history_codec ex_deps)"
    by (simp_all add: ex_deps_def table_codec_ok late_codec ex_identities_def ex_histories_def)
  ultimately show ?thesis
    unfolding store_deps_ok_def root_deps_ok_def by (simp add: ex_deps_def)
qed

text \<open>The same with an authenticated encryption whose ciphertexts begin with the key.\<close>

definition ex_aead_deps :: "(nat, nat, nat, nat) store_deps" where
  "ex_aead_deps = ex_deps
     \<lparr>aead_encrypt := (\<lambda>k n p. Some (k @ p)),
      aead_decrypt := (\<lambda>k n c. if take (length k) c = k then Some (drop (length k) c) else None),
      aead_codec := table_codec
        (map (\<lambda>k. \<lparr>ae_v = 1, ae_nonce_b64 = replicate 24 7, ae_ct_b64 = [k, 0]\<rparr>) [1, 2])\<rparr>"

lemma ex_aead_deps_ok: "store_deps_ok ex_aead_deps"
  using ex_deps_ok
  by (auto simp: store_deps_ok_def root_deps_ok_def protect_deps_ok_def ex_aead_deps_def table_codec_ok)

lemma ex_aead_separates: "aead_separates ex_aead_deps [1] [2]"
  by (simp add: aead_separates_def ex_aead_deps_def)

definition ex_encrypted_root :: "byte \<Rightarrow> StoreRoot" where
  "ex_encrypted_root k = \<lparr>root_base = [lit ''store''], root_protector = Encrypted_protector [k]\<rparr>"

section \<open>Worlds\<close>

definition ex_env :: os_env where
  "ex_env = \<lparr>os_fault = (\<lambda>_. None), os_partial = (\<lambda>_. 0), os_random = (\<lambda>t n. Inr (replicate n 7))\<rparr>"

definition ex_world :: "(path \<times> bytes) list \<Rightarrow> world" where
  "ex_world fs = \<lparr>w_env = ex_env, w_files = map_option (\<lambda>b. File b 384) \<circ> map_of fs, w_dirs = {},
     w_tick = 0\<rparr>"

definition ex_base :: path where "ex_base = [lit ''store'']"

definition ex_root :: StoreRoot where
  "ex_root = \<lparr>root_base = ex_base, root_protector = Integrity_protector (replicate 32 7)\<rparr>"

definition ex_store :: StoreHandle where
  "ex_store = store_handle_open ex_root"

definition ex_id_path :: "nat \<Rightarrow> path" where
  "ex_id_path site = identity_path (on_display ex_deps) ex_root site"

definition ex_hist_path :: "nat \<Rightarrow> path" where
  "ex_hist_path k = history_path (pk_display ex_deps) ex_root k"

lemma ex_quiet: "quiet (ex_world fs)"
  by (auto simp: quiet_def ex_world_def ex_env_def)

text \<open>The same with random bytes that differ from call to call.\<close>

definition counting_env :: os_env where
  "counting_env = ex_env\<lparr>os_random := (\<lambda>t n. Inr (replicate n (of_nat t - 1)))\<rparr>"

definition counting_world :: "(path \<times> bytes) list \<Rightarrow> world" where
  "counting_world fs = (ex_world fs)\<lparr>w_env := counting_env\<rparr>"

lemma counting_distinct: "b \<le> 256 \<Longrightarrow> nonces_distinct counting_env a b"
proof -
  have "of_nat s \<noteq> (of_nat t :: byte)" if "s \<noteq> t" "s < b" "t < b" "b \<le> 256" for s t
    using that by (auto simp: word_of_nat_eq_iff take_bit_eq_mod)
  then show "b \<le> 256 \<Longrightarrow> nonces_distinct counting_env a b"
    by (auto simp: nonces_distinct_def counting_env_def)
qed

lemma counting_quiet: "quiet (counting_world fs)"
  by (auto simp: quiet_def counting_world_def counting_env_def ex_env_def)

section \<open>A core\<close>

type_synonym ex_manifest = "nat \<times> nat \<times> nat \<times> nat"

definition ex_diag :: "DiagnosticCode \<Rightarrow> Diagnostic" where
  "ex_diag c = \<lparr>diag_code = c, diag_debug = lit ''refused''\<rparr>"

text \<open>
  Manifest bytes are publisher, time, runtime key, payload and canary state; content bytes are
  a document number, signed when it follows its runtime key.
\<close>

definition ex_core :: "(ex_manifest, nat, nat, nat, nat, unit, nat, ex_manifest \<times> CanaryState, unit, nat) gui_core" where
  "ex_core =
     \<lparr>manifest_publisher_pubkey = (\<lambda>(p, t, r, h). p),
      canary_runtime_pubkey = (\<lambda>(p, t, r, h). r),
      canary_issued_at = (\<lambda>(p, t, r, h). Some t),
      canonical_payload_hash = (\<lambda>(p, t, r, h). replicate 32 (of_nat h)),
      check_anti_downgrade = (\<lambda>t prev. case prev of
          Some p \<Rightarrow> if t < p then Inl (ex_diag ECanaryDowngrade) else Inr () | None \<Rightarrow> Inr ()),
      check_canary_conflict = (\<lambda>t k h newest. case newest of
          Some r \<Rightarrow> if issued_at r = t \<and> manifest_payload_hash r \<noteq> h
                    then Inl (ex_diag ECanaryConflict) else Inr ()
        | None \<Rightarrow> Inr ()),
      check_runtime_pubkey_rotation = (\<lambda>k t newest older. case newest of
          Some r \<Rightarrow> if runtime_pubkey r = k then Inl (ex_diag ECanaryRuntimeReuse) else Inr ()
        | None \<Rightarrow> Inr ()),
      parse_and_verify_manifest = (\<lambda>b now. if length b = 5 then
          Inr ((unat (b ! 0), unat (b ! 1), unat (b ! 2), unat (b ! 3)),
               if b ! 4 = 0 then Fresh else Expired)
        else Inl (ex_diag (OtherCode 1))),
      verify_canary = (\<lambda>s now. Inr s),
      verify_origin = (\<lambda>s site now. if site = 9 then Inl (ex_diag (OtherCode 2)) else Inr s),
      verify_content_index = (\<lambda>s ci. Inr s),
      into_parts = (\<lambda>(m, c). (m, c, None)),
      parse_and_verify_content = (\<lambda>b r. if length b = 2 \<and> unat (b ! 0) = r then Inr (unat (b ! 1))
        else Inl (ex_diag (OtherCode 3))),
      derive_pip = (\<lambda>k. lit ''phrase '' @ [k + 48]),
      scene_from_content = (\<lambda>n. \<lparr>scene_nodes = [CodeBlock [n + 65],
        Link [RunText (lit ''ref'') \<lparr>style_bold = False, style_italic = False, style_code = False,
          style_strikethrough = False\<rparr>] (Citation (lit ''https://example.org''))]\<rparr>)\<rparr>"

lemma ex_core_ok: "core_checks_ok ex_core"
  unfolding core_checks_ok_def anti_downgrade_ok_def canary_conflict_ok_def rotation_ok_def
    ex_core_def ex_diag_def
  by (auto split: option.splits)

lemma ex_core_recs_ok: "recs_ok record_ok ex_core"
  by (auto simp: recs_ok_def record_for_def ex_core_def record_ok_def)

definition ex_api :: "(nat, nat, nat, nat) cli_api" where
  "ex_api =
     \<lparr>onion_try_from = (\<lambda>s. if s = lit ''site'' then Inr 1 else Inl (lit ''bad'')),
      pubkey_try_from = (\<lambda>s. Inr (hd s)),
      timestamp_try_from = (\<lambda>s. Inr 100),
      json_value = (\<lambda>b. if length b = 5 then Inr (unat (b ! 0)) else Inl (lit ''eof'')),
      json_get_str = (\<lambda>v k. Some [v])\<rparr>"

definition ex_manifest_path :: path where "ex_manifest_path = [lit ''manifest.json'']"

definition ex_content_path :: path where "ex_content_path = [lit ''content.json'']"

text \<open>
  A disk with site 1 pinned to key 1, its history, the store's key, a manifest of \<open>k\<close> and a
  content document.
\<close>

definition ex_disk :: "byte \<Rightarrow> byte \<Rightarrow> (path \<times> bytes) list" where
  "ex_disk k canary =
     [(ex_manifest_path, [k, 7, 4, 2, canary]),
      (ex_id_path 1, [1]),
      (ex_hist_path 1, [0]),
      (key_path ex_base, replicate 32 7),
      (ex_content_path, [4, 6])]"

section \<open>The instance satisfies the invariants\<close>

lemma ex_disk_identity:
  "w_files (ex_world (ex_disk k c)) (ex_id_path site) = (if site = 1 then Some (File [1] 384) else None)"
  by (simp add: ex_world_def ex_disk_def ex_id_path_def ex_hist_path_def ex_manifest_path_def
      ex_content_path_def
      identity_path_def history_path_def key_path_def path_join_def ex_deps_def ex_root_def ex_base_def)

lemma ex_disk_history:
  "w_files (ex_world (ex_disk k c)) (ex_hist_path p) = (if p = 1 then Some (File [0] 384) else None)"
  by (simp add: ex_world_def ex_disk_def ex_id_path_def ex_hist_path_def ex_manifest_path_def
      ex_content_path_def
      identity_path_def history_path_def key_path_def path_join_def ex_deps_def ex_root_def ex_base_def)

lemma ex_paths:
  "fis_path ex_deps (sh_identities ex_store) site = ex_id_path site"
  "fhs_path ex_deps (sh_history ex_store) p = ex_hist_path p"
  by (simp_all add: fis_path_def fhs_path_def ex_store_def store_handle_open_def fis_new_def
      fhs_new_def ex_id_path_def ex_hist_path_def)

lemma ex_content:
  "fis_content ex_deps (sh_identities ex_store) (ex_world (ex_disk k c)) 1 =
     Some (\<lparr>pubkey = 1, provenance = Pinned\<rparr>, [])"
  "fis_readable ex_deps (sh_identities ex_store) (ex_world (ex_disk k c)) 1"
  "fhs_records_at ex_deps (sh_history ex_store) (ex_world (ex_disk k c)) 1 = Inr [ex_record 5 3 1]"
proof -
  have i: "fis_dto_at ex_deps (sh_identities ex_store) (ex_world (ex_disk k c)) 1 =
      Inr (Some (ex_identity 1 Pinned []))"
    unfolding fis_dto_at_def dto_at_def protected_content_def ex_paths ex_disk_identity
    by code_simp
  show "fis_content ex_deps (sh_identities ex_store) (ex_world (ex_disk k c)) 1 =
      Some (\<lparr>pubkey = 1, provenance = Pinned\<rparr>, [])"
    "fis_readable ex_deps (sh_identities ex_store) (ex_world (ex_disk k c)) 1"
    by (simp_all add: fis_content_def fis_readable_def i ex_identity_def del: One_nat_def)
  show "fhs_records_at ex_deps (sh_history ex_store) (ex_world (ex_disk k c)) 1 = Inr [ex_record 5 3 1]"
    unfolding fhs_records_at_def fhs_dto_at_def dto_at_def protected_content_def ex_paths
      ex_disk_history
    by code_simp
qed

lemma ex_inv: "fis_inv ex_deps (sh_identities ex_store) (ex_world (ex_disk k c))"
proof -
  have "fis_readable ex_deps (sh_identities ex_store) (ex_world (ex_disk k c)) site" for site
  proof (cases "site = 1")
    case False
    then have "fis_dto_at ex_deps (sh_identities ex_store) (ex_world (ex_disk k c)) site = Inr None"
      by (intro fis_removed) (simp add: ex_paths ex_disk_identity)
    then show ?thesis by (simp add: fis_readable_def)
  qed (simp add: ex_content del: One_nat_def)
  with ex_deps_ok show ?thesis by (simp add: fis_inv_def)
qed

lemma ex_hinv: "fhs_inv ex_deps (sh_history ex_store) (ex_world (ex_disk k c))"
proof -
  have "is_ok (fhs_records_at ex_deps (sh_history ex_store) (ex_world (ex_disk k c)) p)" for p
  proof (cases "p = 1")
    case False
    then show ?thesis
      by (simp add: fhs_records_at_def fhs_dto_at_def dto_at_def protected_content_def ex_paths
          ex_disk_history)
  qed (simp add: ex_content del: One_nat_def)
  with ex_deps_ok show ?thesis by (simp add: fhs_inv_def)
qed

lemma ex_empty_inv:
  "fis_inv ex_deps st (ex_world [])" "fhs_inv ex_deps hst (ex_world [])"
  "fis_content ex_deps st (ex_world []) = (\<lambda>_. None)"
  using ex_deps_ok
  by (simp_all add: fis_inv_def fhs_inv_def fis_readable_def fis_dto_at_def fhs_records_at_def
      fhs_dto_at_def dto_at_def protected_content_def ex_world_def fis_content_def fun_eq_iff)

lemma pair_result: "is_ok (fst p) \<Longrightarrow> p = (Inr (projr (fst p)), snd p)"
  by (cases p) (auto simp: is_ok_def split: sum.splits)

section \<open>A session of the instance\<close>

text \<open>
  The session of the shell on the disk \<open>ex_disk k canary\<close> (site 1 is pinned to key 1), where
  the manifest of key \<open>k\<close> is opened and the given frames follow.
\<close>

definition ex_built ::
  "byte \<Rightarrow> byte \<Rightarrow> (failure + (nat, nat, nat, nat, unit, nat) Loaded) \<times> world" where
  "ex_built k c = build ex_core ex_deps ex_api ex_manifest_path (lit ''site'') None ex_store
     (ex_world (ex_disk k c))"

definition ex_started ::
  "byte \<Rightarrow> byte \<Rightarrow> (nat, nat, nat, nat, unit, nat) App \<times> ustring list \<times> world" where
  "ex_started k c = app_new ex_deps (derive_pip ex_core) (projr (fst (ex_built k c))) ex_store
     (snd (ex_built k c))"

definition ex_session ::
  "byte \<Rightarrow> byte \<Rightarrow> frame_input list \<Rightarrow>
   frame_output list \<times> (nat, nat, nat, nat, unit, nat) App \<times> world" where
  "ex_session k c inps = app_run ex_deps (derive_pip ex_core) inps (fst (ex_started k c))
     (snd (snd (ex_started k c)))"

text \<open>The same site with its content document.\<close>

definition ex_linked ::
  "(failure + (nat, nat, nat, nat, unit, nat) Loaded) \<times> world" where
  "ex_linked = build ex_core ex_deps ex_api ex_manifest_path (lit ''site'') (Some ex_content_path)
     ex_store (ex_world (ex_disk 1 0))"

text \<open>An application whose document has the given record.\<close>

definition ex_app :: "nat \<Rightarrow> nat \<Rightarrow> nat \<Rightarrow> (nat, nat, nat, nat, unit, nat) App" where
  "ex_app t r h =
     \<lparr>app_loaded =
        \<lparr>ld_chrome = chrome_build (derive_pip ex_core) 1 FirstContact Fresh [] chrome_conditions_default,
         ld_scene = None, ld_publisher = 1, ld_site = 1, ld_retained = None,
         ld_required_action = PinPrompt, ld_initial_intent = RecordObservation 1,
         ld_record = Some (ex_record t r h), ld_canary_state = Fresh, ld_compact_address = []\<rparr>,
      app_store = ex_store, app_handoff = None, app_canary_override = False,
      app_pin_prompt = None, app_mismatch_prompt = None\<rparr>"

definition clicking :: "ustring \<Rightarrow> frame_input" where
  "clicking button = no_input\<lparr>fi_button := (\<lambda>s. s = button)\<rparr>"

lemma ex_built_same: "is_ok (fst (ex_built 1 0))"
  by code_simp

lemma ex_built_changed: "is_ok (fst (ex_built 2 0))"
  by code_simp

lemma ex_built_expired: "is_ok (fst (ex_built 1 1))"
  by code_simp

lemma ex_session_steps:
  assumes "is_ok (fst (ex_built k c))"
  shows "build ex_core ex_deps ex_api ex_manifest_path (lit ''site'') None ex_store
      (ex_world (ex_disk k c)) = (Inr (projr (fst (ex_built k c))), snd (ex_built k c))"
    and "app_new ex_deps (derive_pip ex_core) (projr (fst (ex_built k c))) ex_store
      (snd (ex_built k c)) =
      (fst (ex_started k c), fst (snd (ex_started k c)), snd (snd (ex_started k c)))"
    and "app_run ex_deps (derive_pip ex_core) inps (fst (ex_started k c)) (snd (snd (ex_started k c))) =
      (fst (ex_session k c inps), fst (snd (ex_session k c inps)), snd (snd (ex_session k c inps)))"
  using pair_result [OF assms] by (simp_all add: ex_built_def ex_started_def ex_session_def)

lemma ex_retained:
  "app_record ex_deps ex_store (ex_world (ex_disk k c)) 1 = Some (\<lparr>pubkey = 1, provenance = Pinned\<rparr>, [])"
  unfolding app_record_def by (rule ex_content)

section \<open>A lifetime of the instance\<close>

text \<open>
  The store of \<open>ex_disk 2 0\<close> is opened from its files, the manifest of key 2 is presented at
  the site pinned to key 1, and the given button is clicked.
\<close>

definition ex_setup :: store_setup where
  "ex_setup = \<lparr>su_feature = False, su_base = ex_base, su_protection = Integrity, su_passphrase = None\<rparr>"

definition ex_world1 :: "byte \<Rightarrow> world" where
  "ex_world1 k = (ex_world (ex_disk k 0))
     \<lparr>w_dirs := {[], ex_base, path_join ex_base (lit ''identities''), path_join ex_base (lit ''history'')},
      w_tick := 5\<rparr>"

definition ex_run ::
  "byte \<Rightarrow> (failure + (nat, nat, nat, nat, unit, nat) Loaded) \<times> world" where
  "ex_run k = build ex_core ex_deps ex_api ex_manifest_path (lit ''site'') None ex_store (ex_world1 k)"

definition ex_window ::
  "byte \<Rightarrow> (nat, nat, nat, nat, unit, nat) App \<times> ustring list \<times> world" where
  "ex_window k = app_new ex_deps (derive_pip ex_core) (projr (fst (ex_run k))) ex_store
     (snd (ex_run k))"

definition ex_clicked ::
  "byte \<Rightarrow> ustring \<Rightarrow> frame_output \<times> (nat, nat, nat, nat, unit, nat) App \<times> world" where
  "ex_clicked k b = update ex_deps (derive_pip ex_core) (clicking b) (fst (ex_window k))
     (snd (snd (ex_window k)))"

definition ex_end ::
  "byte \<Rightarrow> ustring \<Rightarrow> world \<times> (nat, nat, nat, nat, unit, nat) App option" where
  "ex_end k b = (snd (snd (ex_clicked k b)), Some (fst (snd (ex_clicked k b))))"

lemma ex_key_file:
  "w_files (ex_world (ex_disk k c)) (key_path ex_base) = Some (File (replicate 32 7) 384)"
  by (simp add: ex_world_def ex_disk_def ex_id_path_def ex_hist_path_def ex_manifest_path_def
      ex_content_path_def identity_path_def history_path_def key_path_def path_join_def ex_deps_def
      ex_root_def ex_base_def)

lemma ex_open_run: "let w = open_integrity ex_deps ex_base (ex_world (ex_disk 2 0)) in
    fst w = Inr ex_root \<and> w_dirs (snd w) = w_dirs (ex_world1 2) \<and> w_tick (snd w) = 5"
  by code_simp

lemma ex_opened: "setup_open ex_deps ex_setup (ex_world (ex_disk 2 0)) = (Inr ex_root, ex_world1 2)"
proof -
  obtain r w' where o: "open_integrity ex_deps ex_base (ex_world (ex_disk 2 0)) = (r, w')"
    by (metis surj_pair)
  have r: "r = Inr ex_root" "w_dirs w' = w_dirs (ex_world1 2)" "w_tick w' = 5"
    using ex_open_run o by (simp_all add: Let_def)
  have "touches {} (ex_world (ex_disk 2 0)) w'"
    using open_integrity_existing [OF o [unfolded r(1)] ex_key_file] by simp
  then have "w' = ex_world1 2"
    using r by (cases w') (simp add: touches_def ex_world1_def fun_eq_iff)
  with o r(1) show ?thesis by (simp add: setup_open_def ex_setup_def)
qed

lemma ex_run_ok: "case fst (ex_run 2) of
    Inr l \<Rightarrow> ld_site l = 1 \<and> ld_publisher l = 2 \<and> ld_required_action l = MismatchWarning
  | Inl _ \<Rightarrow> False"
  by code_simp

lemma ex_run_steps:
  obtains l app msgs w where "ex_run 2 = (Inr l, snd (ex_run 2))" "ld_site l = 1" "ld_publisher l = 2"
    "app_new ex_deps (derive_pip ex_core) l (store_handle_open ex_root) (snd (ex_run 2)) = (app, msgs, w)"
    "ex_window 2 = (app, msgs, w)"
    "app_pin_prompt app = None" "app_mismatch_prompt app \<noteq> None"
proof -
  obtain l where l: "ex_run 2 = (Inr l, snd (ex_run 2))" "ld_site l = 1" "ld_publisher l = 2"
    "ld_required_action l = MismatchWarning"
    using ex_run_ok by (cases "ex_run 2") (auto split: sum.splits)
  obtain app msgs w where n: "ex_window 2 = (app, msgs, w)" by (cases "ex_window 2") auto
  then have "app_new ex_deps (derive_pip ex_core) l (store_handle_open ex_root) (snd (ex_run 2)) =
      (app, msgs, w)"
    using l(1) by (simp add: ex_window_def ex_store_def prod_eq_iff)
  with app_new_prompts [OF this] l n show thesis
    by (intro that) (auto simp: prompts_for_def)
qed

lemma ex_clicks:
  assumes "app_pin_prompt app = None" and "app_mismatch_prompt app \<noteq> None"
  shows "frame_decision (clicking BTN_VERIFIED_NEW) app = Some ConfirmPip"
    and "frame_decision (clicking BTN_CONFIRM_NEW) app = Some ConfirmNewIdentity"
  using assms
  by (auto simp: frame_decision_def draw_action_panel_def draw_mismatch_panel_def Let_def
      clicking_def no_input_def button_defs)

text \<open>The path: the key is presented, then the decision of the button is taken.\<close>

lemma ex_path:
  assumes "b = BTN_VERIFIED_NEW \<and> d = ConfirmPip \<or> b = BTN_CONFIRM_NEW \<and> d = ConfirmNewIdentity"
  shows "life ex_core ex_deps ex_api ex_setup (ex_world (ex_disk 2 0), None)
    [Presented 1 2, Decided 1 2 d (clicking b)] (ex_end 2 b)"
proof -
  obtain l app msgs w where l: "ex_run 2 = (Inr l, snd (ex_run 2))" "ld_site l = 1" "ld_publisher l = 2"
    and n: "app_new ex_deps (derive_pip ex_core) l (store_handle_open ex_root) (snd (ex_run 2)) = (app, msgs, w)"
    and win: "ex_window 2 = (app, msgs, w)"
    and p: "app_pin_prompt app = None" "app_mismatch_prompt app \<noteq> None" by (rule ex_run_steps)
  have b: "build ex_core ex_deps ex_api ex_manifest_path (lit ''site'') None (store_handle_open ex_root)
      (ex_world1 2) = (Inr l, snd (ex_run 2))"
    using l(1) by (simp add: ex_run_def ex_store_def prod_eq_iff)
  have u: "update ex_deps (derive_pip ex_core) (clicking b) app w =
      (fst (ex_clicked 2 b), fst (snd (ex_clicked 2 b)), snd (snd (ex_clicked 2 b)))"
    by (simp add: ex_clicked_def win)
  have d: "frame_decision (clicking b) app = Some d"
    using ex_clicks [OF p] assms by auto
  have inv: "fis_inv ex_deps (sh_identities (store_handle_open ex_root)) (ex_world1 2)"
    using ex_inv [of 2 0] fis_inv_files [of "ex_world1 2" "ex_world (ex_disk 2 0)" ex_deps "fis_new ex_root"]
    by (simp add: ex_store_def ex_world1_def)
  have loaded: "ld_site (app_loaded app) = 1" "ld_publisher (app_loaded app) = 2"
    using app_new_inv(3,4) [OF session_start(1,2) [OF inv b n] n] l(2,3) by simp_all
  from life_then [OF life_one [OF started [OF ex_opened b n]] decided [OF u d]]
  show ?thesis by (simp add: ex_end_def l(2,3) loaded)
qed

lemma ex_life_inv: "life_inv ex_deps ex_setup ex_root (ex_world (ex_disk k c), None)"
  using ex_inv [of k c] ex_key_file [of k c]
  by (simp add: life_inv_def keyed_def ex_setup_def ex_store_def ex_root_def)

lemma ex_life_record:
  "life_record ex_deps ex_root (ex_world (ex_disk k c), m) 1 =
     Some (\<lparr>pubkey = 1, provenance = Pinned\<rparr>, [])"
  using ex_content(1) [of k c] by (simp add: life_record_def ex_store_def del: One_nat_def)

lemma ex_life_hist_inv: "life_hist_inv ex_deps ex_root (ex_world (ex_disk k c), None)"
proof -
  let ?rs = "\<lambda>p. from_records_newest_first (fhs_content ex_deps (fhs_new ex_root) (ex_world (ex_disk k c)) p)"
  have "history_chain (?rs p)" for p
  proof (cases "p = 1")
    case True
    then show ?thesis using ex_content(3) [of k c]
      by (simp add: fhs_content_def ex_store_def history_chain_def from_records_newest_first_def
          records_def del: One_nat_def)
  next
    case False
    then have "w_files (ex_world (ex_disk k c)) (fhs_path ex_deps (fhs_new ex_root) p) = None"
      using ex_paths(2) [of p] ex_disk_history [of k c p] by (simp add: ex_store_def)
    then show ?thesis
      by (simp add: fhs_content_def fhs_records_at_def fhs_dto_at_def dto_at_def protected_content_def
          history_chain_def from_records_newest_first_def records_def)
  qed
  with ex_hinv [of k c] show ?thesis by (simp add: life_hist_inv_def histories_ok_def ex_store_def)
qed

lemma ex_peek_agrees: "peek_agrees ex_core ex_api"
  by (auto simp: peek_agrees_def peek_publisher_pubkey_def chain_passes_def ex_core_def ex_api_def
    map_err_def result_inv split: if_splits sum.splits)

text \<open>
  Two windows open site 1 of an empty store with manifests of the keys 1 and 2, one pins and
  the other verifies, and their calls take turns.
\<close>

definition two_sessions :: "session list" where
  "two_sessions =
     [\<lparr>se_manifest = [1, 7, 4, 2, 0], se_content = None, se_onion = lit ''site'',
       se_frames = [clicking BTN_PIN]\<rparr>,
      \<lparr>se_manifest = [2, 7, 4, 2, 0], se_content = Some [4, 6], se_onion = lit ''site'',
       se_frames = [no_input, clicking BTN_VERIFIED]\<rparr>]"

section \<open>The fixture\<close>

text \<open>
  Seeds give keys by their last digit, so that 0xB1 is key 1 and 0xC1 key 2; the four instants
  are numbers in their order.
\<close>

definition ex_times :: "ustring \<Rightarrow> ustring + nat" where
  "ex_times s =
     (if s = lit ''2026-05-07T00:00:00Z'' then Inr 50
      else if s = lit ''2026-06-01T00:00:00Z'' then Inr 61
      else if s = lit ''2026-06-05T00:00:00Z'' then Inr 65
      else if s = lit ''2026-06-06T00:00:00Z'' then Inr 66 else Inl (lit ''bad time''))"

definition ex_dump_api :: "(nat, nat, nat, nat) cli_api" where
  "ex_dump_api = ex_api\<lparr>onion_try_from := (\<lambda>_. Inr 1), timestamp_try_from := ex_times\<rparr>"

definition ex_build_manifest ::
  "(nat, nat, nat, nat, nat, nat) UnsignedManifest \<Rightarrow> nat \<Rightarrow> nat \<Rightarrow> ustring + ex_manifest \<times> bytes" where
  "ex_build_manifest u s t =
     (let p = um_publisher_pubkey u; i = ca_issued_at (um_canary u);
          r = ca_runtime_pubkey (um_canary u)
      in if p < 256 \<and> i < 256 \<and> r < 256 \<and> or_address (um_origin u) \<noteq> 9
         then Inr ((p, i, r, 2), [of_nat p, of_nat i, of_nat r, 2,
           if ca_next_expected (um_canary u) < 65 then 1 else 0])
         else Inl (lit ''too large''))"

definition ex_build_content ::
  "(ustring, nat, nat, ustring) UnsignedContent \<Rightarrow> nat \<Rightarrow> ustring + nat \<times> bytes" where
  "ex_build_content c rk = (if rk < 256 then Inr (6, [of_nat rk, 6]) else Inl (lit ''too large''))"

text \<open>BASE32 of whole groups of five bits: A to Z are 0 to 25, 2 to 7 are 26 to 31.\<close>

fun ex_fives :: "bool list \<Rightarrow> ustring" where
  "ex_fives (a # b # c # d # e # bs) =
     (let n = 16 * of_bool a + 8 * of_bool b + 4 * of_bool c + 2 * of_bool d + of_bool e
      in if n < 26 then 65 + n else 24 + n) # ex_fives bs"
| "ex_fives _ = []"

definition ex_byte_bits :: "byte \<Rightarrow> bool list" where
  "ex_byte_bits x = map (bit x) [7, 6, 5, 4, 3, 2, 1, 0]"

definition ex_bits :: "bytes \<Rightarrow> bool list" where
  "ex_bits bytes = concat (map ex_byte_bits bytes)"

lemma ex_byte_bits_length [simp]: "length (ex_byte_bits x) = 8"
  by (simp add: ex_byte_bits_def)

definition ex_base32 :: "bytes \<Rightarrow> ustring" where
  "ex_base32 bytes = ex_fives (ex_bits bytes)"

lemma ex_fives_shape: "length (ex_fives bs) = length bs div 5 \<and> set (ex_fives bs) \<subseteq> {65..90} \<union> {50..55}"
  by (induction bs rule: ex_fives.induct) (auto simp: Let_def of_bool_def)

lemma ex_fives_inject:
  "length as = 5 * n \<Longrightarrow> length bs = 5 * n \<Longrightarrow> ex_fives as = ex_fives bs \<Longrightarrow> as = bs"
proof (induction n arbitrary: as bs)
  case (Suc n)
  have five: "\<exists>a b c d e ys. xs = a # b # c # d # e # ys \<and> length ys = 5 * n" if "length xs = 5 * Suc n"
    for xs :: "bool list"
    using that by (auto simp: length_Suc_conv numeral_eq_Suc)
  obtain a b c d e xs where 1: "as = a # b # c # d # e # xs" "length xs = 5 * n" using five [OF Suc.prems(1)] by blast
  obtain a' b' c' d' e' ys where 2: "bs = a' # b' # c' # d' # e' # ys" "length ys = 5 * n" using five [OF Suc.prems(2)] by blast
  from Suc.prems(3) have "ex_fives xs = ex_fives ys" by (simp add: 1 2)
  moreover have "a = a' \<and> b = b' \<and> c = c' \<and> d = d' \<and> e = e'"
    using Suc.prems(3)
    by (cases a; cases a'; cases b; cases b'; cases c; cases c'; cases d; cases d'; cases e; cases e')
      (simp_all add: 1 2)
  ultimately show ?case using Suc.IH [OF 1(2) 2(2)] by (simp add: 1 2)
qed simp

lemma ex_bits_length: "length (ex_bits b) = 8 * length b"
  by (induction b) (simp_all add: ex_bits_def)

lemma ex_byte_inject:
  fixes x y :: byte
  assumes "ex_byte_bits x = ex_byte_bits y"
  shows "x = y"
proof (rule bit_word_eqI)
  fix n assume "n < LENGTH(8)"
  then have "n \<in> set [7, 6, 5, 4, 3, 2, 1, 0]" by auto
  with assms show "bit x n = bit y n" unfolding ex_byte_bits_def map_eq_conv by blast
qed

lemma ex_bits_inject: "length a = length b \<Longrightarrow> ex_bits a = ex_bits b \<Longrightarrow> a = b"
proof (induction a b rule: list_induct2)
  case (Cons x xs y ys)
  then show ?case using ex_byte_inject [of x y] by (simp add: ex_bits_def)
qed simp

lemma ex_base32_inject: "inj_on ex_base32 {b. length b = 35}"
proof (rule inj_onI, unfold mem_Collect_eq)
  fix a b :: bytes assume l: "length a = 35" "length b = 35" and "ex_base32 a = ex_base32 b"
  then have "ex_bits a = ex_bits b"
    by (intro ex_fives_inject [of _ 56]) (simp_all add: ex_base32_def ex_bits_length)
  with l show "a = b" by (intro ex_bits_inject) simp_all
qed

definition ex_fixture ::
  "(nat, nat, nat, nat, nat, nat, nat, nat, ustring, nat, ustring, ex_manifest, nat) fixture_api" where
  "ex_fixture =
     \<lparr>publisher_from_seed = (\<lambda>b. if b = replicate 32 0xB1 then 1 else 2),
      publisher_verifying_key = (\<lambda>k. k), publisher_as_bytes = (\<lambda>k. replicate 32 (of_nat k)),
      runtime_from_seed = (\<lambda>_. 4), runtime_verifying_key = (\<lambda>k. k), origin_from_bytes = length,
      sha3_256 = (\<lambda>_. replicate 32 0), base32_encode = ex_base32, canary_time = (\<lambda>t. t),
      entangled_path_try_from = Inr, heading_level_try_from = (\<lambda>n. Inr (unat n)),
      slug_try_from = Inr, build_manifest = ex_build_manifest, build_content = ex_build_content\<rparr>"

lemma ex_address_deps_ok: "address_deps_ok ex_fixture"
  using ex_base32_inject ex_fives_shape
  by (auto simp: address_deps_ok_def ex_base32_def ex_bits_length ex_fixture_def)

lemma ex_fixture_times: "fixture_times_ok ex_dump_api 65"
  by (simp add: fixture_times_ok_def ex_dump_api_def ex_times_def)

lemma ex_fixture_core_ok: "fixture_core_ok ex_fixture ex_core ex_dump_api 65"
  by (auto simp: fixture_core_ok_def ex_fixture_def ex_build_manifest_def ex_build_content_def
      ex_core_def ex_dump_api_def ex_api_def chain_passes_def peek_publisher_pubkey_def Let_def
      unat_of_nat split: if_splits)

section \<open>Images, metadata\<close>

definition ex_image_api :: "(nat, nat) image_api" where
  "ex_image_api = \<lparr>sha256_image = length, src_as_str = (\<lambda>p. [p + 1]), sha256_display = (\<lambda>h. [h + 1])\<rparr>"

definition ex_image :: "32 word \<Rightarrow> 32 word \<Rightarrow> (nat, nat) ImageRef" where
  "ex_image w h = \<lparr>img_src = 1, img_sha256 = 3, img_media_type = Png, img_width = w, img_height = h,
     img_alt = [], img_caption = None\<rparr>"

definition ex_decoder :: "32 word \<Rightarrow> 32 word \<Rightarrow> decoder" where
  "ex_decoder w h body t = Inr \<lparr>dec_width = w, dec_height = h, dec_animated = False\<rparr>"

lemma ex_meta_encodes:
  "to_vec (meta_codec ex_deps) \<lparr>meta_v = META_V, meta_protection = Integrity_tag,
     meta_salt_b64 = None\<rparr> = Inr [0]"
  by code_simp

end
