(* ===== verification/Store_Properties.thy ===== *)
theory Store_Properties
  imports Instances
begin

text \<open>
  The properties of the persistence layer: atomic writes, protection, the on-disk records,
  and the two file stores against the trust ledger, the in-memory double and the ordered
  history, the sequences of calls they are made of, and two races between processes. Their
  proofs are the facts of the interpretations \<open>fis\<close>, \<open>fhs\<close>, \<open>fhs_ordered\<close> and \<open>mis\<close>; each
  is followed by the same statement at a concrete input.
\<close>





text \<open>
  C10: A write is all or nothing, for every environment (a crash between any two calls is one):
  if it succeeds the file holds exactly the new bytes with mode 0600, and if it fails no file
  of the store, the target included, has changed.
\<close>

theorem write_atomic_all_or_nothing:
  assumes "protect_deps_ok D" and "p \<noteq> []" and "last p \<noteq> []" and "not_tmp q"
    and "write_atomic D p data w = (r, w')"
  shows "w_files w' q = (if is_ok r \<and> q = p then Some (File data (6 * 8 ^ 2)) else w_files w q)"
proof -
  have q: "q \<notin> tmp_names D p" by (rule tmp_name_not_store_path [OF assms(1-4)])
  show ?thesis
  proof (cases r)
    case (Inl e)
    with assms(5) q show ?thesis by (simp add: touchesD [OF write_atomic_Err])
  next
    case (Inr u)
    with write_atomic_Ok(1) [of D p data w u w'] assms(5) q show ?thesis
      by (auto simp: TMP_MODE_def)
  qed
qed

text \<open>The write fails at its third call, after some of the bytes reached the temporary file.\<close>

theorem write_atomic_all_or_nothing_witness:
  "let w = (ex_world (ex_disk 1 0))\<lparr>w_env := ex_env\<lparr>os_fault := (\<lambda>n. if n = 3 then Some [] else None),
        os_partial := (\<lambda>_. 1)\<rparr>\<rparr>
   in w_files (snd (write_atomic ex_deps (ex_id_path 1) [9, 9] w)) (ex_id_path 1) =
      w_files w (ex_id_path 1)"
proof -
  let ?w = "(ex_world (ex_disk 1 0))\<lparr>w_env := ex_env\<lparr>os_fault := (\<lambda>n. if n = 3 then Some [] else None),
      os_partial := (\<lambda>_. 1)\<rparr>\<rparr>"
  let ?r = "write_atomic ex_deps (ex_id_path 1) [9, 9] ?w"
  have f: "\<not> is_ok (fst ?r)" by code_simp
  have "w_files (snd ?r) (ex_id_path 1) = (if is_ok (fst ?r) \<and> ex_id_path 1 = ex_id_path 1
      then Some (File [9, 9] (6 * 8 ^ 2)) else w_files ?w (ex_id_path 1))"
    by (rule write_atomic_all_or_nothing [OF store_deps_okD(1) [OF ex_deps_ok] _ _ _ prod.collapse [symmetric]])
      (simp_all add: ex_id_path_def)
  with f show ?thesis unfolding Let_def by simp
qed





text \<open>
  C17: The in-memory double and the file store are the same store: where they hold the same
  identities, a visit the file store completes resolves the same way in the double and leaves
  the same identities and replaced keys in both.
\<close>

theorem memory_store_agrees_with_file_store:
  assumes "mis_inv s" and "fis_inv D st w" and "mis_content s = fis_content D st w"
    and "store_visit (fis_load_identity D st) (fis_apply D st) site k d w = (Inr res, w')"
  shows "fst (store_visit mis_load_identity mis_apply site k d s) = Inr res \<and>
    mis_content (snd (store_visit mis_load_identity mis_apply site k d s)) = fis_content D st w'"
proof -
  obtain q s' where v: "store_visit mis_load_identity mis_apply site k d s = (q, s')"
    by (cases "store_visit mis_load_identity mis_apply site k d s")
  obtain s1 where a: "mis_apply site (res_intent (resolve k (mis_map s site) d)) s = (Inr (), s1)"
    using mis_apply_ok by (metis prod.collapse)
  from v have "q = Inr (resolve k (mis_map s site) d)"
    by (simp add: store_visit_def act_bind_def Let_def mis_load_identity_def a)
  then obtain res' where q: "q = Inr res'" ..
  note m = mis.visit_Ok [OF assms(1) v [unfolded q]] and f = fis.visit_Ok [OF assms(2,4)]
  show ?thesis using v q m f assms(3) by simp
qed

theorem memory_store_agrees_with_file_store_witness:
  "mis_content (snd (store_visit mis_load_identity mis_apply 1 1 PinFirstContact mis_new)) =
   fis_content ex_deps (fis_new ex_root) (snd (store_visit (fis_load_identity ex_deps (fis_new ex_root))
     (fis_apply ex_deps (fis_new ex_root)) 1 1 PinFirstContact (ex_world [])))"
proof -
  let ?v = "store_visit (fis_load_identity ex_deps (fis_new ex_root))
     (fis_apply ex_deps (fis_new ex_root)) 1 1 PinFirstContact (ex_world [])"
  have "is_ok (fst ?v)" by code_simp
  note v = pair_result [OF this]
  have c: "mis_content mis_new = fis_content ex_deps (fis_new ex_root) (ex_world [])"
    by (simp add: ex_empty_inv(3) mis_content_def mis_new_def fun_eq_iff)
  show ?thesis
    using memory_store_agrees_with_file_store [OF mis_new_ok(1) ex_empty_inv(1) c v] by blast
qed




text \<open>
  C29: Two windows that open a new store for the first time can leave a record that nobody can
  read: where one has looked for the key file before the other created it, both openings
  succeed, each with a key of its own. What the first then writes for a site is an error under
  the key that stays on disk (where a tag belongs to one key only), for every later load and,
  as the second window's key is the one later openings find, for every later run.
\<close>

theorem racing_first_opens_lose_record:
  assumes "store_deps_ok D" and "ensure_dirs base w = (Inr (), wb)"
    and "read_file_opt (key_path base) wb = (Inr None, w1)"
    and "open_integrity D base w1 = (Inr ra, wa)"
    and "w_files w (fis_path D (fis_new ra) site) = None" and "i \<noteq> None_intent"
    and "fis_apply D (fis_new ra) site i wa = (Inr (), w2)"
    and "run (p_open_with D base None) w2 = (Inr rb, w3)"
    and "hmac_separates D (key (root_protector ra)) (key (root_protector rb))"
  shows "(\<exists>sched. exec sched [open_then_apply D base site i, p_open_integrity D base] w =
        ([Ret (Inr ra), Ret (Inr rb)], w3)) \<and>
     (\<exists>f. w_files w3 (key_path base) = Some f \<and> contents f = key (root_protector rb)) \<and>
     \<not> is_ok (fst (fis_load_identity D (fis_new rb) site w3))"
  using racing_opens [OF assms] fis_corrupt_closed(1) by fastforce

text \<open>Site 1 of a new store is pinned by a window whose key is overwritten.\<close>

theorem racing_first_opens_lose_record_witness:
  "\<exists>sched ra rb w'. exec sched [open_then_apply ex_deps ex_base 1 (PinIdentity 1),
       p_open_integrity ex_deps ex_base] (counting_world []) = ([Ret (Inr ra), Ret (Inr rb)], w') \<and>
     \<not> is_ok (fst (fis_load_identity ex_deps (fis_new rb) 1 w'))"
proof -
  let ?e = "ensure_dirs ex_base (counting_world [])"
  let ?r = "read_file_opt (key_path ex_base) (snd ?e)"
  let ?o = "open_integrity ex_deps ex_base (snd ?r)"
  let ?a = "fis_apply ex_deps (fis_new (projr (fst ?o))) 1 (PinIdentity 1) (snd ?o)"
  let ?l = "run (p_open_with ex_deps ex_base None) (snd ?a)"
  have "is_ok (fst ?e)" by code_simp
  then have e: "?e = (Inr (), snd ?e)" using pair_result by fastforce
  have "fst ?r = Inr None" by code_simp
  then have r: "?r = (Inr None, snd ?r)" by (metis prod.collapse)
  have "is_ok (fst ?o)" by code_simp
  note o = pair_result [OF this]
  have "is_ok (fst ?a)" by code_simp
  then have a: "?a = (Inr (), snd ?a)" using pair_result by fastforce
  have "is_ok (fst ?l)" by code_simp
  note l = pair_result [OF this]
  have "key (root_protector (projr (fst ?o))) = replicate 32 7" by code_simp
  moreover have "key (root_protector (projr (fst ?l))) = replicate 32 28" by code_simp
  ultimately have sep: "hmac_separates ex_deps (key (root_protector (projr (fst ?o))))
      (key (root_protector (projr (fst ?l))))"
    by (simp add: hmac_separates_def ex_deps_def)
  have new: "w_files (counting_world []) p = None" for p
    by (simp add: counting_world_def ex_world_def)
  have intent: "PinIdentity (1 :: nat) \<noteq> None_intent" by simp
  note lost = racing_first_opens_lose_record [OF ex_deps_ok e r o new intent a l sep]
  show ?thesis
    using conjunct1 [OF lost] conjunct2 [OF conjunct2 [OF lost]] by (elim exE) (intro exI conjI)
qed

text \<open>
  C32: In Integrity mode a loaded identity is authentic: it was decoded from a payload that
  carries the tag the store's own key gives it, and from nothing else.
\<close>

theorem loaded_identity_authentic:
  assumes "store_deps_ok D" and "root_protector (fis_root st) = Integrity_protector k"
    and "fis_load_identity D st site w = (Inr (Some identity), w')"
  shows "\<exists>f env payload tag dto. w_files w (fis_path D st site) = Some f \<and>
    from_slice (envelope_codec D) (contents f) = Inr env \<and>
    b64_decode D (ie_payload_b64 env) = Inr payload \<and> b64_decode D (ie_mac_b64 env) = Inr tag \<and>
    hmac_tag D k payload = Inr tag \<and>
    from_slice (identity_codec D) payload = Inr dto \<and> to_identity dto = Inr identity"
proof -
  obtain w1 dto where l: "fis_load_dto D st site w = (Inr (Some dto), w1)"
    and i: "to_identity dto = Inr identity"
    using assms(3) by (auto simp: fis_load_identity_def action_elims result_inv split: option.splits)
  from dto_at_authentic [OF store_deps_okD(1) [OF assms(1)] assms(2)
      fis_load_dto_facts(2) [OF l refl, unfolded fis_dto_at_def]] i
  show ?thesis by blast
qed

theorem loaded_identity_authentic_witness:
  "\<exists>f. w_files (ex_world (ex_disk 1 0)) (fis_path ex_deps (fis_new ex_root) 1) = Some f"
proof -
  let ?l = "fis_load_identity ex_deps (fis_new ex_root) 1 (ex_world (ex_disk 1 0))"
  have "fst ?l = Inr (Some \<lparr>pubkey = 1, provenance = Pinned\<rparr>)" by code_simp
  then have l: "?l = (Inr (Some \<lparr>pubkey = 1, provenance = Pinned\<rparr>), snd ?l)"
    by (metis prod.collapse)
  have "root_protector (fis_root (fis_new ex_root)) = Integrity_protector (replicate 32 7)"
    by (simp add: fis_new_def ex_root_def)
  from loaded_identity_authentic [OF ex_deps_ok this l] show ?thesis by blast
qed

text \<open>
  C33: What is sealed opens to the same payload, in both protection modes, for every nonce the
  environment delivers.
\<close>

theorem seal_open_roundtrip:
  assumes "protect_deps_ok D" and "seal D protector payload w = (Inr sealed, w')"
  shows "open_sealed D protector sealed = Inr payload"
  using assms by (rule seal_open)

theorem seal_open_roundtrip_witness:
  "open_sealed ex_deps (Integrity_protector [7])
     (projr (fst (seal ex_deps (Integrity_protector [7]) [4] (ex_world [])))) = Inr [4]"
proof -
  have "is_ok (fst (seal ex_deps (Integrity_protector [7]) [4] (ex_world [])))" by code_simp
  from seal_open_roundtrip [OF store_deps_okD(1) [OF ex_deps_ok] pair_result [OF this]]
  show ?thesis .
qed

text \<open>
  C34: Exactly five shapes of an identity record are readable: the three of version 2, which
  carry a known provenance and no legacy flag, and the two of version 1, which carry the flag
  and no provenance. Anything else is an error, and what is read is the record's own key with
  the provenance written there.
\<close>

theorem readable_identity_records:
  "result_bind (identity_check_version d) (\<lambda>_. to_identity d) = Inr i \<longleftrightarrow>
     pubkey i = id_pubkey d \<and>
     ((id_v d = 2 \<and> id_externally_verified d = None \<and>
         id_provenance d = Some (provenance_str (provenance i))) \<or>
      (id_v d = 1 \<and> id_provenance d = None \<and> provenance i \<noteq> Observed \<and>
         id_externally_verified d = Some (provenance i = ExternallyVerified_prov)))"
  by (auto simp: result_bind_Inr to_identity_Ok identity_check_version_def IDENTITY_V_def
      IDENTITY_V1_def)



text \<open>
  C40: Opening an encrypted store in Integrity mode is not refused: a store whose metadata
  records Encrypted mode has no key file, so the open succeeds, overwrites the metadata and
  with it the salt, and from then on the store cannot be opened with its passphrase.
\<close>

theorem integrity_open_destroys_encrypted_store:
  assumes "root_deps_ok D" and "quiet w" and "w_files w (key_path base) = None"
    and "no_tmp D (key_path base) w" and "no_tmp D (meta_path base) w"
    and "to_vec (meta_codec D) \<lparr>meta_v = META_V, meta_protection = Integrity_tag,
      meta_salt_b64 = None\<rparr> = Inr b"
    and "w_files w (meta_path base) = Some f" and "from_slice (meta_codec D) (contents f) = Inr m"
    and "meta_protection m = Encrypted_tag" and "meta_salt_b64 m = Some salt"
  shows "\<exists>root w'. open_integrity D base w = (Inr root, w') \<and>
    (\<forall>passphrase. \<not> is_ok (fst (open_encrypted D base passphrase w')))"
proof -
  obtain root w' where o: "open_integrity D base w = (Inr root, w')"
    using quiet_open_integrity [OF assms(1-6)] by blast
  from open_integrity_new [OF assms(1) o assms(3)] obtain fm where
    fm: "w_files w' (meta_path base) = Some fm" "from_slice (meta_codec D) (contents fm) =
      Inr \<lparr>meta_v = META_V, meta_protection = Integrity_tag, meta_salt_b64 = None\<rparr>" by blast
  have "\<not> is_ok (fst (open_encrypted D base passphrase w'))" for passphrase
    using open_encrypted_wrong_mode [OF fm] by (metis prod.collapse StoreMeta.select_convs(2))
  with o show ?thesis by blast
qed

theorem integrity_open_destroys_encrypted_store_witness:
  "\<exists>root w'. open_integrity ex_deps ex_base (ex_world [(meta_path ex_base, [1])]) = (Inr root, w') \<and>
    (\<forall>passphrase. \<not> is_ok (fst (open_encrypted ex_deps ex_base passphrase w')))"
proof -
  let ?w = "ex_world [(meta_path ex_base, [1])]"
  have d: "root_deps_ok ex_deps" using ex_deps_ok by (simp add: store_deps_ok_def)
  have on_disk: "w_files ?w p = (if p = meta_path ex_base then Some (File [1] 384) else None)" for p
    by (simp add: ex_world_def)
  have nt: "no_tmp ex_deps p ?w" if "p \<noteq> []" "last p \<noteq> []" for p
    using tmp_name_not_store_path [OF store_deps_okD(1) [OF ex_deps_ok] that not_tmp_meta [of ex_base]]
    by (auto simp: no_tmp_def on_disk)
  have m: "from_slice (meta_codec ex_deps) (contents (File [1] 384)) =
      Inr \<lparr>meta_v = 1, meta_protection = Encrypted_tag, meta_salt_b64 = Some [5]\<rparr>"
    by code_simp
  show ?thesis
    by (rule integrity_open_destroys_encrypted_store [OF d ex_quiet _ nt nt ex_meta_encodes _ m])
      (simp_all add: on_disk)
qed

text \<open>
  Stored records read back as they were written: an identity with its replaced keys, and a
  history of records with 32-byte hashes, in their order.
\<close>

theorem stored_records_roundtrip:
  assumes "protect_deps_ok D" and "list_all record_ok rs"
  shows "into_records D (map (from_record D) rs) = Inr rs \<and>
    result_bind (identity_check_version (identity_dto_new i ks))
      (\<lambda>_. to_identity (identity_dto_new i ks)) = Inr i \<and>
    id_replaced_pubkeys (identity_dto_new i ks) = ks"
  by (simp add: into_records_map [OF assms])

theorem stored_records_roundtrip_witness:
  "into_records ex_deps (map (from_record ex_deps) [ex_record 7 4 2, ex_record 5 3 1]) =
     Inr [ex_record 7 4 2, ex_record 5 3 1]"
  using stored_records_roundtrip [OF store_deps_okD(1) [OF ex_deps_ok],
      of "[ex_record 7 4 2, ex_record 5 3 1]" "\<lparr>pubkey = 1, provenance = Pinned\<rparr>" "[]"]
  by (simp add: record_ok_def ex_record_def)

end
