(* ===== verification/Document_Properties.thy ===== *)
theory Document_Properties
  imports Instances
begin

text \<open>
  The properties of what a document goes through before it is shown: the verification
  pipeline and the history checks, the load path, the trust diagnostics, the chrome, and the
  image policy.
\<close>

text \<open>
  C7: A loaded document is genuine: its manifest passed the whole pipeline and the history
  checks for the site it was fetched from, its content, if shown, was verified under that
  manifest's runtime key, and the trust state and phrase in the chrome are those of the
  manifest's publisher against the retained identity.
\<close>

theorem loaded_document_genuine:
  assumes "load C mb cb site addr clock_now clock retained history = Inr l"
  shows "\<exists>m cs ix. chain_passes C mb site None (clock_now clock) (m, cs, ix) \<and>
    check_against_history C m history = Inr () \<and>
    ld_publisher l = manifest_publisher_pubkey C m \<and> ld_site l = site \<and>
    cv_canary_state (ld_chrome l) = cs \<and>
    cv_trust_state (ld_chrome l) =
      res_state (resolve (manifest_publisher_pubkey C m) retained None_decision) \<and>
    cv_pip (ld_chrome l) = derive_pip C (manifest_publisher_pubkey C m) \<and>
    (case cb of
       None \<Rightarrow> ld_scene l = None
     | Some b \<Rightarrow> \<exists>doc. parse_and_verify_content C b (canary_runtime_pubkey C m) = Inr doc \<and>
         ld_scene l = Some (scene_from_content C doc))"
  using load_Ok [OF assms] unfolding load_spec_def by fastforce

theorem loaded_document_genuine_witness:
  "\<exists>l m cs ix. load ex_core [1, 7, 4, 2, 0] (Some [4, 6]) 1 [] fixed_now (FixedClock 100) None ph_new = Inr l \<and>
     chain_passes ex_core [1, 7, 4, 2, 0] 1 None 100 (m, cs, ix) \<and> ld_publisher l = 1"
proof -
  let ?l = "load ex_core [1, 7, 4, 2, 0] (Some [4, 6]) 1 [] fixed_now (FixedClock 100) None ph_new"
  have "is_ok ?l" by code_simp
  then obtain l where l: "?l = Inr l" by (cases ?l) auto
  have "ld_publisher (projr ?l) = 1" by code_simp
  then have "ld_publisher l = 1" using l by simp
  with l loaded_document_genuine [OF l] show ?thesis unfolding fixed_now.simps by blast
qed

text \<open>
  C12: A manifest is accepted exactly when the four stages of the chain succeed one after the
  other at the clock's instant and the manifest they yield passes the history checks; what is
  returned is then what the chain established.
\<close>

theorem manifest_accepted_iff:
  "verify_manifest C mb addr ci clock_now clock h = Accept v \<longleftrightarrow>
     (\<exists>s1 s2 s3 s4. parse_and_verify_manifest C mb (clock_now clock) = Inr s1 \<and>
        verify_canary C s1 (clock_now clock) = Inr s2 \<and>
        verify_origin C s2 addr (clock_now clock) = Inr s3 \<and>
        verify_content_index C s3 ci = Inr s4 \<and>
        into_parts C s4 = (vm_manifest v, vm_canary_state v, vm_content_index v)) \<and>
     check_against_history C (vm_manifest v) h = Inr ()"
  by (simp add: verify_manifest_Accept chain_passes_def)


text \<open>
  C21: The pixel budget of a document is never exceeded: in a session from its start, over any
  sequence of fetched images and failed fetches, the budget used is exactly the sum of the
  pixels of the accepted images, and at most 16777216.
\<close>

theorem pixel_budget_never_exceeded:
  "unat (used (ses_budget (snd (image_run A session_new es)))) =
     sum_list (map accepted_pixels (fst (image_run A session_new es))) \<and>
   sum_list (map accepted_pixels (fst (image_run A session_new es))) \<le> 16777216"
proof -
  obtain os s where run: "image_run A session_new es = (os, s)" by (cases "image_run A session_new es")
  from image_run_budget [OF run] image_run_bound [OF run] show ?thesis
    unfolding run fst_conv snd_conv
    by (simp add: session_new_def budget_new_def MAX_DECODED_PIXELS_def)
qed

text \<open>
  C22: A failed image is not retried: once a fetch or a verification of a source, hash and media
  type failed in a session, no later event with the same three is accepted, and a triple is
  blocked only if it failed itself.
\<close>

theorem failed_images_not_retried:
  assumes "image_api_ok A" and "image_run A session_new es = (os, s')"
  shows "(i < j \<and> j < length es \<and> \<not> image_is_accepted (os ! i) \<and>
      same_triple (event_image (es ! i)) (event_image (es ! j)) \<longrightarrow> \<not> image_is_accepted (os ! j)) \<and>
    (no_retry_contains A (ses_no_retry s') img \<longleftrightarrow>
      (\<exists>i < length es. \<not> image_is_accepted (os ! i) \<and> same_triple img (event_image (es ! i))))"
proof -
  have len: "length os = length es" by (rule image_run_length [OF assms(2)])
  have "no_retry_contains A (ses_no_retry s') img \<longleftrightarrow>
      (\<exists>i < length es. \<not> image_is_accepted (os ! i) \<and>
         no_retry_key A img = no_retry_key A (event_image (es ! i)))"
    unfolding no_retry_contains_def image_run_failed [OF assms(2)]
    by (auto simp: session_new_def set_zip len)
  moreover have "\<not> image_is_accepted (os ! j)" if "i < j" "j < length es"
    "\<not> image_is_accepted (os ! i)" "same_triple (event_image (es ! i)) (event_image (es ! j))"
    by (rule image_run_no_retry [OF assms(2) that(1-3)])
      (use that(4) no_retry_key_inject [OF assms(1)] in \<open>auto simp: same_triple_def\<close>)
  ultimately show ?thesis by (simp add: no_retry_key_inject [OF assms(1)])
qed

theorem failed_images_not_retried_witness:
  "no_retry_contains ex_image_api (ses_no_retry (snd (image_run ex_image_api session_new
     [FetchFailed (ex_image 2 2), Fetched (ex_image 2 2) [0, 0, 0] (lit ''image/png'') (ex_decoder 2 2)])))
     (ex_image 2 2)"
proof -
  let ?es = "[FetchFailed (ex_image 2 2),
    Fetched (ex_image 2 2) [0, 0, 0] (lit ''image/png'') (ex_decoder 2 2)]"
  have ok: "image_api_ok ex_image_api"
    by (auto simp: image_api_ok_def ex_image_api_def inj_def)
  obtain os s where run: "image_run ex_image_api session_new ?es = (os, s)"
    by (cases "image_run ex_image_api session_new ?es")
  have "\<not> image_is_accepted (fst (image_run ex_image_api session_new ?es) ! 0)" by code_simp
  then have "\<not> image_is_accepted (os ! 0)" unfolding run fst_conv .
  then have "\<exists>i < length ?es. \<not> image_is_accepted (os ! i) \<and>
      same_triple (ex_image 2 2) (event_image (?es ! i))"
    by (intro exI [of _ 0]) simp
  with failed_images_not_retried [OF ok run] run show ?thesis by auto
qed

text \<open>
  C36: Bytes that are not authentic never reach the decoder: unless the declared type, the size
  limit and the hash all agree, the outcome, the budget and the retry set are the same for
  every decoder.
\<close>

theorem decoder_only_sees_authentic_bytes:
  assumes "\<not> (content_type_matches ct (img_media_type img) \<and> length body \<le> 2 * 1024 * 1024 \<and>
    sha256_image A body = img_sha256 img)"
  shows "verify_image A img body ct decode budget no_retry =
    verify_image A img body ct decode' budget no_retry"
proof -
  have "\<not> authentic A img body ct" using assms by (simp add: authentic_def MAX_IMAGE_BYTES_def)
  from run_checks_unauthentic [OF this, of decode budget decode'] show ?thesis
    by (simp add: verify_image_def)
qed

theorem decoder_only_sees_authentic_bytes_witness:
  "verify_image ex_image_api (ex_image 2 2) [0, 0] (lit ''image/png'') (ex_decoder 2 2) budget_new no_retry_new =
   verify_image ex_image_api (ex_image 2 2) [0, 0] (lit ''image/png'') (\<lambda>_ _. Inl DecodeError) budget_new no_retry_new"
  by (rule decoder_only_sees_authentic_bytes) (simp add: ex_image_api_def ex_image_def)

text \<open>
  A manifest is rejected with exactly the diagnostic of the first stage that fails:
  signature, canary, origin, content index, then the history checks.
\<close>

theorem manifest_rejected_iff:
  "verify_manifest C mb addr ci clock_now clock h = Reject d \<longleftrightarrow>
     (let now = clock_now clock in
        case parse_and_verify_manifest C mb now of Inl e \<Rightarrow> d = e | Inr s1 \<Rightarrow>
        case verify_canary C s1 now of Inl e \<Rightarrow> d = e | Inr s2 \<Rightarrow>
        case verify_origin C s2 addr now of Inl e \<Rightarrow> d = e | Inr s3 \<Rightarrow>
        case verify_content_index C s3 ci of Inl e \<Rightarrow> d = e | Inr s4 \<Rightarrow>
        check_against_history C (fst (into_parts C s4)) h = Inl d)"
  unfolding verify_manifest_def Let_def
  by (auto simp: result_bind_def split: sum.splits prod.splits)

text \<open>
  Each refusal of the history checks names its reason: a downgrade only for a time strictly
  before the newest record's, a conflict only for another payload at the same time, a key
  reuse only for a payload that is not the newest and a key some retained record has.
\<close>

theorem rejected_manifest_reason:
  assumes "core_checks_ok C" and "check_against_history C m h = Inl d"
  shows "\<exists>r. record_for C m = Some r \<and>
    ((diag_code d = ECanaryDowngrade \<and> (\<exists>n. newest h = Some n \<and> issued_at r < issued_at n)) \<or>
     (diag_code d = ECanaryConflict \<and> (\<exists>n. newest h = Some n \<and> issued_at n = issued_at r \<and>
        manifest_payload_hash n \<noteq> manifest_payload_hash r)) \<or>
     (diag_code d = ECanaryRuntimeReuse \<and>
        (\<exists>r' \<in> set (records h). runtime_pubkey r' = runtime_pubkey r) \<and>
        (\<forall>n. newest h = Some n \<longrightarrow> issued_at n \<le> issued_at r \<and>
           manifest_payload_hash n \<noteq> manifest_payload_hash r)))"
  using assms by (rule check_against_history_Err) blast+

theorem rejected_manifest_reason_witness:
  "\<exists>r. record_for ex_core (1, 4, 9, 9) = Some r \<and> issued_at r < 5"
proof -
  have c: "check_against_history ex_core (1, 4, 9, 9) \<lparr>ph_records = [ex_record 5 3 1]\<rparr> =
      Inl (ex_diag ECanaryDowngrade)"
    by code_simp
  from rejected_manifest_reason [OF ex_core_ok c] show ?thesis
    by (auto simp: ex_diag_def ex_record_def)
qed

text \<open>
  The chrome warns of exactly the conditions that hold, each once and most critical for
  identity first, and demands the full phrase exactly at First contact and at a mismatch.
\<close>

theorem chrome_warnings_exact:
  "let v = chrome_build pip_of p t c addr cs in
   cv_warnings v = filter (\<lambda>x. case x of
       TrustMismatch \<Rightarrow> t = ChangedMismatch
     | CanaryConflict \<Rightarrow> cond_canary_conflict cs
     | CanaryExpired \<Rightarrow> c = Expired
     | CanaryInvalid \<Rightarrow> c = Invalid
     | CanaryGap \<Rightarrow> cond_canary_gap cs
     | HistoricalContent \<Rightarrow> cond_historical_content cs
     | StaleCachedContent \<Rightarrow> cond_stale_cached cs)
     [TrustMismatch, CanaryConflict, CanaryExpired, CanaryInvalid, CanaryGap, HistoricalContent,
      StaleCachedContent] \<and>
   cv_pip_must_be_fully_shown v = (t \<in> {FirstContact, ChangedMismatch}) \<and>
   cv_pip v = pip_of p \<and> cv_canary_state v = c \<and> cv_trust_state v = t"
proof -
  have h: "warning_holds t c cs = (\<lambda>x. case x of
       TrustMismatch \<Rightarrow> t = ChangedMismatch
     | CanaryConflict \<Rightarrow> cond_canary_conflict cs
     | CanaryExpired \<Rightarrow> c = Expired
     | CanaryInvalid \<Rightarrow> c = Invalid
     | CanaryGap \<Rightarrow> cond_canary_gap cs
     | HistoricalContent \<Rightarrow> cond_historical_content cs
     | StaleCachedContent \<Rightarrow> cond_stale_cached cs)"
    by (rule ext) (simp split: Warning.split)
  show ?thesis
    unfolding Let_def chrome_build_warnings h all_warnings_def by simp
qed

end
