(* ===== verification/Spec2Isabelle.thy ===== *)
theory Spec2Isabelle
  imports Store_Properties Document_Properties
begin

text \<open>
  Entangled client: a verification library.

  \<^bold>\<open>The program.\<close> The repository is the reference client of the Entangled protocol, three Rust
  crates. \<open>entangled-client\<close> is the pure core: which trust state a publisher's key is in
  (\<open>trust.rs\<close>), whether a manifest may follow what was accepted before (\<open>history.rs\<close>), in which
  order a document is verified (\<open>pipeline.rs\<close>), what the chrome must say (\<open>chrome.rs\<close>), whether
  an image may be shown (\<open>image.rs\<close>), and the interfaces of persistence with their in-memory
  doubles (\<open>io.rs\<close>). \<open>entangled-client-store\<close> implements those interfaces over files: a store
  root with atomic writes and a protection mode (\<open>root.rs\<close>, \<open>protect.rs\<close>), the records on disk
  (\<open>dto.rs\<close>), the identity store and the history store (\<open>identity.rs\<close>, \<open>history.rs\<close>).
  \<open>entangled-client-gui\<close> is the shell: \<open>lib.rs\<close> loads and verifies a document, \<open>main.rs\<close> parses
  the command line, opens the store, draws one frame after the other and persists the
  decisions the user clicks.

  \<^bold>\<open>How a session runs.\<close> \<open>main_prog\<close> parses the arguments, opens the store root, and calls
  \<open>build\<close>: it reads the files, loads the identity retained for the site and the history of the
  publisher, and \<open>load\<close> verifies the manifest against them (\<open>verify_manifest\<close>,
  \<open>check_against_history\<close>, \<open>verify_content\<close>), resolves trust without a decision (\<open>resolve\<close>) and
  builds the chrome (\<open>chrome_build\<close>). \<open>app_new\<close> persists the intent of that resolution and opens
  the prompt it calls for. Each \<open>update\<close> draws a frame; a clicked decision goes through
  \<open>apply_decision\<close> and \<open>app_persist\<close>, that is \<open>fis_apply\<close> and \<open>fhs_append_record\<close>, which write
  through \<open>write_protected\<close> (\<open>seal\<close>, then \<open>write_atomic\<close>).

  \<^bold>\<open>Theories\<close>, in the order of the code's layers:
  \<^item> \<open>Prelude\<close>: strings, results, and actions (world-passing computations that may fail).
  \<^item> \<open>Core_Api\<close>, \<open>Engine_Api\<close>: what the client sees of \<open>entangled-core\<close> and \<open>entangled-engine\<close>,
    which are not in the repository: type variables, records of parameters, and the documented
    laws as named predicates (\<open>core_checks_ok\<close>).
  \<^item> \<open>Trust\<close> (\<open>trust.rs\<close>) and \<open>Trust_Ledger\<close>, its abstract specification: a site's record under
    a sequence of visits, without files; provenances are a linear order.
  \<^item> \<open>History\<close> (\<open>history.rs\<close>), \<open>Pipeline\<close> (\<open>pipeline.rs\<close>), \<open>Chrome\<close> (\<open>chrome.rs\<close>), \<open>Image\<close>
    (\<open>image.rs\<close>, widths as 32-bit and the budget as 64-bit words).
  \<^item> \<open>Stores\<close> (\<open>io.rs\<close>): the two store traits as the locales \<open>identity_store\<close>, \<open>history_store\<close>
    and \<open>ordered_history_store\<close>, with what their clients rely on, and the in-memory doubles as
    their first interpretations.
  \<^item> \<open>File_System\<close>: the file calls of the code over a world of files and directories in which
    the environment decides, per call, whether it fails; a failed write leaves a prefix.
    \<open>Protect\<close> (\<open>protect.rs\<close>), \<open>Store_Root\<close> (\<open>root.rs\<close>), \<open>Dto\<close> (\<open>dto.rs\<close>).
  \<^item> \<open>File_Stores\<close> (\<open>identity.rs\<close>, \<open>history.rs\<close> of the store crate): the file stores, their
    invariants and abstractions (\<open>fis_inv\<close>, \<open>fis_content\<close>, \<open>fhs_inv\<close>, \<open>fhs_content\<close>), and the
    interpretations \<open>fis\<close>, \<open>fhs\<close>, \<open>fhs_ordered\<close> of the locales.
  \<^item> \<open>Gui_Load\<close> (\<open>lib.rs\<close> of the shell), \<open>Gui_Text\<close>, \<open>Gui_Draw\<close>, \<open>App\<close> and \<open>Cli\<close> (\<open>main.rs\<close>):
    loading, bidi isolation and inline text, the drawing functions, the application object and
    one frame, the command line, \<open>build\<close> and \<open>main\<close>. \<open>App_Safety\<close> holds the invariants of a
    session (\<open>app_inv\<close> for what is persisted, \<open>chrome_inv\<close> for what is shown).
  \<^item> \<open>Store_Setup\<close>: opening the store in either mode (\<open>setup_open\<close>), what of the directory
    determines the key (\<open>keyed\<close>), and what the wrong key reads.
  \<^item> \<open>Lifetime\<close>: the step relation \<open>life_step\<close> over the world and the running window, if any: a run
    opens the store, loads or fails, starts, draws frames, takes decisions and ends, and other
    programs may change what is outside the store in between. \<open>life\<close> are its labelled paths,
    \<open>life_inv\<close> its invariant; every run of \<open>main_prog\<close> is a path.
    \<open>Lifetime_History\<close> adds the invariant of the publisher histories.
  \<^item> \<open>Call_Bounds\<close>: how many calls to the operating system an operation, a frame and a run make.
  \<^item> \<open>Store_Programs\<close>: the operations of the file stores once more, as sequences of single calls
    (\<open>p_apply\<close> is \<open>fis_apply\<close> and so on), each with the proof that running the sequence without
    interference is the operation. \<open>Interference\<close>: processes whose calls take turns by any
    schedule (\<open>exec\<close>), with weakest preconditions that are stable under the others' calls.
    \<open>Concurrent\<close>: clients that perform store operations one after the other, and what stays true
    of the store when any number of them run at once. \<open>Races\<close>: the interleavings that lose data.
    \<open>Windows\<close>: \<open>build\<close>, \<open>App::new\<close> and the frames as such clients.
  \<^item> \<open>Gui_Theme\<close> (\<open>main.rs\<close>): fonts, theme and the frame of the chrome panel. \<open>Pin_Publisher\<close> and
    \<open>Fixture\<close>: the examples \<open>pin_publisher.rs\<close> and \<open>dump_fixture.rs\<close>. \<open>Fixture_Scenarios\<close>: what
    the two and a window do one after the other.
  \<^item> \<open>Instances\<close>: one concrete instance of all parameters, on which the properties are applied.
  \<^item> \<open>Store_Properties\<close>, \<open>Document_Properties\<close> and this theory: the properties, C1 to C40, and
    after them some further theorems of the same kind. Here are those of lifetimes, of whole
    sessions, of concurrent windows and of the shell, which span the components.

  \<^bold>\<open>What the groups of lemmas show.\<close> A visit of either store is a step of the ledger or leaves
  the record alone (\<open>identity_store\<close>), so what is proved of the ledger (keys are never lost, a
  provenance never falls without a confirmed replacement, every provenance has evidence) holds
  of the files. Every file operation touches only its target and its temporary names
  (\<open>touches\<close>), so a failure at any call leaves the store's files as they were. A frame is split
  into the decision part (\<open>after_chrome\<close>) and the content part, and the invariants are carried
  over \<open>app_run\<close> by induction over the frames. A lifetime is a simulation: each step keeps
  \<open>life_inv\<close> and acts on every record as the visit of its label or not at all (\<open>step_effect\<close>),
  and on the histories by putting a record in front that still fits (\<open>hist_effect\<close>).

  For processes that run at once, the unit is the single call. A process upholds a rule on the
  files (\<open>upholds\<close>) if every call it makes keeps the rule, given only what it created itself
  and the rule on what it reads; since a write goes to a temporary file whose random name no
  other process draws and is then renamed, the rule \<open>record_rule\<close> (authentic, decodable, with
  keys and records from given sets) holds of every store file at every moment
  (\<open>system_exec\<close>, \<open>concurrent_store\<close>). A process that dies is one the schedule never picks
  again, so the same theorem covers a crash between two calls. The lemmas of \<open>Races\<close> show by
  explicit schedules what the code does not ensure: a load and the write that follows are not
  one step.

  Every operation makes a bounded number of calls whatever they return, and a frame with no
  open prompt makes none; a decision closes the prompts, so a run has at most one decision
  and at most 62 calls (\<open>calls_main\<close>).

  \<^bold>\<open>Representation.\<close> A \<open>String\<close> is the list of its code points; \<open>Vec<u8>\<close> is a list of bytes;
  \<open>Result\<close> is a sum with \<open>Inl\<close> for \<open>Err\<close>; a panic of \<open>build\<close> is the value \<open>Panic\<close>. A path is
  the list of its components. Widgets carry texts, styles and colours in order; sizes are in
  tenths of a point. The input of a frame is the set of buttons and links clicked. Schema
  versions (\<open>u32\<close>) are only compared, never computed with, and are natural numbers. The
  recursions are structural or decreasing in a number, so no fuel is needed.

  \<^bold>\<open>Hypotheses.\<close> \<open>store_deps_ok\<close> and \<open>protect_deps_ok\<close> state what serde, base64, hex, HMAC and
  the AEAD promise (decoding inverts encoding, a tag made verifies, rendered file names);
  \<open>core_checks_ok\<close> what \<open>history.rs\<close> documents of the core's checks; \<open>fis_inv\<close> and \<open>fhs_inv\<close>
  that every stored record reads back; \<open>peek_agrees\<close> that the publisher \<open>build\<close> reads from the
  manifest's JSON is the one the core parses from it; \<open>aead_separates\<close> that a ciphertext does
  not decrypt under another key, \<open>hmac_separates\<close> that a tag does not verify under another;
  \<open>nonces_distinct\<close> that two processes never draw the same 64-bit name for a temporary file;
  \<open>fixture_core_ok\<close> and \<open>fixture_times_ok\<close> what \<open>dump_fixture.rs\<close> says of the documents it signs
  and of its instants, \<open>address_deps_ok\<close> what BASE32 and SHA3 promise of lengths and
  alphabet. \<open>Instances\<close> satisfies all of them. No other cryptographic strength is assumed:
  that a forged tag is rejected is not claimed.

  \<^bold>\<open>Not modelled.\<close> Spacing, margins and rounding of single widgets, and the toolkit's event loop
  beyond the order of frames. A process that keeps writing to a temporary file another one
  unlinked or renamed: files are known by their path, which the fresh names make sound. The
  statement on concurrent windows is about windows on an open store; openings that race are
  the subject of \<open>Races\<close>. The crate roots, which only re-export, and the tests. Non-UTF-8
  command-line arguments are outside the model.
\<close>

text \<open>
  C1: Over the whole lifetime of a store, run after run with any documents, clicks and failures,
  an identity retained for a site keeps its key and its replaced keys, and its provenance
  never goes down, unless at that site one of the two buttons that confirm a new identity is
  clicked.
\<close>

theorem lifetime_keeps_identity:
  assumes "life C D A S s ls s'" and "life_inv D S root s"
    and "list_all (\<lambda>l. \<not> confirms_new site l) ls"
    and "life_record D root s site = Some (r, ks)"
  shows "\<exists>r'. life_record D root s' site = Some (r', ks) \<and> pubkey r' = pubkey r \<and>
    provenance r \<le> provenance r'"
  using assms by (rule life_keeps)

text \<open>Other programs remove everything outside the store between two runs.\<close>

theorem lifetime_keeps_identity_witness:
  "\<exists>r'. life_record ex_deps ex_root ((ex_world (ex_disk 2 0))\<lparr>w_files := (\<lambda>p.
      if prefix ex_base p then w_files (ex_world (ex_disk 2 0)) p else None)\<rparr>,
      None :: (nat, nat, nat, nat, unit, nat) App option) 1 = Some (r', []) \<and>
    pubkey r' = 1 \<and> Pinned \<le> provenance r'"
proof -
  let ?w = "ex_world (ex_disk 2 0)"
  let ?w' = "?w\<lparr>w_files := (\<lambda>p. if prefix ex_base p then w_files ?w p else None)\<rparr>"
  have l: "life ex_core ex_deps ex_api ex_setup (?w, None) [Quiet] (?w', None)"
    by (rule life_one, rule outside) (simp add: ex_setup_def)
  show ?thesis
    using lifetime_keeps_identity [OF l ex_life_inv _ ex_life_record] by simp
qed

text \<open>
  C2: A lifetime refines the ledger: however the runs of the program follow one another and
  whatever fails, the record of each site is the ledger of a subsequence of the visits the
  labels show, namely of those that were persisted.
\<close>

theorem lifetime_refines_ledger:
  assumes "life C D A S s ls s'" and "life_inv D S root s"
  shows "life_inv D S root s' \<and>
    (\<exists>vs. subseq vs (visits_of site (label_visits ls)) \<and>
       life_record D root s' site = ledger_run vs (life_record D root s site))"
  using life_refines_ledger [OF assms] by blast

text \<open>Key 2 is presented at the site pinned to key 1, and confirmed.\<close>

theorem lifetime_refines_ledger_witness:
  "\<exists>vs. subseq vs [(2, None_decision), (2, ConfirmNewIdentity)] \<and>
     life_record ex_deps ex_root (ex_end 2 BTN_CONFIRM_NEW) 1 =
       ledger_run vs (Some (\<lparr>pubkey = 1, provenance = Pinned\<rparr>, []))"
proof -
  have "life ex_core ex_deps ex_api ex_setup (ex_world (ex_disk 2 0), None)
      [Presented 1 2, Decided 1 2 ConfirmNewIdentity (clicking BTN_CONFIRM_NEW)]
      (ex_end 2 BTN_CONFIRM_NEW)"
    by (rule ex_path) simp
  from lifetime_refines_ledger [OF this ex_life_inv, of 1] show ?thesis
    by (simp add: ex_life_record label_visits_def visits_of_def del: One_nat_def)
qed

text \<open>
  C3: No pin and no verification comes from nowhere: every record a store ends up with that is
  pinned or verified was so at the start, or its key was presented at that site while the
  button of a decision that warrants it was clicked.
\<close>

theorem provenance_was_clicked:
  assumes "life C D A S s ls s'" and "life_inv D S root s"
  shows "case life_record D root s' site of None \<Rightarrow> True
    | Some (r', ks') \<Rightarrow> provenance r' = Observed \<or>
        (\<exists>d inp. Decided site (pubkey r') d inp \<in> set ls \<and> evidence (provenance r') d \<and>
           decision_button d inp) \<or>
        (\<exists>r ks. life_record D root s site = Some (r, ks) \<and> pubkey r' = pubkey r \<and>
           provenance r' = provenance r)"
proof (cases "life_record D root s' site")
  case (Some x)
  obtain r' ks' where x: "x = (r', ks')" by (cases x)
  with life_evidence [OF assms, of site r' ks'] Some show ?thesis
    unfolding Some option.case x prod.case by blast
qed simp

theorem provenance_was_clicked_witness:
  "case life_record ex_deps ex_root (ex_end 2 BTN_VERIFIED_NEW) 1 of None \<Rightarrow> True
   | Some (r', ks') \<Rightarrow> provenance r' = Observed \<or> pubkey r' = 2 \<and> provenance r' = ExternallyVerified_prov \<or>
       pubkey r' = 1 \<and> provenance r' = Pinned"
proof -
  have "life ex_core ex_deps ex_api ex_setup (ex_world (ex_disk 2 0), None)
      [Presented 1 2, Decided 1 2 ConfirmPip (clicking BTN_VERIFIED_NEW)] (ex_end 2 BTN_VERIFIED_NEW)"
    by (rule ex_path) simp
  note p = provenance_was_clicked [OF this ex_life_inv, of 1]
  show ?thesis
  proof (cases "life_record ex_deps ex_root (ex_end 2 BTN_VERIFIED_NEW) 1")
    case (Some x)
    obtain r ks where "x = (r, ks)" by (cases x)
    with p Some show ?thesis
      by (cases "provenance r") (auto simp: ex_life_record simp del: One_nat_def)
  qed simp
qed

text \<open>
  C4: Over the whole lifetime of a store each publisher's history stays ordered by time, newest
  first, and never holds two payloads for one time, although a run appends long after it
  checked and may append several times.
\<close>

theorem lifetime_histories_consistent:
  assumes "core_checks_ok C" and "recs_ok record_ok C" and "peek_agrees C A"
    and "life C D A S s ls s'" and "life_inv D S root s" and "life_hist_inv D root s"
  shows "sorted_wrt (\<lambda>newer older. issued_at older \<le> issued_at newer \<and>
      (issued_at older = issued_at newer \<longrightarrow>
         manifest_payload_hash older = manifest_payload_hash newer))
    (fhs_content D (fhs_new root) (fst s') p)"
  using life_histories [OF assms]
    history_chain_consistent [of "from_records_newest_first (fhs_content D (fhs_new root) (fst s') p)"]
  by (simp add: life_hist_inv_def histories_ok_def)

theorem lifetime_histories_consistent_witness:
  "sorted_wrt (\<lambda>newer older. issued_at older \<le> issued_at newer)
    (fhs_content ex_deps (fhs_new ex_root) (fst (ex_end 2 BTN_CONFIRM_NEW)) 1)"
proof -
  have "life ex_core ex_deps ex_api ex_setup (ex_world (ex_disk 2 0), None)
      [Presented 1 2, Decided 1 2 ConfirmNewIdentity (clicking BTN_CONFIRM_NEW)]
      (ex_end 2 BTN_CONFIRM_NEW)"
    by (rule ex_path) simp
  from lifetime_histories_consistent [OF ex_core_ok ex_core_recs_ok ex_peek_agrees this ex_life_inv
      ex_life_hist_inv, of 1]
  show ?thesis by (rule sorted_wrt_mono_rel [rotated]) simp
qed

text \<open>
  C5: Windows that are open at the same time never corrupt the store. Any number of windows
  over one directory, each with documents and a site of its own and any clicks, loading,
  resolving, persisting and appending with their calls interleaved by any schedule, any call
  failing and any window dying between two calls: as long as no two temporary files draw the
  same nonce, at every moment the file of each site is a complete authentic record and the
  file of each publisher a complete authentic history. No key stands in a record but those
  that stood there before and those of the manifests the windows accept at that site, and no
  record in a history but the earlier ones and those of the manifests they accept.
\<close>

theorem concurrent_windows_keep_store:
  assumes "list_all (session_within C A K H) ss" and "store_within D root K H w"
    and "exec sched (map (\<lambda>s. client_prog D root (c_session C A root s)) ss) w = (ps, w')"
    and "nonces_distinct (w_env w) (w_tick w) (w_tick w')"
  shows "store_within D root K H w'"
proof (rule concurrent_store)
  show "list_all (client_within K H) (map (c_session C A root) ss)"
    using assms(1) by (auto simp: list_all_iff intro: session_client_within)
  show "exec sched (map (client_prog D root) (map (c_session C A root) ss)) w = (ps, w')"
    using assms(3) by (simp add: comp_def)
qed (use assms in simp_all)

theorem concurrent_windows_keep_store_witness:
  "store_within ex_deps ex_root (\<lambda>_. {1, 2}) (\<lambda>_. {ex_record 7 4 2})
     (snd (exec (concat (replicate 60 [0, 1]))
       (map (\<lambda>s. client_prog ex_deps ex_root (c_session ex_core ex_api ex_root s)) two_sessions)
       (counting_world [])))"
  (is "store_within _ _ ?K ?H (snd ?e)")
proof (rule concurrent_windows_keep_store)
  show "list_all (session_within ex_core ex_api ?K ?H) two_sessions"
    by (auto simp: two_sessions_def session_within_def chain_passes_def ex_core_def record_for_def
        record_ok_def ex_record_def split: if_splits)
  show "store_within ex_deps ex_root ?K ?H (counting_world [])"
    using ex_deps_ok by (simp add: store_within_files files_ok_def counting_world_def ex_world_def)
  show e: "?e = (fst ?e, snd ?e)" by simp
  have "w_tick (snd ?e) \<le> 120"
    using exec_ticks [OF e] by (simp add: length_concat sum_list_replicate counting_world_def ex_world_def)
  then show "nonces_distinct (w_env (counting_world [])) (w_tick (counting_world [])) (w_tick (snd ?e))"
    using counting_distinct by (simp add: counting_world_def)
qed

text \<open>
  C8: An expired canary blocks the document: until the override button is clicked, every frame
  draws the block in the content area, and nothing the session shows, copies, prints or writes
  depends on the document that was loaded.
\<close>

theorem blocked_document_not_shown:
  assumes "fis_inv D (sh_identities store) w"
    and "build C D A mp onion cp store w = (Inr l, w1)"
    and "app_new D (derive_pip C) l store w1 = (app, msgs, w2)"
    and "ld_canary_state l = Expired"
    and "app_run D (derive_pip C) inps app w2 = (outs, app', w3)"
    and "\<forall>inp \<in> set inps. \<not> fi_button inp BTN_SHOW"
  shows "(\<forall>out \<in> set outs. fo_content out = fst (draw_canary_block no_input)) \<and>
    app_run D (derive_pip C) inps (with_scene other app) w2 = (outs, with_scene other app', w3)"
proof -
  note s = session_start [OF assms(1-3)]
  note b = session_blocked(1) [OF assms(1-4)]
  show ?thesis
    using app_run_blocked_content [OF s(5) b assms(6,5)]
      app_run_blocked [OF s(5) b assms(6), of D other w2] by (simp add: assms(5))
qed

theorem blocked_document_not_shown_witness:
  "list_all (\<lambda>out. fo_content out = fst (draw_canary_block no_input))
     (fst (ex_session 1 1 [no_input, clicking BTN_COPY]))"
proof -
  have "ld_canary_state (projr (fst (ex_built 1 1))) = Expired" by code_simp
  from blocked_document_not_shown [OF ex_inv ex_session_steps(1,2) [OF ex_built_expired] this
      ex_session_steps(3) [OF ex_built_expired], of "[no_input, clicking BTN_COPY]"]
  show ?thesis by (simp add: list_all_iff no_input_def clicking_def BTN_SHOW_def BTN_COPY_def)
qed

text \<open>
  C11: No publisher text can disturb the screen: in every frame of a session, each text drawn in
  the chrome, the content area and the link dialog is balanced, so no value can close an
  isolation it did not open or reorder the client's own words.
\<close>

theorem every_frame_bidi_safe:
  assumes "fis_inv D (sh_identities store) w"
    and "build C D A mp onion cp store w = (Inr l, w1)"
    and "app_new D (derive_pip C) l store w1 = (app, msgs, w2)"
    and "app_run D (derive_pip C) inps app w2 = (outs, app', w3)"
  shows "\<forall>out \<in> set outs.
    list_all (bidi_balanced 0) (all_texts (fo_chrome out)) \<and>
    list_all (bidi_balanced 0) (all_texts (fo_content out)) \<and>
    (case fo_window out of None \<Rightarrow> True
     | Some (title, ws) \<Rightarrow> bidi_balanced 0 title \<and> list_all (bidi_balanced 0) (all_texts ws))"
  using app_run_safe [OF session_start(5) [OF assms(1-3)] assms(4)]
  by (auto simp: list_all_iff output_safe_def safe_def split: option.splits)

theorem every_frame_bidi_safe_witness:
  "list_all (bidi_balanced 0) (all_texts (fo_chrome (hd (fst (ex_session 2 0 [no_input])))))"
proof -
  have "fst (ex_session 2 0 [no_input]) \<noteq> []"
    by (simp add: ex_session_def split: prod.split)
  then show ?thesis
    using every_frame_bidi_safe [OF ex_inv ex_session_steps [OF ex_built_changed],
        where inps = "[no_input]"] list.set_sel(1) by blast
qed






text \<open>
  C23: What is said of lifetimes is said of the program: every run of \<open>main\<close> whose arguments
  parse, in either mode and however it ends, is a path of the lifetime of its store, from no
  window to no window, and the decisions on it are taken with inputs of the run's own window.
\<close>

theorem main_run_is_lifetime:
  assumes "parse_cli pd args = Inr cli"
    and "main_prog C D A fe pd prompt win args w = (res, w')"
  shows "\<exists>ls. life C D A (run_setup fe cli prompt) (w, None) ls (w', None) \<and>
    set (label_inputs ls) \<subseteq> (case win of NoWindow _ \<Rightarrow> {} | Window inps _ \<Rightarrow> set inps)"
  using assms by (rule main_is_life)

theorem main_run_is_lifetime_witness:
  "\<exists>ls. life ex_core ex_deps ex_api ex_setup (ex_world (ex_disk 2 0), None) ls
     (snd (main_prog ex_core ex_deps ex_api False None (Inl []) (Window [clicking BTN_STAY] (Inr ()))
        [lit ''--store'', lit ''store'', lit ''manifest.json'', lit ''site''] (ex_world (ex_disk 2 0))),
      None) \<and> set (label_inputs ls) \<subseteq> {clicking BTN_STAY}"
proof -
  let ?args = "[lit ''--store'', lit ''store'', lit ''manifest.json'', lit ''site'']"
  let ?cli = "\<lparr>cli_manifest = [lit ''manifest.json''], cli_onion = lit ''site'', cli_content = None,
    cli_store_dir = ex_base, cli_encrypted = False\<rparr>"
  have cli: "parse_cli None ?args = Inr ?cli"
    by (simp add: parse_cli_def path_from_def ex_base_def)
  obtain res w' where m: "main_prog ex_core ex_deps ex_api False None (Inl [])
      (Window [clicking BTN_STAY] (Inr ())) ?args (ex_world (ex_disk 2 0)) = (res, w')"
    by (metis surj_pair)
  from main_run_is_lifetime [OF cli m] show ?thesis by (simp add: m run_setup_def ex_setup_def)
qed






text \<open>
  C27: The override is the user's and silences nothing: in any frame a session reaches, it is on
  afterwards only if it was on before or its button was clicked on a blocked document, and the
  frame's chrome still carries the expired-canary banner.
\<close>

theorem override_only_by_click:
  assumes "fis_inv D (sh_identities store) w"
    and "build C D A mp onion cp store w = (Inr l, w1)"
    and "app_new D (derive_pip C) l store w1 = (app0, msgs, w2)"
    and "app_run D (derive_pip C) inps app0 w2 = (outs, app, w3)"
    and "update D (derive_pip C) inp app w3 = (out, app', w4)"
  shows "(app_canary_override app' \<longleftrightarrow> app_canary_override app \<or>
      (content_blocked app \<and> fi_button inp BTN_SHOW)) \<and>
    (cv_canary_state (ld_chrome (app_loaded app)) = Expired \<longrightarrow>
      draw_warning_banner CanaryExpired \<in> set (fo_chrome out))"
proof -
  have c: "chrome_inv (derive_pip C) app"
    by (rule app_run_chrome_inv [OF session_start(5) [OF assms(1-3)] assms(4)])
  then have "cv_canary_state (ld_chrome (app_loaded app)) = ld_canary_state (app_loaded app)"
    using chrome_built_facts(1) by (auto simp: chrome_inv_def)
  then show ?thesis
    using update_override [OF c assms(5)] update_expired_banner(1) [OF c _ assms(5)] by simp
qed

theorem override_only_by_click_witness:
  "let app = fst (snd (ex_session 1 1 []));
       u = update ex_deps (derive_pip ex_core) (clicking BTN_SHOW) app (snd (snd (ex_session 1 1 [])))
   in app_canary_override (fst (snd u)) \<and> draw_warning_banner CanaryExpired \<in> set (fo_chrome (fst u))"
proof -
  let ?app = "fst (snd (ex_session 1 1 []))" and ?w = "snd (snd (ex_session 1 1 []))"
  obtain out app' w4 where u: "update ex_deps (derive_pip ex_core) (clicking BTN_SHOW) ?app ?w =
      (out, app', w4)" by (metis surj_pair)
  have x: "ld_canary_state (projr (fst (ex_built 1 1))) = Expired" by code_simp
  have "?app = fst (ex_started 1 1)" by (simp add: ex_session_def)
  then have b: "content_blocked ?app" and e: "cv_canary_state (ld_chrome (app_loaded ?app)) = Expired"
    using session_blocked [OF ex_inv ex_session_steps(1,2) [OF ex_built_expired] x] by simp_all
  have c: "fi_button (clicking BTN_SHOW) BTN_SHOW" by (simp add: clicking_def)
  note o = override_only_by_click [OF ex_inv ex_session_steps [OF ex_built_expired] u]
  have "app_canary_override app'" by (rule iffD2 [OF conjunct1 [OF o] disjI2 [OF conjI [OF b c]]])
  moreover have "draw_warning_banner CanaryExpired \<in> set (fo_chrome out)"
    by (rule mp [OF conjunct2 [OF o] e])
  ultimately show ?thesis unfolding Let_def u fst_conv snd_conv by (rule conjI)
qed

text \<open>
  C30: While a trust decision is asked for, the chrome shows the complete phrase of the presented
  publisher, in plain sight and isolated: in every frame a session reaches with a prompt open.
\<close>

theorem prompt_shows_full_phrase:
  assumes "fis_inv D (sh_identities store) w"
    and "build C D A mp onion cp store w = (Inr l, w1)"
    and "app_new D (derive_pip C) l store w1 = (app0, msgs, w2)"
    and "app_run D (derive_pip C) inps app0 w2 = (outs, app, w3)"
    and "update D (derive_pip C) inp app w3 = (out, app', w4)"
    and "\<not> (app_pin_prompt app = None \<and> app_mismatch_prompt app = None)"
  shows "\<exists>st. Text (isolate_publisher_text (derive_pip C (ld_publisher (app_loaded app)))) st
    \<in> set (fo_chrome out)"
proof -
  have open_prompt: "app_pin_prompt app \<noteq> None \<or> app_mismatch_prompt app \<noteq> None"
    using assms(6) by simp
  show ?thesis
    by (rule update_prompt_phrase [OF app_run_chrome_inv [OF session_start(5) [OF assms(1-3)]
          assms(4)] open_prompt assms(5)])
qed

theorem prompt_shows_full_phrase_witness:
  "\<exists>st. Text (isolate_publisher_text (lit ''phrase '' @ [50])) st \<in> set (fo_chrome
     (fst (update ex_deps (derive_pip ex_core) no_input (fst (ex_started 2 0))
       (snd (snd (ex_started 2 0))))))"
proof -
  let ?app = "fst (ex_started 2 0)" and ?w = "snd (snd (ex_started 2 0))"
  obtain out app' w4 where
    u: "update ex_deps (derive_pip ex_core) no_input ?app ?w = (out, app', w4)" by (metis surj_pair)
  have r: "app_run ex_deps (derive_pip ex_core) [] ?app ?w = ([], ?app, ?w)" by simp
  have "app_mismatch_prompt ?app \<noteq> None" by code_simp
  then have p: "\<not> (app_pin_prompt ?app = None \<and> app_mismatch_prompt ?app = None)" by simp
  have k: "derive_pip ex_core (ld_publisher (app_loaded ?app)) = lit ''phrase '' @ [50]" by code_simp
  from prompt_shows_full_phrase [OF ex_inv ex_session_steps(1,2) [OF ex_built_changed] r u p]
  show ?thesis unfolding k u fst_conv .
qed

text \<open>
  C31: Only what the reader clicks leaves the window, and only as a copied address: whatever is
  copied in any frame was copied with the dialog's button in that frame, and is the address
  of an external link of the document that was loaded.
\<close>

theorem only_clicked_links_copied:
  assumes "fis_inv D (sh_identities store) w"
    and "build C D A mp onion cp store w = (Inr l, w1)"
    and "app_new D (derive_pip C) l store w1 = (app, msgs, w2)"
    and "app_run D (derive_pip C) inps app w2 = (outs, app', w3)"
    and "(inp, out) \<in> set (zip inps outs)" and "fo_copied out = Some url"
  shows "fi_button inp BTN_COPY \<and>
    (\<exists>scene label link t. ld_scene l = Some scene \<and> Link label link \<in> set (scene_nodes scene) \<and>
       external_handoff link = Some t \<and> ho_url t = url)"
proof -
  note s = session_start [OF assms(1-3)]
  from app_run_copied [OF s(5) _ assms(4-6)] s(7,8) show ?thesis
    by (auto simp: document_link_def)
qed

text \<open>The citation of the example document is clicked, then copied from the dialog.\<close>

theorem only_clicked_links_copied_witness:
  "\<exists>scene label link t. ld_scene (projr (fst ex_linked)) = Some scene \<and>
     Link label link \<in> set (scene_nodes scene) \<and> external_handoff link = Some t \<and>
     ho_url t = lit ''https://example.org''"
proof -
  let ?l = "projr (fst ex_linked)" and ?D = ex_deps and ?pip = "derive_pip ex_core"
  let ?inp = "(clicking BTN_COPY)\<lparr>fi_link := (\<lambda>i. i = 1)\<rparr>"
  have "is_ok (fst ex_linked)" by code_simp
  then have b: "build ex_core ex_deps ex_api ex_manifest_path (lit ''site'') (Some ex_content_path)
      ex_store (ex_world (ex_disk 1 0)) = (Inr ?l, snd ex_linked)"
    unfolding ex_linked_def [symmetric] by (rule pair_result)
  have l: "ld_canary_state ?l = Fresh" "ld_scene ?l = Some (scene_from_content ex_core 6)"
    by code_simp+
  obtain app msgs w2 where n: "app_new ?D ?pip ?l ex_store (snd ex_linked) = (app, msgs, w2)"
    by (metis surj_pair)
  note s = session_start [OF ex_inv b n]
  obtain out app' w3 where u: "update ?D ?pip ?inp app w2 = (out, app', w3)" by (metis surj_pair)
  have "cv_canary_state (ld_chrome (app_loaded app)) = Fresh"
    using s(5,9) l(1) chrome_built_facts(1) [of ?pip "app_loaded app"] by (simp add: chrome_inv_def)
  then have "\<not> content_blocked app" by (simp add: content_blocked_def)
  moreover have "snd (draw_scene ?inp (scene_from_content ex_core 6) None) =
      Some \<lparr>ho_url = lit ''https://example.org'', ho_kind = CitationKind\<rparr>"
    by (simp add: draw_scene_def ex_core_def clicking_def no_input_def)
  ultimately have copied: "fo_copied out = Some (lit ''https://example.org'')"
    using update_copied [OF s(5) _ _ _ _ u] s(8) l(2) by (simp add: clicking_def)
  have r: "app_run ?D ?pip [?inp] app w2 = ([out], app', w3)"
    unfolding app_run.simps u prod.case by (rule refl)
  have z: "(?inp, out) \<in> set (zip [?inp] [out])" by simp
  show ?thesis by (rule conjunct2 [OF only_clicked_links_copied [OF ex_inv b n r z copied]])
qed

text \<open>
  C35: The isolation of publisher text is what its comment asks for: a first-strong isolate
  around the text, in which each of the twelve bidi controls is replaced by its visible code
  point and every other character stands as it is, so that no control is left inside.
\<close>

theorem publisher_text_isolated:
  "isolate_publisher_text s =
     0x2068 # concat (map (\<lambda>ch. if ch \<in> {0x061C, 0x200E, 0x200F, 0x202A, 0x202B, 0x202C, 0x202D,
         0x202E, 0x2066, 0x2067, 0x2068, 0x2069} then lit ''<U+'' @ hex_04 ch @ lit ''>'' else [ch]) s)
       @ [0x2069] \<and>
   list_all (\<lambda>c. \<not> is_bidi_control c) (butlast (tl (isolate_publisher_text s))) \<and>
   bidi_balanced 0 (isolate_publisher_text s)"
proof -
  have set12: "is_bidi_control ch \<longleftrightarrow> ch \<in> {0x061C, 0x200E, 0x200F, 0x202A, 0x202B, 0x202C, 0x202D,
      0x202E, 0x2066, 0x2067, 0x2068, 0x2069}" for ch
    unfolding is_bidi_control_def by (simp; presburger)
  have inner: "butlast (tl (isolate_publisher_text s)) = concat (map escape_char s)"
    by (simp add: isolate_publisher_text_alt)
  have clean: "list_all (\<lambda>c. \<not> is_bidi_control c) (concat (map escape_char s))"
    using escape_char_no_control by (auto simp: list_all_iff)
  have shape: "isolate_publisher_text s = 0x2068 # concat (map (\<lambda>ch. if ch \<in> {0x061C, 0x200E,
      0x200F, 0x202A, 0x202B, 0x202C, 0x202D, 0x202E, 0x2066, 0x2067, 0x2068, 0x2069}
      then lit ''<U+'' @ hex_04 ch @ lit ''>'' else [ch]) s) @ [0x2069]"
    unfolding isolate_publisher_text_alt escape_char_def set12 FSI_def PDI_def by (rule refl)
  show ?thesis
    by (intro conjI shape clean [folded inner] bidi_balanced_isolated_end)
qed

text \<open>
  C37: A persisted decision is recorded: when persisting succeeds, every intent but none puts
  the accepted manifest's record in front of the history of the publisher it retains, and of
  no other.
\<close>

theorem persisted_decision_recorded:
  assumes "fhs_inv D (sh_history (app_store app)) w" and "app_persist D app i w = (Inr u, w')"
    and "ld_record (app_loaded app) = Some r" and "record_ok r"
  shows "fhs_content D (sh_history (app_store app)) w' p =
    (if intent_publisher i = Some p then [r] else []) @ fhs_content D (sh_history (app_store app)) w p"
  using app_persist_history [OF assms(1,2)] assms(3,4) by (auto split: option.splits)

text \<open>The observation of a first contact, on an empty disk.\<close>

theorem persisted_decision_recorded_witness:
  "fhs_content ex_deps (sh_history ex_store) (snd (app_persist ex_deps (ex_app 7 4 2)
     (RecordObservation 1) (ex_world []))) 1 = [ex_record 7 4 2]"
proof -
  let ?p = "app_persist ex_deps (ex_app 7 4 2) (RecordObservation 1) (ex_world [])"
  have "is_ok (fst ?p)" by code_simp
  note p = pair_result [OF this]
  have e: "fhs_content ex_deps (sh_history ex_store) (ex_world []) 1 = []"
    by (simp add: fhs_content_def fhs_records_at_def fhs_dto_at_def dto_at_def
        protected_content_def ex_world_def)
  have st: "app_store (ex_app 7 4 2) = ex_store"
    "ld_record (app_loaded (ex_app 7 4 2)) = Some (ex_record 7 4 2)"
    by (simp_all add: ex_app_def)
  show ?thesis
    using persisted_decision_recorded [OF _ p st(2), of 1] ex_empty_inv(2) e
    by (simp add: st(1) record_ok_def ex_record_def del: One_nat_def)
qed

text \<open>
  C39: A newer manifest that is merely viewed is not recorded: where the site is known and no
  decision is clicked, the next session checks against the history of this one, although an
  older manifest would be refused as a downgrade had the accepted record been kept.
\<close>

theorem viewed_update_not_recorded:
  assumes "core_checks_ok C" and "fis_inv D (sh_identities store) w"
    and "build C D A mp onion cp store w = (Inr l, w1)"
    and "app_new D (derive_pip C) l store w1 = (app, msgs, w2)"
    and "app_run D (derive_pip C) inps app w2 = (outs, app', w3)"
    and "\<forall>inp \<in> set inps. no_decision_clicked inp"
    and "app_record D store w (ld_site l) \<noteq> None" and "ld_record l = Some r"
    and "record_for C m = Some older" and "issued_at older < issued_at r"
  shows "fhs_content D (sh_history store) w3 p = fhs_content D (sh_history store) w p \<and>
    (\<exists>d. diag_code d = ECanaryDowngrade \<and> check_against_history C m
       (push (from_records_newest_first (fhs_content D (sh_history store) w p)) r) = Inl d)"
proof -
  have f: "w_files w3 = w_files w" by (rule session_passive [OF assms(2-7)])
  have "newest (push (from_records_newest_first (fhs_content D (sh_history store) w p)) r) = Some r"
    by simp
  from check_against_history_older [OF assms(1,9) this assms(10)] fhs_same_files [OF f, of D "sh_history store"]
  show ?thesis by auto
qed

theorem viewed_update_not_recorded_witness:
  "check_against_history ex_core (1, 6, 5, 3) (from_records_newest_first
     (fhs_content ex_deps (sh_history ex_store) (snd (snd (ex_session 1 0 [no_input]))) 1)) = Inr ()"
proof -
  have site: "ld_site (projr (fst (ex_built 1 0))) = 1"
    and r: "ld_record (projr (fst (ex_built 1 0))) = Some (ex_record 7 4 2)"
    and m: "record_for ex_core (1, 6, 5, 3) = Some (ex_record 6 5 3)"
    and ok: "check_against_history ex_core (1, 6, 5, 3) (from_records_newest_first [ex_record 5 3 1]) = Inr ()"
    by code_simp+
  have "app_record ex_deps ex_store (ex_world (ex_disk 1 0)) (ld_site (projr (fst (ex_built 1 0)))) \<noteq> None"
    unfolding site by (simp add: ex_retained del: One_nat_def)
  from viewed_update_not_recorded [OF ex_core_ok ex_inv ex_session_steps [OF ex_built_same] _ this r m,
      of "[no_input]" 1]
  have "fhs_content ex_deps (sh_history ex_store) (snd (snd (ex_session 1 0 [no_input]))) 1 =
      [ex_record 5 3 1]"
    by (simp add: fhs_content_def ex_content(3) no_decision_clicked_def no_input_def ex_record_def
        del: One_nat_def)
  with ok show ?thesis by simp
qed

text \<open>
  From the command line to the last frame of a session, whatever the file system does,
  an identity retained for any site keeps its key and its replaced keys, and its provenance
  never goes down, unless one of the two buttons that confirm a new identity is clicked.
\<close>

theorem session_keeps_identity:
  assumes "fis_inv D (sh_identities store) w"
    and "build C D A mp onion cp store w = (Inr l, w1)"
    and "app_new D (derive_pip C) l store w1 = (app, msgs, w2)"
    and "app_run D (derive_pip C) inps app w2 = (outs, app', w3)"
    and "\<forall>inp \<in> set inps. \<not> fi_button inp BTN_CONFIRM_NEW \<and> \<not> fi_button inp BTN_VERIFIED_NEW"
    and "app_record D store w site = Some (r, ks)"
  shows "\<exists>r'. app_record D store w3 site = Some (r', ks) \<and> pubkey r' = pubkey r \<and>
    provenance r \<le> provenance r'"
proof -
  note s = session_start [OF assms(1-3)]
  have "app_record D store w1 site = Some (r, ks)"
    using app_record_files [OF build_files [OF assms(2)], of D store] assms(6) by simp
  from app_new_keeps [OF s(1,2) assms(3) this] show ?thesis
    using app_run_keeps [OF s(3) assms(4) _ assms(5), of site r ks] s(4) by simp
qed

text \<open>Another key is presented at the pinned site; the user declines, then clicks on nothing.\<close>

theorem session_keeps_identity_witness:
  "\<exists>r'. app_record ex_deps ex_store (snd (snd (ex_session 2 0 [clicking BTN_STAY, no_input]))) 1 =
     Some (r', []) \<and> pubkey r' = 1 \<and> Pinned \<le> provenance r'"
  using session_keeps_identity [OF ex_inv ex_session_steps [OF ex_built_changed] _ ex_retained]
  by (simp add: clicking_def no_input_def button_defs)

text \<open>
  Nothing in a store's lifetime loses an identity, and none is made up: the list of the keys
  a site ever had, newest first, only grows at its head, and by keys that were presented at
  that site.
\<close>

theorem lifetime_log_append_only:
  assumes "life C D A S s ls s'" and "life_inv D S root s"
  shows "\<exists>new. identity_log (life_record D root s' site) = new @ identity_log (life_record D root s site) \<and>
    list_all (\<lambda>k. \<exists>d. (site, k, d) \<in> set (label_visits ls)) new"
  using assms by (rule life_log)

theorem lifetime_log_append_only_witness:
  "\<exists>new. identity_log (life_record ex_deps ex_root (ex_end 2 BTN_CONFIRM_NEW) 1) = new @ [1] \<and>
     list_all (\<lambda>k. k = 2) new"
proof -
  have "life ex_core ex_deps ex_api ex_setup (ex_world (ex_disk 2 0), None)
      [Presented 1 2, Decided 1 2 ConfirmNewIdentity (clicking BTN_CONFIRM_NEW)]
      (ex_end 2 BTN_CONFIRM_NEW)"
    by (rule ex_path) simp
  note log = lifetime_log_append_only [OF this ex_life_inv, of 1]
  have "identity_log (life_record ex_deps ex_root (ex_world (ex_disk 2 0),
      None :: (nat, nat, nat, nat, unit, nat) App option) 1) = [1]"
    by (simp add: ex_life_record identity_log_def del: One_nat_def)
  with log show ?thesis by (auto simp: label_visits_def list_all_iff simp del: One_nat_def)
qed

text \<open>
  The arguments are read back as they were given: for every command line made of the two
  options and positional arguments in any order, the store is the last one named, encryption
  is on if asked for anywhere, and the first three positional arguments are the manifest, the
  address and the content.
\<close>

theorem command_line_roundtrip:
  assumes "list_all token_ok toks" and "concat (map token_positional toks) = m # onion # rest"
  shows "parse_cli pd (concat (map token_args toks)) =
    Inr \<lparr>cli_manifest = path_from m, cli_onion = onion,
         cli_content = (case rest of [] \<Rightarrow> None | c # _ \<Rightarrow> Some (path_from c)),
         cli_store_dir = (case fold (\<lambda>t d. token_store d t) toks None of Some d \<Rightarrow> d
                          | None \<Rightarrow> default_store_dir pd),
         cli_encrypted = (Encrypted_option \<in> set toks)\<rparr>"
  unfolding parse_cli_def parse_args_tokens [OF assms(1)] using assms(2) by simp

theorem command_line_roundtrip_witness:
  "parse_cli None [lit ''m.json'', lit ''--store-encrypted'', lit ''a.onion'', lit ''--store'', lit ''dir''] =
     Inr \<lparr>cli_manifest = [lit ''m.json''], cli_onion = lit ''a.onion'', cli_content = None,
          cli_store_dir = [lit ''dir''], cli_encrypted = True\<rparr>"
  using command_line_roundtrip [of "[Positional (lit ''m.json''), Encrypted_option,
      Positional (lit ''a.onion''), Store_option (lit ''dir'')]" "lit ''m.json''" "lit ''a.onion''" "[]" None]
  by (simp add: path_from_def)

end
